(* ===== verification/Prelude.thy ===== *)
theory Prelude
  imports Main "HOL-Library.AList" "HOL-Library.Char_ord" "HOL-Library.List_Lexorder"
begin

text \<open>
  Shared vocabulary of the development: results that may raise, Python dictionaries, and the
  string operations of the standard library the router uses.

  \<^item> A Python \<open>str\<close> is a list of code points. The model's \<open>string\<close> holds the code points
    U+0000 to U+00FF, one \<open>char\<close> each, so \<open>length\<close> counts what \<open>len\<close> counts.
  \<^item> A Python \<open>dict\<close> is an association list with distinct keys, in insertion order; an
    assignment is \<open>AList.update\<close>, which overwrites in place and appends a new key at the end.
  \<^item> A function that may raise returns a sum, with \<open>Inl\<close> the exception; \<open>rbind\<close> runs the
    next statement only after a normal return and \<open>raise_if\<close> is an \<open>if ...: raise\<close>.
\<close>

named_theorems str_defs \<open>definitions of the string operations, for evaluation\<close>
named_theorems rbind_elims \<open>what a normal return of a chain of statements tells about its parts\<close>

section \<open>Results that may raise\<close>

type_synonym ('e, 'a) result = "'e + 'a"

fun rbind :: "('e, 'a) result \<Rightarrow> ('a \<Rightarrow> ('e, 'b) result) \<Rightarrow> ('e, 'b) result" where
  "rbind (Inl e) f = Inl e"
| "rbind (Inr x) f = f x"

definition raise_if :: "bool \<Rightarrow> 'e \<Rightarrow> ('e, unit) result" where
  "raise_if c e = (if c then Inl e else Inr ())"

definition some_or :: "'a option \<Rightarrow> 'e \<Rightarrow> ('e, 'a) result" where
  "some_or x e = (case x of None \<Rightarrow> Inl e | Some y \<Rightarrow> Inr y)"

abbreviation returns :: "('e, 'a) result \<Rightarrow> bool" where
  "returns r \<equiv> \<exists>x. r = Inr x"

lemma rbind_Inr_iff: "rbind r f = Inr y \<longleftrightarrow> (\<exists>x. r = Inr x \<and> f x = Inr y)"
  by (cases r) auto

lemma rbind_Inl_iff: "rbind r f = Inl e \<longleftrightarrow> r = Inl e \<or> (\<exists>x. r = Inr x \<and> f x = Inl e)"
  by (cases r) auto

lemma raise_if_Inr_iff: "raise_if c e = Inr u \<longleftrightarrow> \<not> c"
  by (simp add: raise_if_def)

lemma raise_if_Inl_iff: "raise_if c e = Inl e' \<longleftrightarrow> c \<and> e' = e"
  by (auto simp: raise_if_def)

lemma some_or_Inr_iff: "some_or x e = Inr y \<longleftrightarrow> x = Some y"
  by (cases x) (auto simp: some_or_def)

lemma some_or_Inl_iff: "some_or x e = Inl e' \<longleftrightarrow> x = None \<and> e' = e"
  by (cases x) (auto simp: some_or_def)

lemmas result_iffs =
  rbind_Inr_iff rbind_Inl_iff raise_if_Inr_iff raise_if_Inl_iff some_or_Inr_iff some_or_Inl_iff

text \<open>A chain of statements that returned, taken apart one statement at a time.\<close>

lemma rbind_InrE [rbind_elims]:
  "rbind r f = Inr y \<Longrightarrow> (\<And>x. r = Inr x \<Longrightarrow> f x = Inr y \<Longrightarrow> P) \<Longrightarrow> P"
  by (cases r) auto

lemma raise_if_InrE [rbind_elims]: "raise_if c e = Inr u \<Longrightarrow> (\<not> c \<Longrightarrow> P) \<Longrightarrow> P"
  by (simp add: raise_if_def split: if_splits)

lemma some_or_InrE [rbind_elims]: "some_or x e = Inr y \<Longrightarrow> (x = Some y \<Longrightarrow> P) \<Longrightarrow> P"
  by (cases x) (auto simp: some_or_def)

lemma raise_if_simps [simp]:
  "raise_if True e = Inl e"
  "raise_if False e = Inr ()"
  by (simp_all add: raise_if_def)

lemma some_or_simps [simp]:
  "some_or None e = Inl e"
  "some_or (Some x) e = Inr x"
  by (simp_all add: some_or_def)

lemma rbind_cong [fundef_cong]:
  "r = r' \<Longrightarrow> (\<And>x. r' = Inr x \<Longrightarrow> f x = g x) \<Longrightarrow> rbind r f = rbind r' g"
  by (cases r) auto

lemma rbind_assoc: "rbind (rbind x f) g = rbind x (\<lambda>y. rbind (f y) g)"
  by (cases x) simp_all

lemma rbind_Inr [simp]: "rbind x Inr = x"
  by (cases x) simp_all

lemma result_exhaust: "(\<exists>e. r = Inl e) \<or> (\<exists>x. r = Inr x)" for r :: "('e, 'a) result"
  by (cases r) auto

text \<open>Validating every element of a list, stopping at the first that raises.\<close>

fun rmap :: "('a \<Rightarrow> ('e, 'b) result) \<Rightarrow> 'a list \<Rightarrow> ('e, 'b list) result" where
  "rmap f [] = Inr []"
| "rmap f (x # xs) = rbind (f x) (\<lambda>y. rbind (rmap f xs) (\<lambda>ys. Inr (y # ys)))"

lemma rmap_cong [fundef_cong]:
  "xs = ys \<Longrightarrow> (\<And>x. x \<in> set ys \<Longrightarrow> f x = g x) \<Longrightarrow> rmap f xs = rmap g ys"
  by (induction ys arbitrary: xs) auto

lemma rmap_Inr_iff: "rmap f xs = Inr ys \<longleftrightarrow> list_all2 (\<lambda>x y. f x = Inr y) xs ys"
  by (induction xs arbitrary: ys) (auto simp: rbind_Inr_iff list_all2_Cons1)

lemma list_all2_in2: "list_all2 P xs ys \<Longrightarrow> y \<in> set ys \<Longrightarrow> \<exists>x \<in> set xs. P x y"
  by (induction rule: list_all2_induct) auto

lemma rmap_in: "rmap f xs = Inr ys \<Longrightarrow> y \<in> set ys \<Longrightarrow> \<exists>x \<in> set xs. f x = Inr y"
  unfolding rmap_Inr_iff by (rule list_all2_in2)

lemma find_append:
  "find p (xs @ ys) = (case find p xs of Some x \<Rightarrow> Some x | None \<Rightarrow> find p ys)"
  by (induction xs) auto

lemma find_SomeD: "find p xs = Some x \<Longrightarrow> p x \<and> x \<in> set xs"
  by (induction xs) (auto split: if_splits)

section \<open>Python dictionaries\<close>

type_synonym ('k, 'v) dict = "('k \<times> 'v) list"

abbreviation dict_get :: "('k, 'v) dict \<Rightarrow> 'k \<Rightarrow> 'v option" where
  "dict_get d k \<equiv> map_of d k"

abbreviation dict_set :: "'k \<Rightarrow> 'v \<Rightarrow> ('k, 'v) dict \<Rightarrow> ('k, 'v) dict" where
  "dict_set \<equiv> AList.update"

abbreviation dict_keys :: "('k, 'v) dict \<Rightarrow> 'k list" where
  "dict_keys d \<equiv> map fst d"

abbreviation wf_dict :: "('k, 'v) dict \<Rightarrow> bool" where
  "wf_dict d \<equiv> distinct (dict_keys d)"

definition dict_has :: "('k, 'v) dict \<Rightarrow> 'k \<Rightarrow> bool" where
  "dict_has d k \<longleftrightarrow> map_of d k \<noteq> None"

lemma dict_has_iff: "dict_has d k \<longleftrightarrow> k \<in> set (dict_keys d)"
  by (force simp: dict_has_def map_of_eq_None_iff)

lemma dict_has_get: "dict_has d k \<Longrightarrow> \<exists>v. dict_get d k = Some v"
  by (auto simp: dict_has_def)

lemma dict_get_in: "dict_get d k = Some v \<Longrightarrow> (k, v) \<in> set d"
  by (rule map_of_SomeD)

lemma dict_get_unique: "wf_dict d \<Longrightarrow> (k, v) \<in> set d \<Longrightarrow> dict_get d k = Some v"
  by simp

text \<open>A dictionary comprehension \<open>{k: v for k, v in d.items() if p}\<close> keeps the order.\<close>

lemma wf_dict_filter: "wf_dict d \<Longrightarrow> wf_dict (filter p d)"
  by (induction d) auto

lemma dict_get_filter:
  assumes "wf_dict d"
  shows "dict_get (filter p d) k =
    (case dict_get d k of None \<Rightarrow> None | Some v \<Rightarrow> if p (k, v) then Some v else None)"
  using assms
proof (induction d)
  case Nil
  then show ?case by simp
next
  case (Cons kv d)
  obtain a b where kv: "kv = (a, b)" by (cases kv)
  have "k = a \<Longrightarrow> dict_get d k = None"
    using Cons.prems kv by (auto simp: map_of_eq_None_iff)
  with Cons kv show ?case by (auto split: option.splits)
qed

lemma wf_dict_set: "wf_dict d \<Longrightarrow> wf_dict (dict_set k v d)"
  by (rule distinct_update)

lemma dict_get_set: "dict_get (dict_set k v d) k' = (if k' = k then Some v else dict_get d k')"
  by (simp add: update_conv')

lemma length_dict_set:
  "length (dict_set k v d) = (if k \<in> set (dict_keys d) then length d else Suc (length d))"
  by (induction d) auto

lemma dict_set_new: "k \<notin> set (dict_keys d) \<Longrightarrow> dict_set k v d = d @ [(k, v)]"
  by (induction d) auto

section \<open>Strings\<close>

definition str_contains_char :: "char \<Rightarrow> string \<Rightarrow> bool" where
  "str_contains_char c s \<longleftrightarrow> c \<in> set s"

fun str_join :: "string \<Rightarrow> string list \<Rightarrow> string" where
  "str_join sep [] = []"
| "str_join sep [x] = x"
| "str_join sep (x # y # xs) = x @ sep @ str_join sep (y # xs)"

definition digit_char :: "nat \<Rightarrow> char" where
  "digit_char d = ''0123456789'' ! d"

fun nat_str :: "nat \<Rightarrow> string" where
  "nat_str n = (if n < 10 then [digit_char n] else nat_str (n div 10) @ [digit_char (n mod 10)])"

declare nat_str.simps [simp del]

definition int_str :: "int \<Rightarrow> string" where
  "int_str i = (if i < 0 then ''-'' @ nat_str (nat (- i)) else nat_str (nat i))"

definition is_lower :: "char \<Rightarrow> bool" where
  "is_lower c \<longleftrightarrow> c \<in> set ''abcdefghijklmnopqrstuvwxyz''"

definition is_digit :: "char \<Rightarrow> bool" where
  "is_digit c \<longleftrightarrow> c \<in> set ''0123456789''"

definition is_upper :: "char \<Rightarrow> bool" where
  "is_upper c \<longleftrightarrow> c \<in> set ''ABCDEFGHIJKLMNOPQRSTUVWXYZ''"

definition is_hex :: "char \<Rightarrow> bool" where
  "is_hex c \<longleftrightarrow> c \<in> set ''0123456789abcdef''"

definition is_ascii :: "char \<Rightarrow> bool" where
  "is_ascii c \<longleftrightarrow> of_char c < (128 :: nat)"

lemmas char_class_defs [str_defs] = is_lower_def is_digit_def is_upper_def is_hex_def

text \<open>\<open>lstrip\<close>, \<open>rstrip\<close> and \<open>strip\<close> for a given set of characters.\<close>

definition strip_left :: "(char \<Rightarrow> bool) \<Rightarrow> string \<Rightarrow> string" where
  "strip_left p s = dropWhile p s"

definition strip_both :: "(char \<Rightarrow> bool) \<Rightarrow> string \<Rightarrow> string" where
  "strip_both p s = rev (dropWhile p (rev (dropWhile p s)))"

text \<open>
  The characters \<open>str.strip()\<close> removes, and those \<open>str_strip_whitespace\<close> removes
  (Unicode \<open>White_Space\<close>): they differ on U+001C to U+001F.
\<close>

definition py_space :: "char \<Rightarrow> bool" where
  "py_space c \<longleftrightarrow> (let n = of_char c :: nat in
     (9 \<le> n \<and> n \<le> 13) \<or> (28 \<le> n \<and> n \<le> 32) \<or> n = 133 \<or> n = 160)"

definition unicode_white :: "char \<Rightarrow> bool" where
  "unicode_white c \<longleftrightarrow> (let n = of_char c :: nat in
     (9 \<le> n \<and> n \<le> 13) \<or> n = 32 \<or> n = 133 \<or> n = 160)"

definition py_strip :: "string \<Rightarrow> string" where
  "py_strip s = strip_both py_space s"

definition trim :: "string \<Rightarrow> string" where
  "trim s = strip_both unicode_white s"

lemma strip_both_subset: "set (strip_both p s) \<subseteq> set s"
proof
  fix c assume "c \<in> set (strip_both p s)"
  then have "c \<in> set (dropWhile p s)"
    by (auto simp: strip_both_def dest: set_dropWhileD)
  then show "c \<in> set s" by (rule set_dropWhileD)
qed

lemma strip_both_id: "s \<noteq> [] \<Longrightarrow> \<not> p (hd s) \<Longrightarrow> \<not> p (last s) \<Longrightarrow> strip_both p s = s"
proof -
  assume ne: "s \<noteq> []" and first: "\<not> p (hd s)" and final: "\<not> p (last s)"
  from ne first have "dropWhile p s = s" by (simp add: dropWhile_eq_self_iff)
  moreover from ne final have "dropWhile p (rev s) = rev s"
    by (simp add: dropWhile_eq_self_iff hd_rev)
  ultimately show ?thesis by (simp add: strip_both_def)
qed

lemma strip_both_none: "\<forall>c \<in> set s. \<not> p c \<Longrightarrow> strip_both p s = s"
proof (cases "s = []")
  case True
  then show ?thesis by (simp add: strip_both_def)
next
  case False
  moreover assume "\<forall>c \<in> set s. \<not> p c"
  ultimately show ?thesis by (simp add: strip_both_id)
qed

lemma strip_both_all: "\<forall>c \<in> set s. p c \<Longrightarrow> strip_both p s = []"
  by (auto simp: strip_both_def dest: set_dropWhileD)

lemma length_strip_both: "length (strip_both p s) \<le> length s"
proof -
  have "length (strip_both p s) \<le> length (dropWhile p s)"
    unfolding strip_both_def by (metis length_dropWhile_le length_rev)
  then show ?thesis using length_dropWhile_le [of p s] by linarith
qed

lemma strip_both_eq_Nil_iff: "strip_both p s = [] \<longleftrightarrow> (\<forall>c \<in> set s. p c)"
proof
  assume "strip_both p s = []"
  then have all: "\<forall>c \<in> set (dropWhile p s). p c"
    by (auto simp: strip_both_def dropWhile_eq_Nil_conv)
  have "dropWhile p s = []"
  proof (rule ccontr)
    assume ne: "dropWhile p s \<noteq> []"
    then have "\<not> p (hd (dropWhile p s))" by (rule hd_dropWhile)
    with all ne show False by simp
  qed
  then show "\<forall>c \<in> set s. p c" by (simp add: dropWhile_eq_Nil_conv)
next
  assume "\<forall>c \<in> set s. p c"
  then show "strip_both p s = []" by (rule strip_both_all)
qed

subsection \<open>\<open>repr\<close> of a string\<close>

definition hex_char :: "nat \<Rightarrow> char" where
  "hex_char d = ''0123456789abcdef'' ! d"

definition py_printable :: "char \<Rightarrow> bool" where
  "py_printable c \<longleftrightarrow> (let n = of_char c :: nat in
     (32 \<le> n \<and> n \<le> 126) \<or> (161 \<le> n \<and> n \<noteq> 173))"

definition repr_char :: "char \<Rightarrow> char \<Rightarrow> string" where
  "repr_char q c =
    (if c = q \<or> c = CHR 0x5C then [CHR 0x5C, c]
     else if c = CHR 0x09 then [CHR 0x5C, CHR ''t'']
     else if c = CHR 0x0A then [CHR 0x5C, CHR ''n'']
     else if c = CHR 0x0D then [CHR 0x5C, CHR ''r'']
     else if py_printable c then [c]
     else (let n = of_char c :: nat in
           [CHR 0x5C, CHR ''x'', hex_char (n div 16), hex_char (n mod 16)]))"

definition py_repr :: "string \<Rightarrow> string" where
  "py_repr s =
    (let q = (if CHR 0x27 \<in> set s \<and> CHR 0x22 \<notin> set s then CHR 0x22 else CHR 0x27)
     in [q] @ concat (map (repr_char q) s) @ [q])"

text \<open>
  A string of lowercase letters, digits, dots, underscores and hyphens is printed between
  single quotes, unchanged: the \<open>repr\<close> of every validated identifier.
\<close>

definition id_chars :: string where
  "id_chars = ''abcdefghijklmnopqrstuvwxyz0123456789._-''"

definition id_char :: "char \<Rightarrow> bool" where
  "id_char c \<longleftrightarrow> c \<in> set id_chars"

lemma id_chars_all: "list_all P id_chars \<Longrightarrow> id_char c \<Longrightarrow> P c"
  by (simp add: id_char_def list_all_iff)

lemma repr_char_id: "id_char c \<Longrightarrow> repr_char (CHR 0x27) c = [c]"
  by (rule id_chars_all [where P = "\<lambda>c. repr_char (CHR 0x27) c = [c]"]) code_simp

lemma id_char_not_quote: "id_char c \<Longrightarrow> c \<noteq> CHR 0x27"
  by (rule id_chars_all [where P = "\<lambda>c. c \<noteq> CHR 0x27"]) code_simp

lemma py_repr_id: "list_all id_char s \<Longrightarrow> py_repr s = [CHR 0x27] @ s @ [CHR 0x27]"
proof -
  assume all: "list_all id_char s"
  then have "CHR 0x27 \<notin> set s" by (auto simp: list_all_iff dest: id_char_not_quote)
  moreover from all have "concat (map (repr_char (CHR 0x27)) s) = s"
    by (induction s) (simp_all add: repr_char_id)
  ultimately show ?thesis by (simp add: py_repr_def Let_def)
qed

subsection \<open>Decimal digits\<close>

lemma is_digit_digit_char: "d < 10 \<Longrightarrow> is_digit (digit_char d)"
  unfolding is_digit_def digit_char_def by (rule nth_mem) simp

lemma nat_str_digits: "list_all is_digit (nat_str n)"
proof (induction n rule: nat_str.induct)
  case (1 n)
  show ?case
  proof (cases "n < 10")
    case True
    then show ?thesis by (subst nat_str.simps) (simp add: is_digit_digit_char)
  next
    case False
    with 1 show ?thesis by (subst nat_str.simps) (simp add: is_digit_digit_char)
  qed
qed

lemma nat_str_nonempty [simp]: "nat_str n \<noteq> []"
  by (subst nat_str.simps) simp

text \<open>Sorting a set of strings, as \<open>sorted({...})\<close>.\<close>

definition sorted_strs :: "string list \<Rightarrow> string list" where
  "sorted_strs xs = sort (remdups xs)"

lemma sorted_strs_props [simp]:
  "sorted (sorted_strs xs)" "distinct (sorted_strs xs)" "set (sorted_strs xs) = set xs"
  by (simp_all add: sorted_strs_def)

lemma sorted_strs_unique:
  "sorted xs \<Longrightarrow> distinct xs \<Longrightarrow> set xs = set ys \<Longrightarrow> sorted_strs ys = xs"
  by (metis sorted_distinct_set_unique sorted_strs_props)

lemma sorted_strs_idem [simp]: "sorted_strs (sorted_strs xs) = sorted_strs xs"
  by (rule sorted_strs_unique) simp_all

end
