(* ===== verification/Py_Decimal.thy ===== *)
theory Py_Decimal
  imports Prelude Complex_Main
begin

text \<open>
  Python's \<open>decimal\<close> arithmetic under the default context, which the router never changes:
  28 significant digits, \<open>ROUND_HALF_EVEN\<close>, \<open>Emax = 999999\<close>, \<open>Emin = -999999\<close>, with the
  \<open>Overflow\<close> trap enabled and \<open>Underflow\<close>, \<open>Inexact\<close> and \<open>Rounded\<close> silent.

  Every \<open>Decimal\<close> of the program is finite and non-negative (validated \<open>gt=0\<close> or \<open>ge=0\<close>
  at the boundary, or built from a non-negative \<open>int\<close>), so a number is a coefficient and an
  exponent. An operation returns \<open>None\<close> where \<open>decimal.Overflow\<close> is raised.
\<close>

datatype decimal = Dec (coeff: nat) (dexp: int)

definition dec_prec :: nat where "dec_prec = 28"
definition dec_emax :: int where "dec_emax = 999999"
definition dec_emin :: int where "dec_emin = -999999"
definition dec_etop :: int where "dec_etop = dec_emax - int dec_prec + 1"
definition dec_etiny :: int where "dec_etiny = dec_emin - int dec_prec + 1"

lemmas dec_context = dec_prec_def dec_emax_def dec_emin_def dec_etop_def dec_etiny_def

fun ndigits :: "nat \<Rightarrow> nat" where
  "ndigits n = (if n < 10 then 1 else Suc (ndigits (n div 10)))"

declare ndigits.simps [simp del]

section \<open>Rounding\<close>

definition round_half_even :: "nat \<Rightarrow> nat \<Rightarrow> nat" where
  "round_half_even c k =
    (let d = 10 ^ k; q = c div d; r = c mod d
     in if 2 * r > d \<or> (2 * r = d \<and> odd q) then q + 1 else q)"

definition dec_fix :: "nat \<Rightarrow> int \<Rightarrow> decimal option" where
  "dec_fix c e =
    (if c = 0 then Some (Dec 0 (min (max e dec_etiny) dec_emax))
     else
       (let exp_min = int (ndigits c) + e - int dec_prec in
        if exp_min > dec_etop then None
        else
          (let em = max exp_min dec_etiny in
           if e < em
           then (let q = round_half_even c (nat (em - e));
                     (q', em') = (if ndigits q > dec_prec then (q div 10, em + 1) else (q, em))
                 in if em' > dec_etop then None else Some (Dec q' em'))
           else Some (Dec c e))))"

section \<open>Arithmetic\<close>

definition dec_of_nat :: "nat \<Rightarrow> decimal" where
  "dec_of_nat n = Dec n 0"

fun dec_mul :: "decimal \<Rightarrow> decimal \<Rightarrow> decimal option" where
  "dec_mul (Dec a e) (Dec b f) = dec_fix (a * b) (e + f)"

fun dec_add :: "decimal \<Rightarrow> decimal \<Rightarrow> decimal option" where
  "dec_add (Dec a e) (Dec b f) =
    (let m = min e f in dec_fix (a * 10 ^ nat (e - m) + b * 10 ^ nat (f - m)) m)"

text \<open>An exact quotient keeps its exponent as close as it can to the ideal one.\<close>

function strip_zeros :: "nat \<Rightarrow> int \<Rightarrow> int \<Rightarrow> nat \<times> int" where
  "strip_zeros c e ideal =
    (if e < ideal \<and> c mod 10 = 0 then strip_zeros (c div 10) (e + 1) ideal else (c, e))"
  by pat_completeness auto
termination
  by (relation "measure (\<lambda>(c, e, ideal). nat (ideal - e))") auto

declare strip_zeros.simps [simp del]

fun dec_div :: "decimal \<Rightarrow> decimal \<Rightarrow> decimal option" where
  "dec_div (Dec a e) (Dec b f) =
    (if a = 0 then dec_fix 0 (e - f)
     else
       (let shift = int (ndigits b) - int (ndigits a) + int dec_prec + 1;
            x = e - f - shift;
            num = (if shift \<ge> 0 then a * 10 ^ nat shift else a);
            den = (if shift \<ge> 0 then b else b * 10 ^ nat (- shift));
            q = num div den;
            r = num mod den
        in if r \<noteq> 0
           then dec_fix (if q mod 5 = 0 then q + 1 else q) x
           else (let (q', x') = strip_zeros q x (e - f) in dec_fix q' x')))"

section \<open>Comparison, integral value and text\<close>

fun dec_le :: "decimal \<Rightarrow> decimal \<Rightarrow> bool" where
  "dec_le (Dec a e) (Dec b f) =
    (let m = min e f in a * 10 ^ nat (e - m) \<le> b * 10 ^ nat (f - m))"

definition dec_eq :: "decimal \<Rightarrow> decimal \<Rightarrow> bool" where
  "dec_eq x y \<longleftrightarrow> dec_le x y \<and> dec_le y x"

definition dec_lt :: "decimal \<Rightarrow> decimal \<Rightarrow> bool" where
  "dec_lt x y \<longleftrightarrow> \<not> dec_le y x"

fun dec_to_integral :: "decimal \<Rightarrow> decimal" where
  "dec_to_integral (Dec c e) = (if e \<ge> 0 then Dec c e else Dec (round_half_even c (nat (- e))) 0)"

text \<open>\<open>int(d)\<close> truncates; the router applies it to integral values only.\<close>

fun dec_int :: "decimal \<Rightarrow> nat" where
  "dec_int (Dec c e) = (if e \<ge> 0 then c * 10 ^ nat e else c div 10 ^ nat (- e))"

fun dec_str :: "decimal \<Rightarrow> string" where
  "dec_str (Dec c e) =
    (let digits = nat_str c;
         leftdigits = e + int (length digits);
         dotplace = (if e \<le> 0 \<and> leftdigits > -6 then leftdigits else 1);
         intpart = (if dotplace \<le> 0 then ''0''
                    else if dotplace \<ge> int (length digits)
                    then digits @ replicate (nat dotplace - length digits) (CHR ''0'')
                    else take (nat dotplace) digits);
         fracpart = (if dotplace \<le> 0 then ''.'' @ replicate (nat (- dotplace)) (CHR ''0'') @ digits
                     else if dotplace \<ge> int (length digits) then ''''
                     else ''.'' @ drop (nat dotplace) digits);
         x = leftdigits - dotplace
     in intpart @ fracpart @
        (if x = 0 then ''''
         else ''E'' @ (if x < 0 then ''-'' else ''+'') @ nat_str (nat \<bar>x\<bar>)))"

section \<open>The value of a decimal\<close>

text \<open>The rational number a decimal denotes, against which the operations are specified.\<close>

fun dval :: "decimal \<Rightarrow> rat" where
  "dval (Dec c e) = of_nat c * 10 powi e"

definition million :: decimal where
  "million = dec_of_nat 1000000"


section \<open>Lemmas\<close>

lemma ndigits_le_iff: "0 < n \<Longrightarrow> ndigits c \<le> n \<longleftrightarrow> c < 10 ^ n"
proof (induction c arbitrary: n rule: ndigits.induct)
  case (1 c)
  show ?case
  proof (cases "c < 10")
    case True
    have "(10::nat) ^ 1 \<le> 10 ^ n" using "1.prems" by (intro power_increasing) simp_all
    with True "1.prems" show ?thesis by (subst ndigits.simps) simp
  next
    case False
    obtain m where n: "n = Suc m" using "1.prems" gr0_implies_Suc by blast
    show ?thesis
    proof (cases "m = 0")
      case True
      have "\<not> ndigits (c div 10) \<le> 0" by (subst ndigits.simps) simp
      with False True n show ?thesis by (subst ndigits.simps) simp
    next
      case mpos: False
      then have "ndigits (c div 10) \<le> m \<longleftrightarrow> c div 10 < 10 ^ m" using "1.IH" False by simp
      also have "\<dots> \<longleftrightarrow> c < 10 ^ n" by (simp add: n div_less_iff_less_mult mult.commute)
      finally show ?thesis using False n by (subst ndigits.simps) simp
    qed
  qed
qed

lemma ndigits_pos: "0 < ndigits c"
  by (subst ndigits.simps) simp

text \<open>A coefficient of at most 28 digits, at an exponent in range, is not rounded.\<close>

lemma dec_fix_exact:
  assumes "c < 10 ^ dec_prec" "dec_etiny \<le> e" "e \<le> dec_etop"
  shows "dec_fix c e = Some (Dec c e)"
proof -
  have "ndigits c \<le> dec_prec" using assms(1) by (simp add: ndigits_le_iff dec_prec_def)
  then have "int (ndigits c) + e - int dec_prec \<le> e" by simp
  with assms(2,3) show ?thesis by (auto simp: dec_fix_def Let_def dec_context)
qed

lemma dec_mul_exact:
  assumes "coeff x * coeff y < 10 ^ dec_prec"
    and "dec_etiny \<le> dexp x + dexp y" "dexp x + dexp y \<le> dec_etop"
  shows "dec_mul x y = Some (Dec (coeff x * coeff y) (dexp x + dexp y))"
  using assms by (cases x; cases y) (simp add: dec_fix_exact)

lemma dval_alt: "dval d = of_nat (coeff d) * 10 powi dexp d"
  by (cases d) simp

lemma powi_split: "m \<le> e \<Longrightarrow> (10::rat) powi e = 10 powi m * 10 ^ nat (e - m)"
proof -
  assume "m \<le> e"
  then have "(10::rat) powi e = 10 powi (m + int (nat (e - m)))" by simp
  also have "\<dots> = 10 powi m * 10 powi int (nat (e - m))" by (rule power_int_add) simp
  finally show ?thesis by (simp only: power_int_of_nat)
qed

lemma dval_align:
  "m \<le> e \<Longrightarrow> dval (Dec c e) = of_nat (c * 10 ^ nat (e - m)) * 10 powi m"
  by (simp add: powi_split [of m e])

text \<open>The comparison of decimals is the comparison of their values.\<close>

lemma dec_le_iff: "dec_le x y \<longleftrightarrow> dval x \<le> dval y"
proof -
  obtain a e b f where xy: "x = Dec a e" "y = Dec b f" by (cases x; cases y) auto
  let ?m = "min e f"
  have "dval x \<le> dval y \<longleftrightarrow>
    (of_nat (a * 10 ^ nat (e - ?m)) :: rat) * 10 powi ?m
      \<le> of_nat (b * 10 ^ nat (f - ?m)) * 10 powi ?m"
    using dval_align [of ?m e a] dval_align [of ?m f b] by (simp only: xy)
  also have "\<dots> \<longleftrightarrow> a * 10 ^ nat (e - ?m) \<le> b * 10 ^ nat (f - ?m)"
  proof -
    have pos: "(0::rat) < 10 powi ?m" by simp
    show ?thesis by (simp only: mult_le_cancel_right_pos [OF pos] of_nat_le_iff)
  qed
  finally show ?thesis by (simp add: xy Let_def)
qed

lemma dec_eq_iff: "dec_eq x y \<longleftrightarrow> dval x = dval y"
  by (auto simp: dec_eq_def dec_le_iff)

lemma dec_lt_iff: "dec_lt x y \<longleftrightarrow> dval x < dval y"
  by (auto simp: dec_lt_def dec_le_iff)

lemma dec_le_refl [simp]: "dec_le x x"
  by (simp add: dec_le_iff)

lemma dec_le_trans: "dec_le x y \<Longrightarrow> dec_le y z \<Longrightarrow> dec_le x z"
  by (simp add: dec_le_iff)

lemma dval_nonneg: "0 \<le> dval x"
  by (cases x) simp

lemma dval_mul:
  "of_nat (coeff x * coeff y) * 10 powi (dexp x + dexp y) = dval x * dval y"
  by (cases x; cases y) (simp add: power_int_add)

lemma strip_zeros_spec:
  "strip_zeros c e i = (c', e') \<Longrightarrow>
    e \<le> e' \<and> c = c' * 10 ^ nat (e' - e) \<and> (e \<le> i \<longrightarrow> e' \<le> i) \<and> (e' < i \<longrightarrow> c' mod 10 \<noteq> 0)"
proof (induction c e i rule: strip_zeros.induct)
  case (1 c e i)
  show ?case
  proof (cases "e < i \<and> c mod 10 = 0")
    case True
    with "1.prems" have "strip_zeros (c div 10) (e + 1) i = (c', e')"
      by (subst (asm) strip_zeros.simps) simp
    with "1.IH" True have IH: "e + 1 \<le> e'" "c div 10 = c' * 10 ^ nat (e' - (e + 1))"
      "e + 1 \<le> i \<longrightarrow> e' \<le> i" "e' < i \<longrightarrow> c' mod 10 \<noteq> 0" by auto
    have "c = (c div 10) * 10" using True by auto
    also have "\<dots> = c' * 10 ^ Suc (nat (e' - (e + 1)))" by (simp add: IH(2))
    also have "Suc (nat (e' - (e + 1))) = nat (e' - e)" using IH(1) by linarith
    finally show ?thesis using IH True by auto
  next
    case False
    with "1.prems" have "c' = c" "e' = e"
      by (subst (asm) strip_zeros.simps, auto)+
    with False show ?thesis by auto
  qed
qed

text \<open>Dividing by a million is exact, and never lengthens the coefficient.\<close>

lemma dec_div_million_exact:
  assumes a: "a < 10 ^ dec_prec" and e: "dec_etiny + 6 \<le> e" "e \<le> dec_etop"
  obtains q x where "dec_div (Dec a e) million = Some (Dec q x)"
    "dval (Dec q x) = dval (Dec a e) / 10 ^ 6" "q \<le> a" "e - 6 \<le> x" "x \<le> e"
proof (cases "a = 0")
  case True
  with e have "dec_div (Dec a e) million = Some (Dec 0 e)"
    by (simp add: million_def dec_of_nat_def dec_fix_def dec_context)
  with True that [of 0 e] show ?thesis by simp
next
  case False
  have nd: "ndigits a \<le> 28" using a by (simp add: ndigits_le_iff dec_prec_def)
  define s where "s = 36 - ndigits a"
  have s: "8 \<le> s" "int s = 36 - int (ndigits a)" using nd by (auto simp: s_def)
  have m: "ndigits 1000000 = 7" by (simp add: ndigits.simps)
  have p: "(10::nat) ^ s = 10 ^ (s - 6) * 1000000"
    using s(1) power_add [of "10::nat" "s - 6" 6] by simp
  have quot: "a * 10 ^ s div 1000000 = a * 10 ^ (s - 6)" "a * 10 ^ s mod 1000000 = 0"
    by (simp_all add: p)
  obtain q x where qx: "strip_zeros (a * 10 ^ (s - 6)) (e - int s) e = (q, x)"
    by (cases "strip_zeros (a * 10 ^ (s - 6)) (e - int s) e")
  note spec = strip_zeros_spec [OF qx]
  have eq: "a * 10 ^ (s - 6) = q * 10 ^ nat (x - (e - int s))" and le: "e - int s \<le> x" "x \<le> e"
    and fin: "x < e \<longrightarrow> q mod 10 \<noteq> 0" using spec by auto
  define k where "k = nat (x - (e - int s))"
  have k: "int k = x - (e - int s)" using le by (simp add: k_def)
  have ks: "s - 6 \<le> k"
  proof (rule ccontr)
    assume "\<not> s - 6 \<le> k"
    then obtain d where d: "s - 6 = k + Suc d" using less_imp_Suc_add by (metis not_le add_Suc_right)
    then have "a * 10 ^ Suc d * 10 ^ k = q * 10 ^ k" using eq by (simp add: k_def power_add mult.assoc mult.commute mult.left_commute)
    then have "q = a * 10 ^ Suc d" by simp
    moreover have "x < e" using d k s by linarith
    ultimately show False using fin by simp
  qed
  then have "a * 10 ^ (s - 6) = q * 10 ^ (k - (s - 6)) * 10 ^ (s - 6)"
    using eq by (simp add: k_def mult.assoc power_add [symmetric])
  then have aq: "a = q * 10 ^ (k - (s - 6))" by simp
  have qa: "q \<le> a" by (subst aq) simp
  have xe: "e - 6 \<le> x" using ks k s by linarith
  have shift: "int (ndigits 1000000) - int (ndigits a) + int dec_prec + 1 = int s"
    using s by (simp add: m dec_prec_def)
  have "dec_div (Dec a e) million = dec_fix q x"
    using False quot qx by (simp add: million_def dec_of_nat_def shift Let_def)
  also have "\<dots> = Some (Dec q x)"
    using qa a xe e le by (intro dec_fix_exact) (auto simp: dec_context)
  finally have div: "dec_div (Dec a e) million = Some (Dec q x)" .
  have kx: "int (k - (s - 6)) = x - (e - 6)" using ks k s by (simp add: of_nat_diff)
  have "dval (Dec a e) = of_nat q * (10 powi (x - (e - 6)) * 10 powi e)"
    by (subst aq) (simp add: kx [symmetric])
  also have "\<dots> = of_nat q * 10 powi (x + 6)"
    by (simp add: power_int_add [symmetric])
  also have "\<dots> = dval (Dec q x) * 10 ^ 6" by (simp add: power_int_add)
  finally have "dval (Dec q x) = dval (Dec a e) / 10 ^ 6" by simp
  with div qa xe le(2) that show ?thesis by blast
qed

lemma dec_add_exact:
  assumes "m = min e f" "dec_etiny \<le> m" "m \<le> dec_etop"
    and "a * 10 ^ nat (e - m) + b * 10 ^ nat (f - m) < 10 ^ dec_prec"
  obtains d where "dec_add (Dec a e) (Dec b f) = Some d" "dval d = dval (Dec a e) + dval (Dec b f)"
proof -
  let ?c = "a * 10 ^ nat (e - m) + b * 10 ^ nat (f - m)"
  have "dec_add (Dec a e) (Dec b f) = Some (Dec ?c m)"
    using assms by (simp add: Let_def dec_fix_exact)
  moreover have "dval (Dec ?c m) = dval (Dec a e) + dval (Dec b f)"
    using dval_align [of m e a] dval_align [of m f b] assms(1)
    by (simp only: dval.simps of_nat_add distrib_right)
  ultimately show ?thesis using that by blast
qed

end
