(* ===== verification/Domain.thy ===== *)
theory Domain
  imports Py_Decimal
begin

text \<open>
  The domain layer (\<open>src/policy_model_router/domain\<close>): the controlled vocabularies of
  \<open>enums.py\<close>, the policy-defined identifiers of \<open>identifiers.py\<close>, the value objects of
  \<open>catalog.py\<close> and \<open>routing.py\<close>. Every token count, limit and latency is validated
  non-negative before it reaches the domain, so it is a \<open>nat\<close>; a validated UTC \<open>datetime\<close>
  is its instant in microseconds, an \<open>int\<close>.
\<close>

section \<open>Controlled vocabularies (\<open>enums.py\<close>)\<close>

datatype data_classification = PUBLIC | INTERNAL | CONFIDENTIAL | RESTRICTED

fun dc_value :: "data_classification \<Rightarrow> string" where
  "dc_value PUBLIC = ''public''"
| "dc_value INTERNAL = ''internal''"
| "dc_value CONFIDENTIAL = ''confidential''"
| "dc_value RESTRICTED = ''restricted''"

datatype risk_level = LOW | MEDIUM | HIGH | CRITICAL

fun risk_value :: "risk_level \<Rightarrow> string" where
  "risk_value LOW = ''low''"
| "risk_value MEDIUM = ''medium''"
| "risk_value HIGH = ''high''"
| "risk_value CRITICAL = ''critical''"

datatype reason_code =
    DATA_CLASSIFICATION_NOT_AUTHORIZED
  | RISK_LEVEL_NOT_AUTHORIZED
  | STRUCTURED_OUTPUT_UNSUPPORTED
  | TOOL_CALLING_UNSUPPORTED
  | CONTEXT_WINDOW_EXCEEDED
  | COST_CEILING_EXCEEDED
  | LATENCY_CEILING_EXCEEDED
  | MODEL_GROUP_UNAVAILABLE
  | AGENT_NOT_ALLOWED
  | WORKLOAD_MAPPED_ELSEWHERE

fun reason_value :: "reason_code \<Rightarrow> string" where
  "reason_value DATA_CLASSIFICATION_NOT_AUTHORIZED = ''data_classification_not_authorized''"
| "reason_value RISK_LEVEL_NOT_AUTHORIZED = ''risk_level_not_authorized''"
| "reason_value STRUCTURED_OUTPUT_UNSUPPORTED = ''structured_output_unsupported''"
| "reason_value TOOL_CALLING_UNSUPPORTED = ''tool_calling_unsupported''"
| "reason_value CONTEXT_WINDOW_EXCEEDED = ''context_window_exceeded''"
| "reason_value COST_CEILING_EXCEEDED = ''cost_ceiling_exceeded''"
| "reason_value LATENCY_CEILING_EXCEEDED = ''latency_ceiling_exceeded''"
| "reason_value MODEL_GROUP_UNAVAILABLE = ''model_group_unavailable''"
| "reason_value AGENT_NOT_ALLOWED = ''agent_not_allowed''"
| "reason_value WORKLOAD_MAPPED_ELSEWHERE = ''workload_mapped_elsewhere''"

text \<open>Parsing a wire value into an enum member: \<open>Enum(value)\<close> raises on an unknown value.\<close>

definition parse_dc :: "string \<Rightarrow> data_classification option" where
  "parse_dc s = find (\<lambda>c. dc_value c = s) [PUBLIC, INTERNAL, CONFIDENTIAL, RESTRICTED]"

definition parse_risk :: "string \<Rightarrow> risk_level option" where
  "parse_risk s = find (\<lambda>r. risk_value r = s) [LOW, MEDIUM, HIGH, CRITICAL]"

lemma parse_dc_value [simp]: "parse_dc (dc_value c) = Some c"
  by (cases c) (simp_all add: parse_dc_def)

lemma parse_risk_value [simp]: "parse_risk (risk_value r) = Some r"
  by (cases r) (simp_all add: parse_risk_def)

lemma dc_value_inject [simp]: "dc_value c = dc_value d \<longleftrightarrow> c = d"
  by (metis option.inject parse_dc_value)

lemma risk_value_inject [simp]: "risk_value r = risk_value s \<longleftrightarrow> r = s"
  by (metis option.inject parse_risk_value)

instantiation data_classification :: linorder
begin

definition less_eq_data_classification :: "data_classification \<Rightarrow> data_classification \<Rightarrow> bool" where
  "less_eq_data_classification c d \<longleftrightarrow> dc_value c \<le> dc_value d"

definition less_data_classification :: "data_classification \<Rightarrow> data_classification \<Rightarrow> bool" where
  "less_data_classification c d \<longleftrightarrow> dc_value c < dc_value d"

instance
  by standard (auto simp: less_eq_data_classification_def less_data_classification_def order_less_le)

end

section \<open>Policy-defined identifiers (\<open>identifiers.py\<close>)\<close>

type_synonym workload_id = string
type_synonym model_group_id = string

datatype id_error = ID_ValueError string

definition id_alnum :: "char \<Rightarrow> bool" where
  "id_alnum c \<longleftrightarrow> is_lower c \<or> is_digit c"

text \<open>\<open>^[a-z0-9](?:[a-z0-9._-]{0,126}[a-z0-9])?$\<close>\<close>

fun policy_identifier_fullmatch :: "string \<Rightarrow> bool" where
  "policy_identifier_fullmatch [] = False"
| "policy_identifier_fullmatch (c # rest) =
    (id_alnum c \<and>
      (rest = [] \<or>
        (length (butlast rest) \<le> 126 \<and> list_all id_char (butlast rest) \<and> id_alnum (last rest))))"

definition legacy_workload_identifiers :: "string list" where
  "legacy_workload_identifiers =
    [''document_extraction'', ''cashflow_analysis'', ''findings_correlation'',
     ''opinion_drafting'', ''json_repair'']"

definition PolicyIdentifier :: "string \<Rightarrow> string \<Rightarrow> (id_error, string) result" where
  "PolicyIdentifier kind value =
    (if \<not> policy_identifier_fullmatch value
     then Inl (ID_ValueError (kind @ '' must be 1-128 lowercase characters using only '' @
       ''letters, digits, '' @ py_repr ''.'' @ '', '' @ py_repr ''_'' @ '' or '' @ py_repr ''-'' @
       '', and must start/end with a letter or digit''))
     else Inr value)"

definition WorkloadId :: "string \<Rightarrow> (id_error, workload_id) result" where
  "WorkloadId value =
    rbind (PolicyIdentifier ''workload identifier'' value) (\<lambda>identifier.
      if CHR ''.'' \<notin> set identifier \<and> identifier \<notin> set legacy_workload_identifiers
      then Inl (ID_ValueError (''new workload identifiers must be namespace-qualified with '' @
        py_repr ''.'' @ '', for example '' @ py_repr ''rag.answer''))
      else Inr identifier)"

definition ModelGroupId :: "string \<Rightarrow> (id_error, model_group_id) result" where
  "ModelGroupId value = PolicyIdentifier ''model-group identifier'' value"

text \<open>The compatibility constants that iterating over the identifier classes yields.\<close>

definition WorkloadId_constants :: "string list" where
  "WorkloadId_constants =
    [''document_extraction'', ''cashflow_analysis'', ''findings_correlation'',
     ''opinion_drafting'', ''json_repair'']"

definition ModelGroupId_constants :: "string list" where
  "ModelGroupId_constants =
    [''fast-small'', ''reasoning-medium'', ''reasoning-strong'', ''fast-structured-output'']"

abbreviation valid_workload :: "string \<Rightarrow> bool" where
  "valid_workload s \<equiv> WorkloadId s = Inr s"

abbreviation valid_model_group :: "string \<Rightarrow> bool" where
  "valid_model_group s \<equiv> ModelGroupId s = Inr s"

section \<open>Declarative policy (\<open>catalog.py\<close>)\<close>

record model_group_profile =
  mp_authorized_data_classifications :: "data_classification set"
  mp_authorized_risk_levels :: "risk_level set"
  mp_supports_structured_output :: bool
  mp_supports_tool_calling :: bool
  mp_max_context_tokens :: nat
  mp_typical_latency_ms :: nat
  mp_input_cost_usd_per_million_tokens :: decimal
  mp_output_cost_usd_per_million_tokens :: decimal
  mp_available :: bool
  mp_allowed_agents :: "string set"
  mp_staged :: bool

datatype arith_error = Decimal_Overflow

definition estimated_cost ::
  "model_group_profile \<Rightarrow> nat \<Rightarrow> nat \<Rightarrow> (arith_error, decimal) result" where
  "estimated_cost self input_tokens output_tokens =
    rbind (some_or (dec_mul (dec_of_nat input_tokens) (mp_input_cost_usd_per_million_tokens self))
             Decimal_Overflow) (\<lambda>a.
    rbind (some_or (dec_div a million) Decimal_Overflow) (\<lambda>a'.
    rbind (some_or (dec_mul (dec_of_nat output_tokens) (mp_output_cost_usd_per_million_tokens self))
             Decimal_Overflow) (\<lambda>b.
    rbind (some_or (dec_div b million) Decimal_Overflow) (\<lambda>b'.
    some_or (dec_add a' b') Decimal_Overflow))))"

record workload_rule =
  wr_model_group :: model_group_id
  wr_requires_tool_calling :: bool

record routing_policy =
  rp_schema_version :: string
  rp_policy_id :: string
  rp_policy_version :: string
  rp_policy_digest :: string
  rp_model_groups :: "(model_group_id, model_group_profile) dict"
  rp_workloads :: "(workload_id, workload_rule) dict"

section \<open>Requests and decisions (\<open>routing.py\<close>)\<close>

record route_request =
  rr_schema_version :: string
  rr_requested_at :: int
  rr_workflow_id :: string
  rr_task_id :: string
  rr_agent_name :: string
  rr_workload :: workload_id
  rr_risk_level :: risk_level
  rr_data_classification :: data_classification
  rr_context_tokens_estimated :: nat
  rr_max_output_tokens_estimated :: nat
  rr_structured_output_required :: bool
  rr_max_latency_ms :: nat
  rr_max_cost_usd :: decimal

record rejected_candidate =
  rc_model_group :: model_group_id
  rc_reason :: string
  rc_reason_code :: reason_code
  rc_observed_value :: string
  rc_required_value :: string

record route_decision =
  rd_schema_version :: string
  rd_routing_decision_id :: string
  rd_decided_at :: int
  rd_workflow_id :: string
  rd_task_id :: string
  rd_selected_model_group :: model_group_id
  rd_reason :: string
  rd_rejected_candidates :: "rejected_candidate list"
  rd_policy_id :: string
  rd_policy_version :: string
  rd_policy_digest :: string
  rd_service_version :: string
  rd_environment :: string

record rejected_decision =
  xd_schema_version :: string
  xd_routing_decision_id :: string
  xd_decided_at :: int
  xd_workflow_id :: string
  xd_task_id :: string
  xd_workload :: workload_id
  xd_rejected_model_group :: model_group_id
  xd_reason :: string
  xd_reason_code :: reason_code
  xd_observed_value :: string
  xd_required_value :: string
  xd_policy_id :: string
  xd_policy_version :: string
  xd_policy_digest :: string
  xd_service_version :: string
  xd_environment :: string

definition NoViableModelGroupError_message :: "rejected_decision \<Rightarrow> string" where
  "NoViableModelGroupError_message decision =
    ''no viable model group for workload '' @ py_repr (xd_workload decision) @ '': mapped group '' @
    py_repr (xd_rejected_model_group decision) @ '' rejected ('' @ xd_reason decision @ '')''"

section \<open>Lemmas on identifiers\<close>

lemma id_alnum_id_char: "id_alnum c \<Longrightarrow> id_char c"
  by (auto simp: id_alnum_def id_char_def id_chars_def is_lower_def is_digit_def)

lemma id_char_iff: "id_char c \<longleftrightarrow> id_alnum c \<or> c \<in> set ''._-''"
proof
  assume "id_char c"
  then show "id_alnum c \<or> c \<in> set ''._-''"
    by (rule id_chars_all [where P = "\<lambda>c. id_alnum c \<or> c \<in> set ''._-''", rotated]) code_simp
next
  assume "id_alnum c \<or> c \<in> set ''._-''"
  then show "id_char c"
    by (auto simp: id_alnum_id_char) (simp_all add: id_char_def id_chars_def)
qed

text \<open>The identifier pattern, stated without the split into head, middle and last character.\<close>

lemma policy_identifier_iff:
  "policy_identifier_fullmatch s \<longleftrightarrow>
    1 \<le> length s \<and> length s \<le> 128 \<and> list_all id_char s \<and> id_alnum (hd s) \<and> id_alnum (last s)"
proof (cases s)
  case Nil
  then show ?thesis by simp
next
  case (Cons c rest)
  show ?thesis
  proof (cases rest rule: rev_cases)
    case Nil
    with Cons show ?thesis by (auto simp: id_alnum_id_char)
  next
    case (snoc mid d)
    with Cons show ?thesis by (auto simp: id_alnum_id_char)
  qed
qed

lemma PolicyIdentifier_Inr_iff:
  "PolicyIdentifier kind s = Inr t \<longleftrightarrow> t = s \<and> policy_identifier_fullmatch s"
  by (auto simp: PolicyIdentifier_def)

lemma ModelGroupId_Inr_iff: "ModelGroupId s = Inr t \<longleftrightarrow> t = s \<and> policy_identifier_fullmatch s"
  by (simp add: ModelGroupId_def PolicyIdentifier_Inr_iff)

lemma WorkloadId_Inr_iff:
  "WorkloadId s = Inr t \<longleftrightarrow> t = s \<and> policy_identifier_fullmatch s \<and>
    (CHR ''.'' \<in> set s \<or> s \<in> set legacy_workload_identifiers)"
  by (auto simp: WorkloadId_def rbind_Inr_iff PolicyIdentifier_Inr_iff)

lemma policy_identifier_chars: "policy_identifier_fullmatch s \<Longrightarrow> list_all id_char s"
  by (simp add: policy_identifier_iff)

lemma policy_identifier_nonempty: "policy_identifier_fullmatch s \<Longrightarrow> s \<noteq> []"
  by auto

lemma policy_identifier_length: "policy_identifier_fullmatch s \<Longrightarrow> length s \<le> 128"
  by (simp add: policy_identifier_iff)

section \<open>The estimated cost is exact\<close>

text \<open>
  A price the policy can state in practice: at most eight decimal places, below \<open>10 ^ 12\<close>
  units of the last place.
\<close>

definition price_ok :: "decimal \<Rightarrow> bool" where
  "price_ok d \<longleftrightarrow> coeff d < 10 ^ 12 \<and> -8 \<le> dexp d \<and> dexp d \<le> 0"

definition exact_cost :: "model_group_profile \<Rightarrow> nat \<Rightarrow> nat \<Rightarrow> rat" where
  "exact_cost p i out =
    (of_nat i * dval (mp_input_cost_usd_per_million_tokens p)
      + of_nat out * dval (mp_output_cost_usd_per_million_tokens p)) / 10 ^ 6"

lemma priced_tokens_exact:
  assumes n: "n \<le> 10 ^ 7" and r: "price_ok r"
  obtains p q where "dec_mul (dec_of_nat n) r = Some p" "dec_div p million = Some q"
    "dval q = of_nat n * dval r / 10 ^ 6" "coeff q < 10 ^ 20" "-14 \<le> dexp q" "dexp q \<le> 0"
proof -
  obtain c e where re: "r = Dec c e" by (cases r)
  from r re have ce: "c < 10 ^ 12" "-8 \<le> e" "e \<le> 0" by (auto simp: price_ok_def)
  have small: "n * c < 10 ^ 20"
  proof -
    have "n * c \<le> 10 ^ 7 * 10 ^ 12" using n ce(1) by (intro mult_le_mono) simp_all
    also have "\<dots> < (10::nat) ^ 20" by simp
    finally show ?thesis .
  qed
  have mul: "dec_mul (dec_of_nat n) r = Some (Dec (n * c) e)"
    using small ce re by (simp add: dec_of_nat_def dec_fix_exact dec_context)
  have nc: "n * c < 10 ^ dec_prec" using small by (simp add: dec_prec_def)
  obtain q x where qx: "dec_div (Dec (n * c) e) million = Some (Dec q x)"
    "dval (Dec q x) = dval (Dec (n * c) e) / 10 ^ 6" "q \<le> n * c" "e - 6 \<le> x" "x \<le> e"
    using dec_div_million_exact [OF nc, of e] ce by (auto simp: dec_context)
  show ?thesis
  proof (rule that [OF mul qx(1)])
    show "dval (Dec q x) = of_nat n * dval r / 10 ^ 6" using qx(2) by (simp add: re)
    show "coeff (Dec q x) < 10 ^ 20" "-14 \<le> dexp (Dec q x)" "dexp (Dec q x) \<le> 0"
      using qx ce small by auto
  qed
qed

lemma dval_le_scaled:
  assumes "dval (Dec q x) \<le> 10 ^ k" "m \<le> x" "m \<le> 0"
  shows "q * 10 ^ nat (x - m) \<le> 10 ^ (k + nat (- m))"
proof -
  have pos: "(0::rat) < 10 powi m" by simp
  have "(10::rat) ^ k = 10 ^ (k + nat (- m)) * 10 powi m"
    using powi_split [of m 0] assms(3) by (simp add: power_add mult.commute)
  with assms(1) have "(of_nat (q * 10 ^ nat (x - m)) :: rat) * 10 powi m
      \<le> of_nat (10 ^ (k + nat (- m))) * 10 powi m"
    by (simp only: dval_align [OF assms(2), of q] of_nat_power of_nat_numeral)
  then show ?thesis by (simp only: mult_le_cancel_right_pos [OF pos] of_nat_le_iff)
qed

lemma price_le: "price_ok r \<Longrightarrow> dval r \<le> 10 ^ 12"
proof -
  assume "price_ok r"
  then obtain c e where re: "r = Dec c e" "c < 10 ^ 12" "e \<le> 0"
    by (cases r) (auto simp: price_ok_def)
  have "(of_nat c :: rat) \<le> 10 ^ 12"
  proof -
    have "(of_nat c :: rat) \<le> of_nat (10 ^ 12)" using re(2) by (subst of_nat_le_iff) simp
    then show ?thesis by simp
  qed
  moreover have "(10::rat) powi e \<le> 1" using re(3) power_int_increasing [of e 0 "10::rat"] by simp
  ultimately have "of_nat c * 10 powi e \<le> (10::rat) ^ 12 * 1" by (intro mult_mono) simp_all
  then show ?thesis by (simp add: re)
qed

lemma priced_value_le:
  assumes "n \<le> 10 ^ 7" "price_ok r"
  shows "of_nat n * dval r / 10 ^ 6 \<le> 10 ^ 13"
proof -
  have "(of_nat n :: rat) \<le> of_nat (10 ^ 7)" using assms(1) by (subst of_nat_le_iff) simp
  then have "of_nat n * dval r \<le> 10 ^ 7 * 10 ^ 12"
    using price_le [OF assms(2)] dval_nonneg [of r] by (intro mult_mono) simp_all
  then show ?thesis by simp
qed

text \<open>
  Within the wire's token bounds and for such prices, none of the five decimal operations
  rounds and none overflows.
\<close>

lemma estimated_cost_exact_aux:
  assumes "price_ok (mp_input_cost_usd_per_million_tokens p)"
    and "price_ok (mp_output_cost_usd_per_million_tokens p)"
    and "i \<le> 10 ^ 7" "out \<le> 10 ^ 7"
  shows "\<exists>d. estimated_cost p i out = Inr d \<and> dval d = exact_cost p i out"
proof -
  let ?rin = "mp_input_cost_usd_per_million_tokens p"
  let ?rout = "mp_output_cost_usd_per_million_tokens p"
  obtain a a' where a: "dec_mul (dec_of_nat i) ?rin = Some a" "dec_div a million = Some a'"
    "dval a' = of_nat i * dval ?rin / 10 ^ 6" "coeff a' < 10 ^ 20" "-14 \<le> dexp a'" "dexp a' \<le> 0"
    using priced_tokens_exact [OF assms(3,1)] by blast
  obtain b b' where b: "dec_mul (dec_of_nat out) ?rout = Some b" "dec_div b million = Some b'"
    "dval b' = of_nat out * dval ?rout / 10 ^ 6" "coeff b' < 10 ^ 20" "-14 \<le> dexp b'" "dexp b' \<le> 0"
    using priced_tokens_exact [OF assms(4,2)] by blast
  obtain q x r y where ab: "a' = Dec q x" "b' = Dec r y" by (cases a'; cases b') auto
  define m where "m = min x y"
  have m: "-14 \<le> m" "m \<le> 0" "m \<le> x" "m \<le> y" using a b ab by (auto simp: m_def)
  have "q * 10 ^ nat (x - m) \<le> 10 ^ (13 + nat (- m))"
    using dval_le_scaled [OF _ m(3) m(2), of q 13] priced_value_le [OF assms(3,1)] a(3) ab by simp
  moreover have "r * 10 ^ nat (y - m) \<le> 10 ^ (13 + nat (- m))"
    using dval_le_scaled [OF _ m(4) m(2), of r 13] priced_value_le [OF assms(4,2)] b(3) ab by simp
  moreover have "(10::nat) ^ (13 + nat (- m)) \<le> 10 ^ 27"
    using m(1) by (intro power_increasing) simp_all
  ultimately have "q * 10 ^ nat (x - m) + r * 10 ^ nat (y - m) \<le> 2 * 10 ^ 27" by linarith
  then have "q * 10 ^ nat (x - m) + r * 10 ^ nat (y - m) < 10 ^ dec_prec"
    by (simp add: dec_prec_def)
  then obtain d where "dec_add (Dec q x) (Dec r y) = Some d"
    "dval d = dval (Dec q x) + dval (Dec r y)"
    using dec_add_exact [OF m_def] m by (auto simp: dec_context)
  then show ?thesis
    using a b ab by (auto simp: estimated_cost_def exact_cost_def add_divide_distrib)
qed

end
