(* ===== verification/Constraints.thy ===== *)
theory Constraints
  imports Domain
begin

text \<open>
  The nine eliminatory constraints of \<open>domain/constraints.py\<close>, each a function of the request,
  one candidate's effective profile and the workload rule, and the ordered tuple
  \<open>CONSTRAINTS\<close>. Only the cost constraint can raise (\<open>decimal.Overflow\<close>). The loop that
  stops at a candidate's first failure, of \<open>application/route_model.py\<close>, is \<open>first_failure\<close>;
  the lemmas characterise it by the declarative predicate \<open>violates\<close>.
\<close>

record constraint_failure =
  cf_code :: reason_code
  cf_message :: string
  cf_observed_value :: string
  cf_required_value :: string

type_synonym check_result = "(arith_error, constraint_failure option) result"
type_synonym constr =
  "route_request \<Rightarrow> model_group_profile \<Rightarrow> workload_rule \<Rightarrow> check_result"

definition check_data_classification :: constr where
  "check_data_classification request profile rule =
    (if rr_data_classification request \<in> mp_authorized_data_classifications profile then Inr None
     else
       (let authorized = str_join '', ''
              (sorted_list_of_set (dc_value ` mp_authorized_data_classifications profile))
        in Inr (Some
          \<lparr>cf_code = DATA_CLASSIFICATION_NOT_AUTHORIZED,
           cf_message = ''not authorized for data classification '' @
             py_repr (dc_value (rr_data_classification request)),
           cf_observed_value = dc_value (rr_data_classification request),
           cf_required_value = authorized\<rparr>)))"

definition check_risk_level :: constr where
  "check_risk_level request profile rule =
    (if rr_risk_level request \<in> mp_authorized_risk_levels profile then Inr None
     else
       (let authorized = str_join '', ''
              (sorted_list_of_set (risk_value ` mp_authorized_risk_levels profile))
        in Inr (Some
          \<lparr>cf_code = RISK_LEVEL_NOT_AUTHORIZED,
           cf_message = ''not authorized for risk level '' @
             py_repr (risk_value (rr_risk_level request)),
           cf_observed_value = risk_value (rr_risk_level request),
           cf_required_value = authorized\<rparr>)))"

definition check_structured_output :: constr where
  "check_structured_output request profile rule =
    (if \<not> rr_structured_output_required request \<or> mp_supports_structured_output profile
     then Inr None
     else Inr (Some
       \<lparr>cf_code = STRUCTURED_OUTPUT_UNSUPPORTED,
        cf_message = ''structured output required but not supported by this group'',
        cf_observed_value = ''not supported'',
        cf_required_value = ''supported''\<rparr>))"

definition check_tool_calling :: constr where
  "check_tool_calling request profile rule =
    (if \<not> wr_requires_tool_calling rule \<or> mp_supports_tool_calling profile then Inr None
     else Inr (Some
       \<lparr>cf_code = TOOL_CALLING_UNSUPPORTED,
        cf_message = ''workload requires tool calling but this group does not support it'',
        cf_observed_value = ''not supported'',
        cf_required_value = ''supported''\<rparr>))"

definition check_context_window :: constr where
  "check_context_window request profile rule =
    (let total_tokens =
           rr_context_tokens_estimated request + rr_max_output_tokens_estimated request
     in if total_tokens \<le> mp_max_context_tokens profile then Inr None
        else Inr (Some
          \<lparr>cf_code = CONTEXT_WINDOW_EXCEEDED,
           cf_message = ''estimated input+output '' @ nat_str total_tokens @ '' tokens (input '' @
             nat_str (rr_context_tokens_estimated request) @ '' + output '' @
             nat_str (rr_max_output_tokens_estimated request) @ '') '' @
             ''exceeds group limit of '' @ nat_str (mp_max_context_tokens profile) @ '' tokens'',
           cf_observed_value = nat_str total_tokens,
           cf_required_value = ''<= '' @ nat_str (mp_max_context_tokens profile)\<rparr>))"

definition check_max_cost :: constr where
  "check_max_cost request profile rule =
    rbind (estimated_cost profile (rr_context_tokens_estimated request)
             (rr_max_output_tokens_estimated request)) (\<lambda>cost.
      if dec_le cost (rr_max_cost_usd request) then Inr None
      else Inr (Some
        \<lparr>cf_code = COST_CEILING_EXCEEDED,
         cf_message = ''estimated cost '' @ dec_str cost @ '' usd exceeds '' @
           ''request ceiling of '' @ dec_str (rr_max_cost_usd request) @ '' usd'',
         cf_observed_value = dec_str cost @ '' usd'',
         cf_required_value = ''<= '' @ dec_str (rr_max_cost_usd request) @ '' usd''\<rparr>))"

definition check_max_latency :: constr where
  "check_max_latency request profile rule =
    (if mp_typical_latency_ms profile \<le> rr_max_latency_ms request then Inr None
     else Inr (Some
       \<lparr>cf_code = LATENCY_CEILING_EXCEEDED,
        cf_message = ''typical latency '' @ nat_str (mp_typical_latency_ms profile) @
          ''ms exceeds '' @ ''request ceiling of '' @ nat_str (rr_max_latency_ms request) @ ''ms'',
        cf_observed_value = nat_str (mp_typical_latency_ms profile) @ ''ms'',
        cf_required_value = ''<= '' @ nat_str (rr_max_latency_ms request) @ ''ms''\<rparr>))"

definition check_availability :: constr where
  "check_availability request profile rule =
    (if mp_available profile then Inr None
     else Inr (Some
       \<lparr>cf_code = MODEL_GROUP_UNAVAILABLE,
        cf_message = ''model group is marked unavailable in the routing policy'',
        cf_observed_value = ''unavailable'',
        cf_required_value = ''available''\<rparr>))"

definition check_agent_allowlist :: constr where
  "check_agent_allowlist request profile rule =
    (if mp_allowed_agents profile = {} \<or> rr_agent_name request \<in> mp_allowed_agents profile
     then Inr None
     else Inr (Some
       \<lparr>cf_code = AGENT_NOT_ALLOWED,
        cf_message = ''agent '' @ py_repr (rr_agent_name request) @
          '' is not in this group'' @ [CHR 0x27] @ ''s allowlist'',
        cf_observed_value = rr_agent_name request,
        cf_required_value = ''an agent in this group'' @ [CHR 0x27] @ ''s allowlist''\<rparr>))"

definition CONSTRAINTS :: "constr list" where
  "CONSTRAINTS =
    [check_data_classification, check_risk_level, check_structured_output, check_tool_calling,
     check_context_window, check_max_cost, check_max_latency, check_availability,
     check_agent_allowlist]"

text \<open>\<open>for constraint in CONSTRAINTS: ... break\<close>: the first failure of one candidate.\<close>

fun first_failure ::
  "constr list \<Rightarrow> route_request \<Rightarrow> model_group_profile \<Rightarrow> workload_rule \<Rightarrow> check_result" where
  "first_failure [] request profile rule = Inr None"
| "first_failure (c # cs) request profile rule =
    rbind (c request profile rule) (\<lambda>failure.
      case failure of
        Some f \<Rightarrow> Inr (Some f)
      | None \<Rightarrow> first_failure cs request profile rule)"

section \<open>What each constraint means\<close>

text \<open>
  The declarative reading of the table of constraints: the request and the profile stand in the
  forbidden relation the code names. The cost is the exact rational cost.
\<close>

fun violates ::
  "reason_code \<Rightarrow> route_request \<Rightarrow> model_group_profile \<Rightarrow> workload_rule \<Rightarrow> bool" where
  "violates DATA_CLASSIFICATION_NOT_AUTHORIZED r p w \<longleftrightarrow>
    rr_data_classification r \<notin> mp_authorized_data_classifications p"
| "violates RISK_LEVEL_NOT_AUTHORIZED r p w \<longleftrightarrow> rr_risk_level r \<notin> mp_authorized_risk_levels p"
| "violates STRUCTURED_OUTPUT_UNSUPPORTED r p w \<longleftrightarrow>
    rr_structured_output_required r \<and> \<not> mp_supports_structured_output p"
| "violates TOOL_CALLING_UNSUPPORTED r p w \<longleftrightarrow>
    wr_requires_tool_calling w \<and> \<not> mp_supports_tool_calling p"
| "violates CONTEXT_WINDOW_EXCEEDED r p w \<longleftrightarrow>
    mp_max_context_tokens p < rr_context_tokens_estimated r + rr_max_output_tokens_estimated r"
| "violates COST_CEILING_EXCEEDED r p w \<longleftrightarrow>
    dval (rr_max_cost_usd r)
      < exact_cost p (rr_context_tokens_estimated r) (rr_max_output_tokens_estimated r)"
| "violates LATENCY_CEILING_EXCEEDED r p w \<longleftrightarrow> rr_max_latency_ms r < mp_typical_latency_ms p"
| "violates MODEL_GROUP_UNAVAILABLE r p w \<longleftrightarrow> \<not> mp_available p"
| "violates AGENT_NOT_ALLOWED r p w \<longleftrightarrow>
    mp_allowed_agents p \<noteq> {} \<and> rr_agent_name r \<notin> mp_allowed_agents p"
| "violates WORKLOAD_MAPPED_ELSEWHERE r p w \<longleftrightarrow> False"

definition constraint_order :: "reason_code list" where
  "constraint_order =
    [DATA_CLASSIFICATION_NOT_AUTHORIZED, RISK_LEVEL_NOT_AUTHORIZED,
     STRUCTURED_OUTPUT_UNSUPPORTED, TOOL_CALLING_UNSUPPORTED, CONTEXT_WINDOW_EXCEEDED,
     COST_CEILING_EXCEEDED, LATENCY_CEILING_EXCEEDED, MODEL_GROUP_UNAVAILABLE, AGENT_NOT_ALLOWED]"

text \<open>Prices and token counts for which the cost arithmetic is exact.\<close>

definition priced :: "model_group_profile \<Rightarrow> bool" where
  "priced p \<longleftrightarrow> price_ok (mp_input_cost_usd_per_million_tokens p)
    \<and> price_ok (mp_output_cost_usd_per_million_tokens p)"

definition token_bounds :: "route_request \<Rightarrow> bool" where
  "token_bounds r \<longleftrightarrow> rr_context_tokens_estimated r \<le> 10 ^ 7
    \<and> rr_max_output_tokens_estimated r \<le> 10 ^ 7"

lemma priced_cost:
  assumes "priced p" "token_bounds r"
  obtains d where
    "estimated_cost p (rr_context_tokens_estimated r) (rr_max_output_tokens_estimated r) = Inr d"
    "dval d = exact_cost p (rr_context_tokens_estimated r) (rr_max_output_tokens_estimated r)"
  using estimated_cost_exact_aux [of p "rr_context_tokens_estimated r"
      "rr_max_output_tokens_estimated r"] assms that
  by (auto simp: priced_def token_bounds_def)

text \<open>
  \<open>decides c code\<close>: on a priced profile the check \<open>c\<close> returns normally, and it returns a
  failure, carrying \<open>code\<close>, exactly when the request violates \<open>code\<close>.
\<close>

definition decides :: "constr \<Rightarrow> reason_code \<Rightarrow> bool" where
  "decides c code \<longleftrightarrow> (\<forall>r p w. priced p \<longrightarrow> token_bounds r \<longrightarrow>
    (if violates code r p w then \<exists>f. c r p w = Inr (Some f) \<and> cf_code f = code
     else c r p w = Inr None))"

lemmas check_defs =
  check_data_classification_def check_risk_level_def check_structured_output_def
  check_tool_calling_def check_context_window_def check_max_cost_def check_max_latency_def
  check_availability_def check_agent_allowlist_def

lemma decides_max_cost: "decides check_max_cost COST_CEILING_EXCEEDED"
  unfolding decides_def
proof (intro allI impI)
  fix r p w assume "priced p" "token_bounds r"
  then obtain d where
    "estimated_cost p (rr_context_tokens_estimated r) (rr_max_output_tokens_estimated r) = Inr d"
    "dval d = exact_cost p (rr_context_tokens_estimated r) (rr_max_output_tokens_estimated r)"
    by (rule priced_cost)
  then show "if violates COST_CEILING_EXCEEDED r p w
      then \<exists>f. check_max_cost r p w = Inr (Some f) \<and> cf_code f = COST_CEILING_EXCEEDED
      else check_max_cost r p w = Inr None"
    by (auto simp: check_max_cost_def dec_le_iff)
qed

lemma decides_all: "list_all2 decides CONSTRAINTS constraint_order"
  unfolding CONSTRAINTS_def constraint_order_def
  by (simp add: decides_max_cost) (auto simp: decides_def check_defs Let_def)

lemma first_failure_decides:
  assumes "list_all2 decides cs codes" "priced p" "token_bounds r"
  shows "case find (\<lambda>code. violates code r p w) codes of
      None \<Rightarrow> first_failure cs r p w = Inr None
    | Some code \<Rightarrow> \<exists>f. first_failure cs r p w = Inr (Some f) \<and> cf_code f = code"
  using assms(1)
proof (induction rule: list_all2_induct)
  case Nil
  then show ?case by simp
next
  case (Cons c cs code codes)
  from Cons.hyps(1) assms(2,3) have "if violates code r p w
      then \<exists>f. c r p w = Inr (Some f) \<and> cf_code f = code else c r p w = Inr None"
    by (auto simp: decides_def)
  with Cons.IH show ?case by (auto split: if_splits option.splits)
qed

lemma first_failure_total:
  assumes "priced p" "token_bounds r"
  shows "\<exists>x. first_failure CONSTRAINTS r p w = Inr x"
  using first_failure_decides [OF decides_all assms, of w] by (auto split: option.splits)

lemma first_failure_code:
  assumes "priced p" "token_bounds r"
  shows "first_failure CONSTRAINTS r p w = Inr (Some f) \<Longrightarrow>
    find (\<lambda>code. violates code r p w) constraint_order = Some (cf_code f)"
  using first_failure_decides [OF decides_all assms, of w] by (auto split: option.splits)

lemma first_failure_None_iff:
  assumes "priced p" "token_bounds r"
  shows "first_failure CONSTRAINTS r p w = Inr None \<longleftrightarrow> (\<forall>code. \<not> violates code r p w)"
proof -
  have "find (\<lambda>code. violates code r p w) constraint_order = None \<longleftrightarrow>
      (\<forall>code. \<not> violates code r p w)"
  proof -
    have "code \<in> set constraint_order \<or> code = WORKLOAD_MAPPED_ELSEWHERE" for code
      by (cases code) (simp_all add: constraint_order_def)
    then show ?thesis by (metis find_None_iff violates.simps(10))
  qed
  with first_failure_decides [OF decides_all assms, of w] show ?thesis
    by (auto split: option.splits)
qed

text \<open>Without any assumption on prices: a candidate that survives meets each non-cost constraint.\<close>

lemma first_failure_None_all:
  "first_failure cs r p w = Inr None \<longleftrightarrow> (\<forall>c \<in> set cs. c r p w = Inr None)"
  by (induction cs) (auto simp: rbind_Inr_iff split: option.splits)

lemma survivor_meets:
  assumes "first_failure CONSTRAINTS r p w = Inr None" "code \<noteq> COST_CEILING_EXCEEDED"
  shows "\<not> violates code r p w"
proof -
  from assms(1) have "\<forall>c \<in> set CONSTRAINTS. c r p w = Inr None"
    by (simp add: first_failure_None_all)
  with assms(2) show ?thesis
    by (cases code) (auto simp: CONSTRAINTS_def check_defs Let_def split: if_splits)
qed

lemma survivor_cost:
  assumes "first_failure CONSTRAINTS r p w = Inr None"
  obtains d where
    "estimated_cost p (rr_context_tokens_estimated r) (rr_max_output_tokens_estimated r) = Inr d"
    "dec_le d (rr_max_cost_usd r)"
proof -
  from assms have "\<forall>c \<in> set CONSTRAINTS. c r p w = Inr None"
    by (simp only: first_failure_None_all)
  then have "check_max_cost r p w = Inr None" by (simp add: CONSTRAINTS_def)
  then show ?thesis using that by (auto simp: check_max_cost_def rbind_Inr_iff split: if_splits)
qed

end
