(* ===== verification/Route_Model.thy ===== *)
theory Route_Model
  imports Constraints
begin

text \<open>
  The routing use case of \<open>application/route_model.py\<close>, with the availability port of
  \<open>application/ports.py\<close> and its shipped implementation \<open>adapters/availability.py\<close>.

  The use case holds its policy and the deployment identity. \<open>route\<close> takes what its three
  ports return: the availability function \<open>resolve\<close>, the identifier \<open>new_id\<close> and the time
  \<open>now\<close>; both are read once, when the outcome is built. \<open>KeyError\<close> is the exception of
  indexing \<open>model_groups\<close> by a group the policy does not declare, \<open>DecimalOverflow\<close> the one
  of the cost arithmetic.
\<close>

type_synonym availability_fn = "(model_group_id, bool) dict \<Rightarrow> (model_group_id, bool) dict"

definition StaticAvailabilityProvider_resolve :: availability_fn where
  "StaticAvailabilityProvider_resolve declared = declared"

record route_use_case =
  uc_policy :: routing_policy
  uc_service_version :: string
  uc_environment :: string

datatype route_error =
    NoViableModelGroupError rejected_decision
  | IncompleteRoutingPolicyError string
  | KeyError model_group_id
  | DecimalOverflow

definition policy_digest :: "route_use_case \<Rightarrow> string" where
  "policy_digest self = rp_policy_digest (uc_policy self)"

definition declares_workload :: "route_use_case \<Rightarrow> workload_id \<Rightarrow> bool" where
  "declares_workload self workload = dict_has (rp_workloads (uc_policy self)) workload"

definition effective_profile ::
  "(model_group_id, bool) dict \<Rightarrow> model_group_id \<Rightarrow> model_group_profile \<Rightarrow> model_group_profile" where
  "effective_profile effective_availability model_group profile =
    profile\<lparr>mp_available :=
      (case dict_get effective_availability model_group of None \<Rightarrow> False | Some b \<Rightarrow> b)\<rparr>"

fun rejection_reasons ::
  "route_request \<Rightarrow> workload_rule \<Rightarrow> (model_group_id, bool) dict
    \<Rightarrow> (model_group_id, model_group_profile) dict \<Rightarrow> (model_group_id, constraint_failure) dict
    \<Rightarrow> (route_error, (model_group_id, constraint_failure) dict) result" where
  "rejection_reasons request rule eff [] acc = Inr acc"
| "rejection_reasons request rule eff ((model_group, profile) # candidates) acc =
    (case first_failure CONSTRAINTS request (effective_profile eff model_group profile) rule of
       Inl Decimal_Overflow \<Rightarrow> Inl DecimalOverflow
     | Inr None \<Rightarrow> rejection_reasons request rule eff candidates acc
     | Inr (Some failure) \<Rightarrow>
         rejection_reasons request rule eff candidates (dict_set model_group failure acc))"

definition to_rejected_candidate ::
  "route_request \<Rightarrow> model_group_id \<Rightarrow> (model_group_id, constraint_failure) dict
    \<Rightarrow> model_group_id \<Rightarrow> rejected_candidate" where
  "to_rejected_candidate request selected reasons model_group =
    (case dict_get reasons model_group of
       Some failure \<Rightarrow>
         \<lparr>rc_model_group = model_group,
          rc_reason = cf_message failure,
          rc_reason_code = cf_code failure,
          rc_observed_value = cf_observed_value failure,
          rc_required_value = cf_required_value failure\<rparr>
     | None \<Rightarrow>
         \<lparr>rc_model_group = model_group,
          rc_reason = ''workload '' @ py_repr (rr_workload request) @ '' is mapped to '' @
            py_repr selected @ '', not this group'',
          rc_reason_code = WORKLOAD_MAPPED_ELSEWHERE,
          rc_observed_value = rr_workload request,
          rc_required_value = selected\<rparr>)"

definition rejected_decision_of ::
  "route_use_case \<Rightarrow> route_request \<Rightarrow> model_group_id \<Rightarrow> constraint_failure \<Rightarrow> string \<Rightarrow> int
    \<Rightarrow> rejected_decision" where
  "rejected_decision_of self request selected failure new_id now =
    \<lparr>xd_schema_version = rr_schema_version request,
     xd_routing_decision_id = new_id,
     xd_decided_at = now,
     xd_workflow_id = rr_workflow_id request,
     xd_task_id = rr_task_id request,
     xd_workload = rr_workload request,
     xd_rejected_model_group = selected,
     xd_reason = cf_message failure,
     xd_reason_code = cf_code failure,
     xd_observed_value = cf_observed_value failure,
     xd_required_value = cf_required_value failure,
     xd_policy_id = rp_policy_id (uc_policy self),
     xd_policy_version = rp_policy_version (uc_policy self),
     xd_policy_digest = rp_policy_digest (uc_policy self),
     xd_service_version = uc_service_version self,
     xd_environment = uc_environment self\<rparr>"

definition route_decision_of ::
  "route_use_case \<Rightarrow> route_request \<Rightarrow> model_group_id \<Rightarrow> rejected_candidate list \<Rightarrow> string \<Rightarrow> int
    \<Rightarrow> route_decision" where
  "route_decision_of self request selected rejected_candidates new_id now =
    \<lparr>rd_schema_version = rr_schema_version request,
     rd_routing_decision_id = new_id,
     rd_decided_at = now,
     rd_workflow_id = rr_workflow_id request,
     rd_task_id = rr_task_id request,
     rd_selected_model_group = selected,
     rd_reason = ''workload '' @ py_repr (rr_workload request) @ '' maps to model group '' @
       py_repr selected @ '' and satisfies all constraints'',
     rd_rejected_candidates = rejected_candidates,
     rd_policy_id = rp_policy_id (uc_policy self),
     rd_policy_version = rp_policy_version (uc_policy self),
     rd_policy_digest = rp_policy_digest (uc_policy self),
     rd_service_version = uc_service_version self,
     rd_environment = uc_environment self\<rparr>"

definition candidates_of ::
  "route_use_case \<Rightarrow> bool \<Rightarrow> model_group_id
    \<Rightarrow> (route_error, (model_group_id, model_group_profile) dict) result" where
  "candidates_of self include selected =
    (if include then Inr (rp_model_groups (uc_policy self))
     else rbind (some_or (dict_get (rp_model_groups (uc_policy self)) selected) (KeyError selected))
            (\<lambda>profile. Inr [(selected, profile)]))"

definition declared_availability ::
  "(model_group_id, model_group_profile) dict \<Rightarrow> (model_group_id, bool) dict" where
  "declared_availability candidates = map (\<lambda>(g, p). (g, mp_available p)) candidates"

definition route ::
  "route_use_case \<Rightarrow> availability_fn \<Rightarrow> string \<Rightarrow> int \<Rightarrow> route_request \<Rightarrow> bool
    \<Rightarrow> (route_error, route_decision) result" where
  "route self resolve new_id now request include =
    rbind (some_or (dict_get (rp_workloads (uc_policy self)) (rr_workload request))
             (IncompleteRoutingPolicyError
               (''routing policy has no mapping for workload '' @ py_repr (rr_workload request))))
      (\<lambda>workload_rule.
    let selected = wr_model_group workload_rule in
    rbind (candidates_of self include selected) (\<lambda>candidates.
    let effective_availability = resolve (declared_availability candidates) in
    rbind (rejection_reasons request workload_rule effective_availability candidates [])
      (\<lambda>reasons.
    case dict_get reasons selected of
      Some failure \<Rightarrow>
        Inl (NoViableModelGroupError
          (rejected_decision_of self request selected failure new_id now))
    | None \<Rightarrow>
        (let rejected_candidates =
               (if include
                then map (to_rejected_candidate request selected reasons)
                       (filter (\<lambda>g. g \<noteq> selected)
                         (sort (dict_keys (rp_model_groups (uc_policy self)))))
                else [])
         in Inr (route_decision_of self request selected rejected_candidates new_id now)))))"

section \<open>Collecting the rejections\<close>

lemma rejection_reasons_get:
  assumes "rejection_reasons request rule eff candidates acc = Inr reasons" "wf_dict candidates"
  shows "dict_get reasons g =
    (case dict_get candidates g of
       None \<Rightarrow> dict_get acc g
     | Some p \<Rightarrow>
         (case first_failure CONSTRAINTS request (effective_profile eff g p) rule of
            Inr (Some f) \<Rightarrow> Some f
          | _ \<Rightarrow> dict_get acc g))"
  using assms
proof (induction request rule eff candidates acc rule: rejection_reasons.induct)
  case (1 request rule eff acc)
  then show ?case by simp
next
  case (2 request rule eff h p candidates acc)
  have notin: "dict_get candidates h = None"
    using "2.prems"(2) by (simp add: map_of_eq_None_iff)
  from "2.prems" "2.IH" notin show ?case
    by (auto simp: dict_get_set split: sum.splits option.splits arith_error.splits if_splits)
qed

lemma rejection_reasons_get_empty:
  assumes "rejection_reasons request rule eff candidates [] = Inr reasons" "wf_dict candidates"
  shows "dict_get reasons g = Some f \<longleftrightarrow>
    (\<exists>p. dict_get candidates g = Some p \<and>
      first_failure CONSTRAINTS request (effective_profile eff g p) rule = Inr (Some f))"
  using rejection_reasons_get [OF assms, of g] by (auto split: option.splits sum.splits)

lemma rejection_reasons_total_iff:
  "(\<exists>reasons. rejection_reasons request rule eff candidates acc = Inr reasons) \<longleftrightarrow>
    (\<forall>(g, p) \<in> set candidates.
      \<exists>x. first_failure CONSTRAINTS request (effective_profile eff g p) rule = Inr x)"
  by (induction request rule eff candidates acc rule: rejection_reasons.induct)
    (auto split: sum.splits option.splits arith_error.splits)

lemma rejection_reasons_no_other_error:
  "rejection_reasons request rule eff candidates acc = Inl e \<Longrightarrow> e = DecimalOverflow"
  by (induction request rule eff candidates acc rule: rejection_reasons.induct)
    (auto split: sum.splits option.splits arith_error.splits)

lemma effective_profile_simps [simp]:
  "mp_authorized_data_classifications (effective_profile eff g p) =
     mp_authorized_data_classifications p"
  "mp_authorized_risk_levels (effective_profile eff g p) = mp_authorized_risk_levels p"
  "mp_supports_structured_output (effective_profile eff g p) = mp_supports_structured_output p"
  "mp_supports_tool_calling (effective_profile eff g p) = mp_supports_tool_calling p"
  "mp_max_context_tokens (effective_profile eff g p) = mp_max_context_tokens p"
  "mp_typical_latency_ms (effective_profile eff g p) = mp_typical_latency_ms p"
  "mp_allowed_agents (effective_profile eff g p) = mp_allowed_agents p"
  "mp_available (effective_profile eff g p) \<longleftrightarrow> dict_get eff g = Some True"
  "priced (effective_profile eff g p) = priced p"
  "estimated_cost (effective_profile eff g p) = estimated_cost p"
  "exact_cost (effective_profile eff g p) = exact_cost p"
  by (auto simp: effective_profile_def priced_def estimated_cost_def exact_cost_def fun_eq_iff
      split: option.splits)

section \<open>The shape of an outcome\<close>

text \<open>The policy names a declared group for every workload, as the loader guarantees.\<close>

definition policy_closed :: "routing_policy \<Rightarrow> bool" where
  "policy_closed p \<longleftrightarrow> wf_dict (rp_model_groups p) \<and> wf_dict (rp_workloads p) \<and>
    (\<forall>rule \<in> snd ` set (rp_workloads p). dict_has (rp_model_groups p) (wr_model_group rule))"

definition policy_priced :: "routing_policy \<Rightarrow> bool" where
  "policy_priced p \<longleftrightarrow> (\<forall>profile \<in> snd ` set (rp_model_groups p). priced profile)"

lemma policy_closed_group:
  "policy_closed p \<Longrightarrow> dict_get (rp_workloads p) w = Some rule \<Longrightarrow>
    \<exists>profile. dict_get (rp_model_groups p) (wr_model_group rule) = Some profile"
  by (force simp: policy_closed_def dict_has_def dest: map_of_SomeD)

lemma policy_priced_get:
  "policy_priced p \<Longrightarrow> dict_get (rp_model_groups p) g = Some profile \<Longrightarrow> priced profile"
  by (force simp: policy_priced_def dest: map_of_SomeD)

text \<open>The effective profile of the mapped group, as this call resolves it.\<close>

definition mapped_effective ::
  "route_use_case \<Rightarrow> availability_fn \<Rightarrow> bool \<Rightarrow> model_group_id \<Rightarrow> model_group_profile
    \<Rightarrow> model_group_profile" where
  "mapped_effective self resolve include g p =
    effective_profile (resolve (declared_availability
      (if include then rp_model_groups (uc_policy self) else [(g, p)]))) g p"

lemma candidates_of_get:
  assumes "candidates_of self include g = Inr candidates" "wf_dict (rp_model_groups (uc_policy self))"
  shows "wf_dict candidates"
    "dict_get candidates g = dict_get (rp_model_groups (uc_policy self)) g"
    "dict_get (rp_model_groups (uc_policy self)) g = Some p \<Longrightarrow>
      candidates = (if include then rp_model_groups (uc_policy self) else [(g, p)])"
  using assms by (auto simp: candidates_of_def rbind_Inr_iff some_or_Inr_iff split: if_splits)

lemma route_Inr_cases:
  assumes "route self resolve new_id now request include = Inr d"
    and "policy_closed (uc_policy self)"
  obtains rule p where
    "dict_get (rp_workloads (uc_policy self)) (rr_workload request) = Some rule"
    "dict_get (rp_model_groups (uc_policy self)) (wr_model_group rule) = Some p"
    "rd_selected_model_group d = wr_model_group rule"
    "first_failure CONSTRAINTS request
      (mapped_effective self resolve include (wr_model_group rule) p) rule = Inr None"
proof -
  from assms(1) obtain rule candidates reasons where
    rule: "dict_get (rp_workloads (uc_policy self)) (rr_workload request) = Some rule" and
    cand: "candidates_of self include (wr_model_group rule) = Inr candidates" and
    reasons: "rejection_reasons request rule (resolve (declared_availability candidates))
      candidates [] = Inr reasons" and
    none: "dict_get reasons (wr_model_group rule) = None" and
    sel: "rd_selected_model_group d = wr_model_group rule"
    by (auto simp: route_def rbind_Inr_iff some_or_Inr_iff Let_def route_decision_of_def
        split: option.splits)
  from policy_closed_group [OF assms(2) rule] obtain p where
    p: "dict_get (rp_model_groups (uc_policy self)) (wr_model_group rule) = Some p" by blast
  have wf: "wf_dict (rp_model_groups (uc_policy self))" using assms(2) by (simp add: policy_closed_def)
  note c = candidates_of_get [OF cand wf]
  have "(wr_model_group rule, p) \<in> set candidates" using c(2) p by (simp add: map_of_SomeD)
  with reasons have "\<exists>x. first_failure CONSTRAINTS request
      (effective_profile (resolve (declared_availability candidates)) (wr_model_group rule) p) rule
      = Inr x"
    using rejection_reasons_total_iff by fast
  then have "first_failure CONSTRAINTS request
      (effective_profile (resolve (declared_availability candidates)) (wr_model_group rule) p) rule
      = Inr None"
    using rejection_reasons_get [OF reasons c(1), of "wr_model_group rule"] c(2) p none
    by (auto split: option.splits)
  with that [OF rule p sel] c(3) [OF p] show ?thesis by (simp add: mapped_effective_def)
qed

lemma route_no_viable_cases:
  assumes "route self resolve new_id now request include = Inl (NoViableModelGroupError x)"
    and "policy_closed (uc_policy self)"
  obtains rule p f where
    "dict_get (rp_workloads (uc_policy self)) (rr_workload request) = Some rule"
    "dict_get (rp_model_groups (uc_policy self)) (wr_model_group rule) = Some p"
    "first_failure CONSTRAINTS request
      (mapped_effective self resolve include (wr_model_group rule) p) rule = Inr (Some f)"
    "x = rejected_decision_of self request (wr_model_group rule) f new_id now"
proof -
  from assms(1) obtain rule candidates reasons f where
    rule: "dict_get (rp_workloads (uc_policy self)) (rr_workload request) = Some rule" and
    cand: "candidates_of self include (wr_model_group rule) = Inr candidates" and
    reasons: "rejection_reasons request rule (resolve (declared_availability candidates))
      candidates [] = Inr reasons" and
    f: "dict_get reasons (wr_model_group rule) = Some f" and
    x: "x = rejected_decision_of self request (wr_model_group rule) f new_id now"
    by (auto simp: route_def rbind_Inl_iff some_or_Inl_iff some_or_Inr_iff Let_def candidates_of_def
        split: option.splits if_splits dest: rejection_reasons_no_other_error)
  from policy_closed_group [OF assms(2) rule] obtain p where
    p: "dict_get (rp_model_groups (uc_policy self)) (wr_model_group rule) = Some p" by blast
  have wf: "wf_dict (rp_model_groups (uc_policy self))" using assms(2) by (simp add: policy_closed_def)
  note c = candidates_of_get [OF cand wf]
  have "first_failure CONSTRAINTS request
      (effective_profile (resolve (declared_availability candidates)) (wr_model_group rule) p) rule
      = Inr (Some f)"
    using rejection_reasons_get_empty [OF reasons c(1)] f c(2) p by auto
  with that [OF rule p _ x] c(3) [OF p] show ?thesis by (simp add: mapped_effective_def)
qed

text \<open>
  Under the loader's guarantees, with priced groups and bounded token counts, the outcome is a
  function of the first failure of the mapped group alone.
\<close>

definition explain ::
  "route_use_case \<Rightarrow> availability_fn \<Rightarrow> route_request \<Rightarrow> workload_rule \<Rightarrow> model_group_id
    \<Rightarrow> rejected_candidate" where
  "explain self resolve request rule g =
    to_rejected_candidate request (wr_model_group rule)
      (case dict_get (rp_model_groups (uc_policy self)) g of
         None \<Rightarrow> []
       | Some p \<Rightarrow>
           (case first_failure CONSTRAINTS request (mapped_effective self resolve True g p) rule of
              Inr (Some f) \<Rightarrow> [(g, f)]
            | _ \<Rightarrow> [])) g"

definition explanations ::
  "route_use_case \<Rightarrow> availability_fn \<Rightarrow> route_request \<Rightarrow> workload_rule \<Rightarrow> rejected_candidate list" where
  "explanations self resolve request rule =
    map (explain self resolve request rule)
      (filter (\<lambda>g. g \<noteq> wr_model_group rule) (sort (dict_keys (rp_model_groups (uc_policy self)))))"

lemma rejection_reasons_returns:
  assumes "policy_closed (uc_policy self)" "policy_priced (uc_policy self)" "token_bounds request"
    and "candidates_of self include g = Inr candidates"
  shows "\<exists>reasons. rejection_reasons request rule eff candidates [] = Inr reasons"
proof -
  have "set candidates \<subseteq> set (rp_model_groups (uc_policy self))"
    using assms(4) by (auto simp: candidates_of_def rbind_Inr_iff some_or_Inr_iff map_of_SomeD
        split: if_splits)
  with assms(2) have "\<forall>(h, p) \<in> set candidates. priced (effective_profile eff h p)"
    by (force simp: policy_priced_def)
  with assms(3) show ?thesis
    by (auto simp: rejection_reasons_total_iff intro!: first_failure_total)
qed

lemma to_rejected_candidate_cong:
  "dict_get m g = dict_get m' g \<Longrightarrow>
    to_rejected_candidate request selected m g = to_rejected_candidate request selected m' g"
  by (simp add: to_rejected_candidate_def)

lemma route_eq:
  assumes closed: "policy_closed (uc_policy self)" and priced: "policy_priced (uc_policy self)"
    and bounds: "token_bounds request"
    and rule: "dict_get (rp_workloads (uc_policy self)) (rr_workload request) = Some rule"
    and p: "dict_get (rp_model_groups (uc_policy self)) (wr_model_group rule) = Some p"
  shows "route self resolve new_id now request include =
    (case first_failure CONSTRAINTS request
        (mapped_effective self resolve include (wr_model_group rule) p) rule of
      Inr (Some f) \<Rightarrow> Inl (NoViableModelGroupError
        (rejected_decision_of self request (wr_model_group rule) f new_id now))
    | _ \<Rightarrow> Inr (route_decision_of self request (wr_model_group rule)
        (if include then explanations self resolve request rule else []) new_id now))"
proof -
  let ?g = "wr_model_group rule"
  let ?groups = "rp_model_groups (uc_policy self)"
  have wf: "wf_dict ?groups" using closed by (simp add: policy_closed_def)
  define candidates where "candidates = (if include then ?groups else [(?g, p)])"
  define eff where "eff = resolve (declared_availability candidates)"
  have cand: "candidates_of self include ?g = Inr candidates"
    using p by (simp add: candidates_of_def candidates_def)
  obtain reasons where reasons: "rejection_reasons request rule eff candidates [] = Inr reasons"
    using rejection_reasons_returns [OF closed priced bounds cand] by blast
  note get = rejection_reasons_get [OF reasons candidates_of_get(1) [OF cand wf]]
  have eff: "effective_profile eff ?g p = mapped_effective self resolve include ?g p"
    by (simp add: mapped_effective_def eff_def candidates_def)
  have cp: "dict_get candidates ?g = Some p" using candidates_of_get(2) [OF cand wf] p by simp
  have expl: "map (to_rejected_candidate request ?g reasons) (filter (\<lambda>g. g \<noteq> ?g) (sort (dict_keys ?groups)))
      = explanations self resolve request rule" if "include"
    unfolding explanations_def
  proof (rule map_cong [OF refl])
    fix h assume "h \<in> set (filter (\<lambda>g. g \<noteq> ?g) (sort (dict_keys ?groups)))"
    with that show "to_rejected_candidate request ?g reasons h = explain self resolve request rule h"
      unfolding explain_def
      by (intro to_rejected_candidate_cong)
        (auto simp: get candidates_def eff_def mapped_effective_def split: option.splits sum.splits)
  qed
  show ?thesis
    using get [of ?g] expl rule cand reasons
    by (auto simp: route_def cp eff eff_def [symmetric] Let_def split: option.splits sum.splits)
qed

section \<open>The availability port\<close>

text \<open>
  What the use case relies on when it resolves one candidate instead of the catalog: a
  provider's answer for a group depends on what was declared for that group only.
\<close>

locale availability_provider =
  fixes resolve :: availability_fn
  assumes pointwise: "dict_get d g = dict_get d' g \<Longrightarrow> dict_get (resolve d) g = dict_get (resolve d') g"
begin

lemma mapped_effective_include:
  "dict_get (rp_model_groups (uc_policy self)) g = Some p \<Longrightarrow>
    mapped_effective self resolve True g p = mapped_effective self resolve False g p"
proof -
  assume p: "dict_get (rp_model_groups (uc_policy self)) g = Some p"
  have "dict_get (declared_availability d) h = map_option mp_available (dict_get d h)" for d h
    unfolding declared_availability_def by (induction d) auto
  with p have "dict_get (resolve (declared_availability (rp_model_groups (uc_policy self)))) g
      = dict_get (resolve (declared_availability [(g, p)])) g"
    by (intro pointwise) simp
  then show ?thesis by (simp add: mapped_effective_def effective_profile_def)
qed

lemma route_include:
  assumes "policy_closed (uc_policy self)" "policy_priced (uc_policy self)" "token_bounds request"
  shows "route self resolve new_id now request False =
    (case route self resolve new_id now request True of
       Inl e \<Rightarrow> Inl e | Inr d \<Rightarrow> Inr (d\<lparr>rd_rejected_candidates := []\<rparr>))"
proof (cases "dict_get (rp_workloads (uc_policy self)) (rr_workload request)")
  case None
  then show ?thesis by (simp add: route_def)
next
  case (Some rule)
  from policy_closed_group [OF assms(1) Some] obtain p where
    p: "dict_get (rp_model_groups (uc_policy self)) (wr_model_group rule) = Some p" by blast
  show ?thesis
    unfolding route_eq [OF assms Some p] mapped_effective_include [OF p]
    by (auto simp: route_decision_of_def split: sum.splits option.splits)
qed

end

interpretation static_availability: availability_provider StaticAvailabilityProvider_resolve
  by unfold_locales (simp add: StaticAvailabilityProvider_resolve_def)

lemma mapped_effective_static:
  "dict_get (rp_model_groups (uc_policy self)) g = Some p \<Longrightarrow>
    mapped_effective self StaticAvailabilityProvider_resolve include g p = p"
proof -
  assume p: "dict_get (rp_model_groups (uc_policy self)) g = Some p"
  have "dict_get (declared_availability d) h = map_option mp_available (dict_get d h)" for d h
    unfolding declared_availability_def by (induction d) auto
  with p show ?thesis
    by (auto simp: mapped_effective_def effective_profile_def StaticAvailabilityProvider_resolve_def)
qed

section \<open>Relaxing a request\<close>

definition relaxes :: "route_request \<Rightarrow> route_request \<Rightarrow> bool" where
  "relaxes r r' \<longleftrightarrow>
    rr_workload r' = rr_workload r \<and> rr_agent_name r' = rr_agent_name r \<and>
    rr_risk_level r' = rr_risk_level r \<and> rr_data_classification r' = rr_data_classification r \<and>
    rr_context_tokens_estimated r' \<le> rr_context_tokens_estimated r \<and>
    rr_max_output_tokens_estimated r' \<le> rr_max_output_tokens_estimated r \<and>
    (rr_structured_output_required r' \<longrightarrow> rr_structured_output_required r) \<and>
    rr_max_latency_ms r \<le> rr_max_latency_ms r' \<and>
    dval (rr_max_cost_usd r) \<le> dval (rr_max_cost_usd r')"

lemma exact_cost_mono: "i \<le> i' \<Longrightarrow> out \<le> out' \<Longrightarrow> exact_cost p i out \<le> exact_cost p i' out'"
  by (auto simp: exact_cost_def dval_nonneg intro!: divide_right_mono add_mono mult_right_mono)

lemma relaxes_violates: "relaxes r r' \<Longrightarrow> violates code r' p w \<Longrightarrow> violates code r p w"
proof (cases code)
  case COST_CEILING_EXCEEDED
  assume "relaxes r r'" "violates code r' p w"
  moreover from \<open>relaxes r r'\<close> have "exact_cost p (rr_context_tokens_estimated r') (rr_max_output_tokens_estimated r')
      \<le> exact_cost p (rr_context_tokens_estimated r) (rr_max_output_tokens_estimated r)"
    by (intro exact_cost_mono) (simp_all add: relaxes_def)
  ultimately show ?thesis using COST_CEILING_EXCEEDED by (simp add: relaxes_def)
qed (auto simp: relaxes_def)

lemma relaxes_bounds: "relaxes r r' \<Longrightarrow> token_bounds r \<Longrightarrow> token_bounds r'"
  by (auto simp: relaxes_def token_bounds_def)

end
