(* ===== verification/Routing_Properties.thy ===== *)
theory Routing_Properties
  imports Route_Model
begin

text \<open>
  The routing properties, over the use case of \<open>Route_Model\<close> and the static availability
  provider the service ships, with the policy of \<open>config/routing_policy.yaml\<close> and the request
  of the README as the concrete instance of the witnesses.
\<close>

section \<open>The shipped policy\<close>

definition all_classes :: "data_classification set" where
  "all_classes = {PUBLIC, INTERNAL, CONFIDENTIAL, RESTRICTED}"

definition fast_small :: model_group_profile where
  "fast_small =
    \<lparr>mp_authorized_data_classifications = {PUBLIC, INTERNAL},
     mp_authorized_risk_levels = {LOW, MEDIUM},
     mp_supports_structured_output = False, mp_supports_tool_calling = True,
     mp_max_context_tokens = 16000, mp_typical_latency_ms = 3000,
     mp_input_cost_usd_per_million_tokens = Dec 10 (-2),
     mp_output_cost_usd_per_million_tokens = Dec 40 (-2),
     mp_available = True, mp_allowed_agents = {}, mp_staged = False\<rparr>"

definition reasoning_medium :: model_group_profile where
  "reasoning_medium =
    \<lparr>mp_authorized_data_classifications = all_classes,
     mp_authorized_risk_levels = {LOW, MEDIUM, HIGH},
     mp_supports_structured_output = False, mp_supports_tool_calling = True,
     mp_max_context_tokens = 64000, mp_typical_latency_ms = 15000,
     mp_input_cost_usd_per_million_tokens = Dec 50 (-2),
     mp_output_cost_usd_per_million_tokens = Dec 150 (-2),
     mp_available = True, mp_allowed_agents = {}, mp_staged = False\<rparr>"

definition reasoning_strong :: model_group_profile where
  "reasoning_strong =
    \<lparr>mp_authorized_data_classifications = all_classes,
     mp_authorized_risk_levels = {LOW, MEDIUM, HIGH, CRITICAL},
     mp_supports_structured_output = False, mp_supports_tool_calling = True,
     mp_max_context_tokens = 128000, mp_typical_latency_ms = 30000,
     mp_input_cost_usd_per_million_tokens = Dec 200 (-2),
     mp_output_cost_usd_per_million_tokens = Dec 800 (-2),
     mp_available = True, mp_allowed_agents = {}, mp_staged = False\<rparr>"

definition fast_structured_output :: model_group_profile where
  "fast_structured_output =
    \<lparr>mp_authorized_data_classifications = {PUBLIC, INTERNAL},
     mp_authorized_risk_levels = {LOW, MEDIUM},
     mp_supports_structured_output = True, mp_supports_tool_calling = False,
     mp_max_context_tokens = 8000, mp_typical_latency_ms = 2000,
     mp_input_cost_usd_per_million_tokens = Dec 10 (-2),
     mp_output_cost_usd_per_million_tokens = Dec 40 (-2),
     mp_available = True, mp_allowed_agents = {}, mp_staged = False\<rparr>"

definition simple_rule :: "model_group_id \<Rightarrow> workload_rule" where
  "simple_rule g = \<lparr>wr_model_group = g, wr_requires_tool_calling = False\<rparr>"

definition shipped_policy :: routing_policy where
  "shipped_policy =
    \<lparr>rp_schema_version = ''1.0'', rp_policy_id = ''credit-desk-routing'',
     rp_policy_version = ''1.0.0'', rp_policy_digest = ''sha256:'',
     rp_model_groups =
       [(''fast-small'', fast_small), (''reasoning-medium'', reasoning_medium),
        (''reasoning-strong'', reasoning_strong),
        (''fast-structured-output'', fast_structured_output)],
     rp_workloads =
       [(''document_extraction'', simple_rule ''fast-small''),
        (''cashflow_analysis'', simple_rule ''reasoning-medium''),
        (''findings_correlation'', simple_rule ''reasoning-strong''),
        (''opinion_drafting'', simple_rule ''reasoning-strong''),
        (''json_repair'', simple_rule ''fast-structured-output'')]\<rparr>"

definition shipped_use_case :: route_use_case where
  "shipped_use_case =
    \<lparr>uc_policy = shipped_policy, uc_service_version = ''0.5.0'', uc_environment = ''production''\<rparr>"

definition readme_request :: route_request where
  "readme_request =
    \<lparr>rr_schema_version = ''1.0'', rr_requested_at = 1784721600000000,
     rr_workflow_id = ''credit-review-42'', rr_task_id = ''correlate-findings-7'',
     rr_agent_name = ''credit-analysis-agent'', rr_workload = ''findings_correlation'',
     rr_risk_level = HIGH, rr_data_classification = RESTRICTED,
     rr_context_tokens_estimated = 100000, rr_max_output_tokens_estimated = 2000,
     rr_structured_output_required = False, rr_max_latency_ms = 60000,
     rr_max_cost_usd = Dec 100 (-2)\<rparr>"

lemmas shipped_defs =
  shipped_policy_def shipped_use_case_def readme_request_def simple_rule_def fast_small_def
  reasoning_medium_def reasoning_strong_def fast_structured_output_def all_classes_def

lemma shipped_closed: "policy_closed (uc_policy shipped_use_case)"
  by (simp add: policy_closed_def dict_has_def shipped_defs)

lemma shipped_priced: "policy_priced (uc_policy shipped_use_case)"
  by (simp add: policy_priced_def priced_def price_ok_def shipped_defs)

lemma readme_bounds: "token_bounds readme_request"
  by (simp add: token_bounds_def readme_request_def)

lemma shipped_findings:
  "dict_get (rp_workloads (uc_policy shipped_use_case)) ''findings_correlation''
     = Some (simple_rule ''reasoning-strong'')"
  "dict_get (rp_model_groups (uc_policy shipped_use_case)) ''reasoning-strong''
     = Some reasoning_strong"
  by (simp_all add: shipped_use_case_def shipped_policy_def)

lemma readme_violates_none: "\<not> violates code readme_request reasoning_strong (simple_rule g)"
  by (cases code) (simp_all add: shipped_defs exact_cost_def power_int_minus)

section \<open>Properties\<close>



text \<open>
  C2. Hard authorization, with no assumption on prices or on the availability provider: whenever
  \<open>route\<close> selects a group, it is the group the workload maps to, it is cleared for the request's
  data classification and risk tier, the provider reports it available, and the estimated cost
  the service computed is within the caller's ceiling.
\<close>

theorem route_selects_authorized:
  assumes "policy_closed (uc_policy self)"
    and "route self resolve new_id now request include = Inr d"
  shows "\<exists>rule p cost.
    dict_get (rp_workloads (uc_policy self)) (rr_workload request) = Some rule \<and>
    dict_get (rp_model_groups (uc_policy self)) (wr_model_group rule) = Some p \<and>
    rd_selected_model_group d = wr_model_group rule \<and>
    rr_data_classification request \<in> mp_authorized_data_classifications p \<and>
    rr_risk_level request \<in> mp_authorized_risk_levels p \<and>
    rr_context_tokens_estimated request + rr_max_output_tokens_estimated request
      \<le> mp_max_context_tokens p \<and>
    dict_get (resolve (declared_availability
      (if include then rp_model_groups (uc_policy self) else [(wr_model_group rule, p)])))
      (wr_model_group rule) = Some True \<and>
    (mp_allowed_agents p = {} \<or> rr_agent_name request \<in> mp_allowed_agents p) \<and>
    estimated_cost p (rr_context_tokens_estimated request) (rr_max_output_tokens_estimated request)
      = Inr cost \<and> dec_le cost (rr_max_cost_usd request)"
proof -
  from route_Inr_cases [OF assms(2,1)] obtain rule p where
    l: "dict_get (rp_workloads (uc_policy self)) (rr_workload request) = Some rule"
      "dict_get (rp_model_groups (uc_policy self)) (wr_model_group rule) = Some p"
      "rd_selected_model_group d = wr_model_group rule" and
    ff: "first_failure CONSTRAINTS request
      (mapped_effective self resolve include (wr_model_group rule) p) rule = Inr None" .
  note meets = survivor_meets [OF ff]
  obtain cost where "estimated_cost p (rr_context_tokens_estimated request)
      (rr_max_output_tokens_estimated request) = Inr cost" "dec_le cost (rr_max_cost_usd request)"
    using survivor_cost [OF ff] by (auto simp: mapped_effective_def)
  with l meets [of DATA_CLASSIFICATION_NOT_AUTHORIZED] meets [of RISK_LEVEL_NOT_AUTHORIZED]
    meets [of CONTEXT_WINDOW_EXCEEDED] meets [of MODEL_GROUP_UNAVAILABLE] meets [of AGENT_NOT_ALLOWED]
  show ?thesis by (auto simp: mapped_effective_def not_less)
qed

lemma readme_routes:
  "\<exists>d. route shipped_use_case StaticAvailabilityProvider_resolve ''id'' 0 readme_request include = Inr d"
proof -
  have rule: "dict_get (rp_workloads (uc_policy shipped_use_case)) (rr_workload readme_request)
      = Some (simple_rule ''reasoning-strong'')"
    using shipped_findings(1) by (simp add: readme_request_def)
  have p: "dict_get (rp_model_groups (uc_policy shipped_use_case))
      (wr_model_group (simple_rule ''reasoning-strong'')) = Some reasoning_strong"
    using shipped_findings(2) by (simp add: simple_rule_def)
  have "priced reasoning_strong" using shipped_priced p by (rule policy_priced_get)
  then have "first_failure CONSTRAINTS readme_request reasoning_strong (simple_rule ''reasoning-strong'')
      = Inr None"
    by (simp add: first_failure_None_iff readme_bounds readme_violates_none)
  then show ?thesis
    unfolding route_eq [OF shipped_closed shipped_priced readme_bounds rule p]
      mapped_effective_static [OF p] by simp
qed

theorem route_selects_authorized_witness:
  "\<exists>d p. route shipped_use_case StaticAvailabilityProvider_resolve ''id'' 0 readme_request True = Inr d
    \<and> dict_get (rp_model_groups shipped_policy) (rd_selected_model_group d) = Some p
    \<and> RESTRICTED \<in> mp_authorized_data_classifications p"
proof -
  obtain d where d: "route shipped_use_case StaticAvailabilityProvider_resolve ''id'' 0 readme_request True
      = Inr d" using readme_routes by blast
  from route_selects_authorized [OF shipped_closed d] show ?thesis
    using d by (auto simp: readme_request_def shipped_use_case_def)
qed

text \<open>
  Declining the explanation never changes the decision: with the shipped availability
  provider, \<open>include_rejected_candidates=False\<close> gives the same error, or the same decision with
  an empty list of rejected candidates.
\<close>

theorem route_include_irrelevant:
  assumes "policy_closed (uc_policy self)" "policy_priced (uc_policy self)" "token_bounds request"
  shows "route self StaticAvailabilityProvider_resolve new_id now request False =
    (case route self StaticAvailabilityProvider_resolve new_id now request True of
       Inl e \<Rightarrow> Inl e | Inr d \<Rightarrow> Inr (d\<lparr>rd_rejected_candidates := []\<rparr>))"
  using assms by (rule static_availability.route_include)

theorem route_include_irrelevant_witness:
  "route shipped_use_case StaticAvailabilityProvider_resolve ''id'' 0 readme_request False =
    (case route shipped_use_case StaticAvailabilityProvider_resolve ''id'' 0 readme_request True of
       Inl e \<Rightarrow> Inl e | Inr d \<Rightarrow> Inr (d\<lparr>rd_rejected_candidates := []\<rparr>))"
  by (rule route_include_irrelevant [OF shipped_closed shipped_priced readme_bounds])


lemma sorted_shipped_names:
  "sort [''fast-small'', ''reasoning-medium'', ''reasoning-strong'', ''fast-structured-output'']
    = [''fast-small'', ''fast-structured-output'', ''reasoning-medium'', ''reasoning-strong'']"
  by simp


text \<open>
  A partial availability answer fails closed: when the provider does not report the mapped
  group as available, whether it omits it or answers \<open>False\<close>, the request is never routed.
\<close>

theorem route_unavailable_never_selected:
  assumes "policy_closed (uc_policy self)"
    and "dict_get (rp_workloads (uc_policy self)) (rr_workload request) = Some rule"
    and "\<And>d. dict_get (resolve d) (wr_model_group rule) \<noteq> Some True"
  shows "route self resolve new_id now request include \<noteq> Inr d"
proof
  assume "route self resolve new_id now request include = Inr d"
  from route_Inr_cases [OF this assms(1)] obtain p where
    "first_failure CONSTRAINTS request
      (mapped_effective self resolve include (wr_model_group rule) p) rule = Inr None"
    using assms(2) by auto
  from survivor_meets [OF this, of MODEL_GROUP_UNAVAILABLE] assms(3) show False
    by (simp add: mapped_effective_def)
qed

theorem route_unavailable_never_selected_witness:
  "\<forall>d. route shipped_use_case (\<lambda>_. []) ''id'' 0 readme_request True \<noteq> Inr d"
proof
  fix d
  have rule: "dict_get (rp_workloads (uc_policy shipped_use_case)) (rr_workload readme_request)
      = Some (simple_rule ''reasoning-strong'')"
    using shipped_findings(1) by (simp add: readme_request_def)
  show "route shipped_use_case (\<lambda>_. []) ''id'' 0 readme_request True \<noteq> Inr d"
    by (rule route_unavailable_never_selected [OF shipped_closed rule]) simp
qed

definition carries_provenance ::
  "route_use_case \<Rightarrow> route_request \<Rightarrow> string \<Rightarrow> int \<Rightarrow> string list \<Rightarrow> int \<Rightarrow> bool" where
  "carries_provenance self request new_id now prov decided_at \<longleftrightarrow>
    decided_at = now \<and>
    prov = [new_id, rr_workflow_id request, rr_task_id request, rp_policy_id (uc_policy self),
      rp_policy_version (uc_policy self), rp_policy_digest (uc_policy self),
      uc_service_version self, uc_environment self]"

text \<open>
  Every outcome of the decision is auditable: an acceptance and a hard rejection carry the
  same provenance (policy id, version and digest, service version, environment) and the request's
  own workflow and task, the fresh decision id and the decision time.
\<close>

theorem route_provenance:
  "case route self resolve new_id now request include of
     Inr d \<Rightarrow> carries_provenance self request new_id now
       [rd_routing_decision_id d, rd_workflow_id d, rd_task_id d, rd_policy_id d, rd_policy_version d,
        rd_policy_digest d, rd_service_version d, rd_environment d] (rd_decided_at d)
   | Inl (NoViableModelGroupError x) \<Rightarrow> carries_provenance self request new_id now
       [xd_routing_decision_id x, xd_workflow_id x, xd_task_id x, xd_policy_id x, xd_policy_version x,
        xd_policy_digest x, xd_service_version x, xd_environment x] (xd_decided_at x)
   | Inl _ \<Rightarrow> True"
proof (cases "route self resolve new_id now request include")
  case (Inr d)
  then show ?thesis
    by (auto simp: route_def rbind_Inr_iff some_or_Inr_iff Let_def route_decision_of_def
        carries_provenance_def split: option.splits)
next
  case (Inl e)
  show ?thesis
  proof (cases e)
    case (NoViableModelGroupError x)
    with Inl show ?thesis
      by (auto simp: route_def rbind_Inl_iff some_or_Inl_iff some_or_Inr_iff Let_def
          candidates_of_def rejected_decision_of_def carries_provenance_def
          split: option.splits if_splits dest: rejection_reasons_no_other_error)
  qed (simp_all add: Inl)
qed

text \<open>
  Routing never fails internally on a loaded policy: for priced groups and bounded token
  counts, the only errors are the fail-closed denials, an undeclared workload or a hard
  rejection; no lookup raises \<open>KeyError\<close> and no cost overflows. The undeclared workload is
  reported exactly when the policy has no rule for it.
\<close>

theorem route_errors:
  assumes "policy_closed (uc_policy self)" "policy_priced (uc_policy self)" "token_bounds request"
  shows "case route self resolve new_id now request include of
      Inr d \<Rightarrow> declares_workload self (rr_workload request)
    | Inl (NoViableModelGroupError x) \<Rightarrow> declares_workload self (rr_workload request)
    | Inl (IncompleteRoutingPolicyError m) \<Rightarrow> \<not> declares_workload self (rr_workload request)
    | Inl (KeyError g) \<Rightarrow> False
    | Inl DecimalOverflow \<Rightarrow> False"
proof (cases "dict_get (rp_workloads (uc_policy self)) (rr_workload request)")
  case None
  then show ?thesis by (simp add: route_def declares_workload_def dict_has_def)
next
  case (Some rule)
  from policy_closed_group [OF assms(1) Some] obtain p where
    p: "dict_get (rp_model_groups (uc_policy self)) (wr_model_group rule) = Some p" by blast
  show ?thesis
    using Some unfolding route_eq [OF assms Some p]
    by (auto simp: declares_workload_def dict_has_def split: sum.splits option.splits)
qed

theorem route_errors_witness:
  "declares_workload shipped_use_case ''findings_correlation''"
  using route_errors [OF shipped_closed shipped_priced readme_bounds,
      of StaticAvailabilityProvider_resolve "''id''" 0 True]
    readme_routes [of True] by (auto simp: readme_request_def)

text \<open>
  Relaxing a request keeps it routable: with fewer estimated tokens, no new structured-output
  requirement and higher cost and latency ceilings, an accepted request is still accepted and the
  same group is selected.
\<close>

theorem route_relaxed:
  assumes "policy_closed (uc_policy self)" "policy_priced (uc_policy self)" "token_bounds request"
    and "relaxes request request'"
    and "route self StaticAvailabilityProvider_resolve new_id now request include = Inr d"
  shows "\<exists>d'. route self StaticAvailabilityProvider_resolve new_id' now' request' include' = Inr d'
    \<and> rd_selected_model_group d' = rd_selected_model_group d"
proof -
  from route_Inr_cases [OF assms(5,1)] obtain rule p where
    rule: "dict_get (rp_workloads (uc_policy self)) (rr_workload request) = Some rule" and
    p: "dict_get (rp_model_groups (uc_policy self)) (wr_model_group rule) = Some p" and
    sel: "rd_selected_model_group d = wr_model_group rule" and
    ff: "first_failure CONSTRAINTS request p rule = Inr None"
    by (metis mapped_effective_static)
  have priced: "priced p" using assms(2) p by (rule policy_priced_get)
  have "first_failure CONSTRAINTS request' p rule = Inr None"
    using ff relaxes_violates [OF assms(4)] relaxes_bounds [OF assms(4,3)]
    by (auto simp: first_failure_None_iff [OF priced] assms(3))
  moreover have rule': "dict_get (rp_workloads (uc_policy self)) (rr_workload request') = Some rule"
    using rule assms(4) by (simp add: relaxes_def)
  ultimately show ?thesis
    unfolding route_eq [OF assms(1,2) relaxes_bounds [OF assms(4,3)] rule' p]
      mapped_effective_static [OF p]
    by (simp add: sel route_decision_of_def)
qed

theorem route_relaxed_witness:
  "\<exists>d. route shipped_use_case StaticAvailabilityProvider_resolve ''id'' 0
      (readme_request\<lparr>rr_context_tokens_estimated := 10\<rparr>) False = Inr d"
proof -
  obtain d where d: "route shipped_use_case StaticAvailabilityProvider_resolve ''id'' 0 readme_request True
      = Inr d" using readme_routes by blast
  have "relaxes readme_request (readme_request\<lparr>rr_context_tokens_estimated := 10\<rparr>)"
    by (simp add: relaxes_def readme_request_def)
  from route_relaxed [OF shipped_closed shipped_priced readme_bounds this d] show ?thesis by blast
qed

section \<open>The constraint chain and its cost arithmetic\<close>





end
