(* ===== verification/Rate_Limiter.thy ===== *)
theory Rate_Limiter
  imports Prelude Complex_Main
begin

text \<open>
  The in-memory fixed-window rate limiter (\<open>adapters/rate_limiter.py\<close>).

  A clock reading, a window start and the window length are exact rationals; the code holds
  floats, whose rounding is not modelled. \<open>OrderedDict\<close> is an association list in its order:
  assigning an existing key keeps the key's place, \<open>move_to_end\<close> makes it the last and
  \<open>popitem(last=False)\<close> drops the first.
\<close>

section \<open>State and operations\<close>

record im_limiter =
  rl_max_requests :: int
  rl_window_seconds :: rat
  rl_max_tracked_keys :: nat
  rl_windows :: "(string, rat \<times> nat) dict"

definition InMemoryRateLimiter :: "int \<Rightarrow> rat \<Rightarrow> nat \<Rightarrow> im_limiter" where
  "InMemoryRateLimiter max_requests window_seconds max_tracked_keys =
    \<lparr>rl_max_requests = max_requests, rl_window_seconds = window_seconds,
     rl_max_tracked_keys = max_tracked_keys, rl_windows = []\<rparr>"

definition move_to_end :: "string \<Rightarrow> (string, 'v) dict \<Rightarrow> (string, 'v) dict" where
  "move_to_end k d = filter (\<lambda>kv. fst kv \<noteq> k) d @ filter (\<lambda>kv. fst kv = k) d"

definition popitem_first :: "(string, 'v) dict \<Rightarrow> (string, 'v) dict" where
  "popitem_first d = tl d"

definition next_window :: "rat \<Rightarrow> rat \<Rightarrow> (rat \<times> nat) option \<Rightarrow> rat \<times> nat" where
  "next_window window_seconds now entry =
    (let (window_start, count) = (case entry of None \<Rightarrow> (now, 0) | Some w \<Rightarrow> w);
         (window_start, count) =
           (if window_seconds \<le> now - window_start then (now, 0) else (window_start, count))
     in (window_start, count + 1))"

definition allow :: "im_limiter \<Rightarrow> rat \<Rightarrow> string \<Rightarrow> im_limiter \<times> bool" where
  "allow s now key =
    (let (window_start, count) =
           next_window (rl_window_seconds s) now (dict_get (rl_windows s) key);
         windows = move_to_end key (dict_set key (window_start, count) (rl_windows s));
         windows = (if rl_max_tracked_keys s < length windows then popitem_first windows
                    else windows)
     in (s\<lparr>rl_windows := windows\<rparr>, int count \<le> rl_max_requests s))"

text \<open>A sequence of calls, each with the clock reading it takes; the answers in order.\<close>

type_synonym call = "rat \<times> string"

fun calls :: "('s \<Rightarrow> rat \<Rightarrow> string \<Rightarrow> 's \<times> bool) \<Rightarrow> 's \<Rightarrow> call list \<Rightarrow> 's \<times> bool list" where
  "calls f s [] = (s, [])"
| "calls f s ((now, key) # tr) =
    (let (s, ok) = f s now key; (s, oks) = calls f s tr in (s, ok # oks))"

abbreviation answers :: "('s \<Rightarrow> rat \<Rightarrow> string \<Rightarrow> 's \<times> bool) \<Rightarrow> 's \<Rightarrow> call list \<Rightarrow> bool list" where
  "answers f s tr \<equiv> snd (calls f s tr)"

lemma calls_append:
  "calls f s (tr @ tr') =
    (let (s1, a) = calls f s tr; (s2, b) = calls f s1 tr' in (s2, a @ b))"
  by (induction tr arbitrary: s) (auto split: prod.splits)

lemma length_answers [simp]: "length (answers f s tr) = length tr"
  by (induction tr arbitrary: s) (auto simp: case_prod_unfold Let_def)

section \<open>The ordered dictionary\<close>

lemma filter_key_get:
  "wf_dict d \<Longrightarrow> filter (\<lambda>kv. fst kv = k) d =
    (case dict_get d k of None \<Rightarrow> [] | Some v \<Rightarrow> [(k, v)])"
proof (induction d)
  case Nil
  then show ?case by simp
next
  case (Cons a d)
  then have "dict_get d (fst a) = None" by (simp add: map_of_eq_None_iff)
  with Cons show ?case by (cases a) (auto split: option.splits)
qed

lemma filter_dict_set: "filter (\<lambda>kv. fst kv \<noteq> k) (dict_set k v d) = filter (\<lambda>kv. fst kv \<noteq> k) d"
  by (induction d) auto

lemma touch:
  assumes "wf_dict d"
  shows "move_to_end k (dict_set k v d) = filter (\<lambda>kv. fst kv \<noteq> k) d @ [(k, v)]"
  using wf_dict_set [OF assms, of k v]
  by (simp add: move_to_end_def filter_dict_set filter_key_get dict_get_set)

lemma keys_filter: "dict_keys (filter (\<lambda>kv. fst kv \<noteq> k) d) = filter (\<lambda>x. x \<noteq> k) (dict_keys d)"
  by (induction d) auto

lemma allow_wf:
  assumes "wf_dict (rl_windows s)"
  shows "wf_dict (rl_windows (fst (allow s now k)))"
  using assms
  by (auto simp: allow_def Let_def touch popitem_first_def distinct_tl keys_filter map_tl
      split: prod.splits)

lemma allow_config [simp]:
  "rl_max_requests (fst (allow s now k)) = rl_max_requests s"
  "rl_window_seconds (fst (allow s now k)) = rl_window_seconds s"
  "rl_max_tracked_keys (fst (allow s now k)) = rl_max_tracked_keys s"
  by (simp_all add: allow_def Let_def split: prod.splits)

section \<open>The per-key window, and what any fixed-window limiter promises\<close>

text \<open>The answers of a counter that serves one key only.\<close>

fun solo :: "rat \<Rightarrow> int \<Rightarrow> (rat \<times> nat) option \<Rightarrow> rat list \<Rightarrow> bool list" where
  "solo W N w [] = []"
| "solo W N w (t # ts) =
    (int (snd (next_window W t w)) \<le> N) # solo W N (Some (next_window W t w)) ts"

abbreviation calls_of :: "string \<Rightarrow> call list \<Rightarrow> call list" where
  "calls_of k tr \<equiv> filter (\<lambda>c. snd c = k) tr"

definition answers_of :: "string \<Rightarrow> call list \<Rightarrow> bool list \<Rightarrow> bool list" where
  "answers_of k tr oks = map snd (filter (\<lambda>x. snd (fst x) = k) (zip tr oks))"

text \<open>
  \<open>admitted a b ts oks\<close> counts the calls admitted with a clock reading in \<open>[a, b)\<close>.
\<close>

fun admitted :: "rat \<Rightarrow> rat \<Rightarrow> rat list \<Rightarrow> bool list \<Rightarrow> nat" where
  "admitted a b (t # ts) (ok # oks) =
    (if ok \<and> a \<le> t \<and> t < b then 1 else 0) + admitted a b ts oks"
| "admitted a b _ _ = 0"

lemma admitted_outside: "\<forall>t \<in> set ts. b \<le> t \<Longrightarrow> admitted a b ts oks = 0"
  by (induction a b ts oks rule: admitted.induct) auto

lemma admitted_step:
  assumes "admitted a b ts oks \<le> (nat N - Suc c) + m"
  shows "admitted a b (t # ts) ((1 + int c \<le> N) # oks) \<le> (nat N - c) + m"
proof (cases "1 + int c \<le> N")
  case True
  then have "nat N = Suc c + (nat N - Suc c)" by linarith
  then obtain k where "nat N = Suc c + k" by blast
  with assms show ?thesis by simp
next
  case False
  have "nat N - Suc c \<le> nat N - c" by simp
  with assms False show ?thesis by simp
qed

lemmas admitted_step0 = admitted_step [where m = 0, simplified add_0_right]

lemma next_window_Some:
  "next_window W t (Some (s, c)) = (if W \<le> t - s then (t, 1) else (s, Suc c))"
  by (simp add: next_window_def)

lemma next_window_None: "next_window W t None = (t, 1)"
  by (simp add: next_window_def)

lemmas next_window_simps = next_window_Some next_window_None

text \<open>A window that starts inside the interval leaves no room for a second one.\<close>

lemma solo_started:
  assumes "sorted ts" "\<forall>t \<in> set ts. s \<le> t" "a \<le> s"
  shows "admitted a (a + W) ts (solo W N (Some (s, c)) ts) \<le> nat N - c"
  using assms
proof (induction ts arbitrary: c)
  case Nil
  then show ?case by simp
next
  case (Cons t ts)
  show ?case
  proof (cases "W \<le> t - s")
    case True
    with Cons.prems have "\<forall>u \<in> set (t # ts). a + W \<le> u" by auto
    then show ?thesis using admitted_outside by fastforce
  next
    case False
    with Cons.IH [of "Suc c"] Cons.prems show ?thesis
      by (auto simp: next_window_simps simp del: admitted.simps intro!: admitted_step0)
  qed
qed

lemma solo_after:
  assumes "sorted ts" "\<forall>t \<in> set ts. s \<le> t" "\<forall>t \<in> set ts. a \<le> t"
  shows "admitted a (a + W) ts (solo W N (Some (s, c)) ts) \<le> (nat N - c) + nat N"
  using assms
proof (induction ts arbitrary: c)
  case Nil
  then show ?case by simp
next
  case (Cons t ts)
  show ?case
  proof (cases "W \<le> t - s")
    case True
    from Cons.prems solo_started [of ts t a W N 1]
    have "admitted a (a + W) ts (solo W N (Some (t, 1)) ts) \<le> nat N - Suc 0" by simp
    from admitted_step0 [OF this, of t] True show ?thesis
      by (simp add: next_window_simps del: admitted.simps)
  next
    case False
    with Cons.IH [of "Suc c"] Cons.prems show ?thesis
      by (auto simp: next_window_simps simp del: admitted.simps intro!: admitted_step)
  qed
qed

lemma solo_bound:
  assumes "sorted ts" "\<forall>t \<in> set ts. s \<le> t"
  shows "admitted a (a + W) ts (solo W N (Some (s, c)) ts) \<le> 2 * nat N"
  using assms
proof (induction ts arbitrary: s c)
  case Nil
  then show ?case by simp
next
  case (Cons t ts)
  show ?case
  proof (cases "a \<le> t")
    case True
    with Cons.prems have "\<forall>u \<in> set (t # ts). a \<le> u" by auto
    from solo_after [OF Cons.prems this] show ?thesis by (rule order_trans) simp
  next
    case False
    with Cons.IH Cons.prems show ?thesis
      by (cases "next_window W t (Some (s, c))") (auto simp: next_window_simps split: if_splits)
  qed
qed

lemma solo_fresh_bound:
  assumes "sorted ts"
  shows "admitted a (a + W) ts (solo W N None ts) \<le> 2 * nat N"
proof (cases ts)
  case Nil
  then show ?thesis by simp
next
  case (Cons t us)
  have "admitted a (a + W) (t # us) (solo W N (Some (t, 0)) (t # us)) \<le> 2 * nat N"
    using assms Cons by (intro solo_bound) auto
  moreover have "solo W N (Some (t, 0)) (t # us) = solo W N None (t # us)"
    by (simp add: next_window_simps)
  ultimately show ?thesis using Cons by simp
qed

text \<open>Within one window the first \<open>N\<close> calls are admitted and every further one is refused.\<close>

lemma solo_window:
  assumes "\<forall>t \<in> set ts. t < s + W"
  shows "solo W N (Some (s, c)) ts = map (\<lambda>i. int (c + i + 1) \<le> N) [0..<length ts]"
  using assms
proof (induction ts arbitrary: c)
  case Nil
  then show ?case by simp
next
  case (Cons t ts)
  then have "\<not> W \<le> t - s" by auto
  with Cons.IH [of "Suc c"] Cons.prems show ?case
    by (simp add: next_window_simps map_Suc_upt [symmetric] comp_def upt_conv_Cons
        del: upt_Suc)
qed

text \<open>
  The contract of a fixed-window limiter that serves the keys of \<open>K\<close>: one call advances the
  window of its own key, leaves every other window alone, and answers by the new count.
\<close>

locale fixed_window =
  fixes op_allow :: "'s \<Rightarrow> rat \<Rightarrow> string \<Rightarrow> 's \<times> bool"
    and inv :: "'s \<Rightarrow> bool"
    and window :: "'s \<Rightarrow> string \<Rightarrow> (rat \<times> nat) option"
    and K :: "string set"
    and W :: rat
    and N :: int
  assumes inv_step: "inv s \<Longrightarrow> k \<in> K \<Longrightarrow> inv (fst (op_allow s t k))"
    and window_step: "inv s \<Longrightarrow> k \<in> K \<Longrightarrow> window (fst (op_allow s t k)) k' =
      (if k' = k then Some (next_window W t (window s k)) else window s k')"
    and answer: "inv s \<Longrightarrow> k \<in> K \<Longrightarrow>
      snd (op_allow s t k) \<longleftrightarrow> int (snd (next_window W t (window s k))) \<le> N"
begin

lemma isolated:
  assumes "inv s" "snd ` set tr \<subseteq> K"
  shows "answers_of k tr (answers op_allow s tr) = solo W N (window s k) (map fst (calls_of k tr))"
  using assms
proof (induction tr arbitrary: s)
  case Nil
  then show ?case by (simp add: answers_of_def)
next
  case (Cons c tr)
  obtain t k' where c: "c = (t, k')" by (cases c)
  with Cons.prems have "k' \<in> K" by simp
  with Cons.prems c have step: "inv (fst (op_allow s t k'))" by (intro inv_step)
  with Cons.IH Cons.prems have IH: "answers_of k tr (answers op_allow (fst (op_allow s t k')) tr)
      = solo W N (window (fst (op_allow s t k')) k) (map fst (calls_of k tr))" by simp
  show ?case
    using IH window_step [OF Cons.prems(1) \<open>k' \<in> K\<close>] answer [OF Cons.prems(1) \<open>k' \<in> K\<close>] c
    by (auto simp: answers_of_def case_prod_unfold Let_def)
qed

lemma bound:
  assumes "inv s" "window s k = None" "snd ` set tr \<subseteq> K" "sorted (map fst tr)"
  shows "admitted a (a + W) (map fst (calls_of k tr)) (answers_of k tr (answers op_allow s tr))
    \<le> 2 * nat N"
proof -
  have "sorted (map fst (calls_of k tr))"
    using assms(4) by (simp add: sorted_wrt_map sorted_wrt_filter)
  then show ?thesis
    using isolated [OF assms(1,3)] assms(2) solo_fresh_bound by simp
qed

lemma first_window:
  assumes "inv s" "window s k = None" "snd ` set tr \<subseteq> K" "0 < W"
    and "calls_of k tr = (t, k) # cs" "\<forall>c \<in> set cs. t \<le> fst c \<and> fst c < t + W"
  shows "answers_of k tr (answers op_allow s tr) =
    map (\<lambda>i. int (i + 1) \<le> N) [0..<length (calls_of k tr)]"
proof -
  have "solo W N (window s k) (map fst (calls_of k tr))
      = solo W N (Some (t, 0)) (map fst (calls_of k tr))"
    using assms(2,5) by (simp add: next_window_simps)
  also have "\<dots> = map (\<lambda>i. int (0 + i + 1) \<le> N) [0..<length (map fst (calls_of k tr))]"
    using assms(4-6) by (intro solo_window) auto
  finally show ?thesis using isolated [OF assms(1,3)] by simp
qed

end

section \<open>The in-memory limiter fulfils the contract\<close>

text \<open>
  While the distinct keys in use fit into the tracked-key cap, no entry is evicted.
\<close>

definition limiter_inv :: "string set \<Rightarrow> rat \<Rightarrow> int \<Rightarrow> im_limiter \<Rightarrow> bool" where
  "limiter_inv K W N s \<longleftrightarrow> rl_window_seconds s = W \<and> rl_max_requests s = N
    \<and> finite K \<and> card K \<le> rl_max_tracked_keys s
    \<and> wf_dict (rl_windows s) \<and> set (dict_keys (rl_windows s)) \<subseteq> K"

lemma dict_get_touched:
  "dict_get (filter (\<lambda>kv. fst kv \<noteq> k) d @ [(k, v)]) k' =
    (if k' = k then Some v else dict_get d k')"
  by (induction d) (auto simp: map_add_def)

lemma keys_fit:
  assumes "finite K" "card K \<le> m" "distinct xs" "set xs \<subseteq> K"
  shows "length xs \<le> m"
  using assms by (metis card_mono distinct_card order_trans)

lemma allow_no_eviction:
  assumes "limiter_inv K W N s" "k \<in> K"
  shows "rl_windows (fst (allow s t k)) = filter (\<lambda>kv. fst kv \<noteq> k) (rl_windows s)
    @ [(k, next_window W t (dict_get (rl_windows s) k))]"
proof -
  let ?d = "rl_windows s" and ?w = "next_window W t (dict_get (rl_windows s) k)"
  let ?d' = "filter (\<lambda>kv. fst kv \<noteq> k) ?d @ [(k, ?w)]"
  have inv: "finite K" "card K \<le> rl_max_tracked_keys s" "wf_dict ?d" "set (dict_keys ?d) \<subseteq> K"
    using assms(1) by (simp_all add: limiter_inv_def)
  have "distinct (dict_keys ?d')" "set (dict_keys ?d') \<subseteq> K"
    using inv assms(2) by (auto simp: keys_filter)
  with inv have "length (dict_keys ?d') \<le> rl_max_tracked_keys s" by (intro keys_fit)
  then have "length ?d' \<le> rl_max_tracked_keys s" by simp
  then show ?thesis
    using assms(1) touch [OF inv(3), of k]
    by (auto simp: allow_def limiter_inv_def Let_def case_prod_unfold)
qed

lemma allow_inv: "limiter_inv K W N s \<Longrightarrow> k \<in> K \<Longrightarrow> limiter_inv K W N (fst (allow s t k))"
  using allow_no_eviction [of K W N s k t]
  by (auto simp: limiter_inv_def keys_filter)

lemma allow_answer:
  "snd (allow s t k) \<longleftrightarrow>
    int (snd (next_window (rl_window_seconds s) t (dict_get (rl_windows s) k))) \<le> rl_max_requests s"
  by (simp add: allow_def Let_def case_prod_unfold)

interpretation in_memory: fixed_window allow "limiter_inv K W N" "\<lambda>s. dict_get (rl_windows s)" K W N
  for K W N
proof unfold_locales
  fix s k t k'
  assume inv: "limiter_inv K W N s" and k: "k \<in> K"
  show "limiter_inv K W N (fst (allow s t k))" using inv k by (rule allow_inv)
  show "dict_get (rl_windows (fst (allow s t k))) k' =
      (if k' = k then Some (next_window W t (dict_get (rl_windows s) k))
       else dict_get (rl_windows s) k')"
    by (simp only: allow_no_eviction [OF inv k] dict_get_touched)
  show "snd (allow s t k) \<longleftrightarrow> int (snd (next_window W t (dict_get (rl_windows s) k))) \<le> N"
    using inv by (simp add: allow_answer limiter_inv_def)
qed

lemma fresh_inv:
  "finite K \<Longrightarrow> card K \<le> M \<Longrightarrow> limiter_inv K W N (InMemoryRateLimiter N W M)"
  by (simp add: limiter_inv_def InMemoryRateLimiter_def)

lemma fresh_window: "dict_get (rl_windows (InMemoryRateLimiter N W M)) k = None"
  by (simp add: InMemoryRateLimiter_def)

section \<open>Eviction\<close>

lemma remdups_snoc: "remdups (xs @ [x]) = filter (\<lambda>y. y \<noteq> x) (remdups xs) @ [x]"
  by (induction xs) auto

text \<open>
  Touching \<open>k\<close> when only the first \<open>m\<close> of the keys \<open>xs\<close>, the last used first, are tracked.
\<close>

lemma take_touch_aux:
  "distinct xs \<Longrightarrow>
    take m (filter (\<lambda>y. y \<noteq> k) (take (Suc m) xs)) = take m (filter (\<lambda>y. y \<noteq> k) xs)"
proof (induction xs arbitrary: m)
  case Nil
  then show ?case by simp
next
  case (Cons x xs)
  show ?case
  proof (cases "x = k")
    case True
    with Cons.prems have "filter (\<lambda>y. y \<noteq> k) xs = xs"
      "filter (\<lambda>y. y \<noteq> k) (take m xs) = take m xs"
      by (auto simp: filter_id_conv dest: in_set_takeD)
    with True show ?thesis by simp
  next
    case False
    with Cons show ?thesis by (cases m) auto
  qed
qed

lemma take_touch:
  "distinct xs \<Longrightarrow>
    take m (k # filter (\<lambda>y. y \<noteq> k) (take m xs)) = take m (k # filter (\<lambda>y. y \<noteq> k) xs)"
  by (cases m) (simp_all add: take_touch_aux)

lemma rev_tl: "length xs = Suc m \<Longrightarrow> rev (tl xs) = take m (rev xs)"
  by (simp add: take_rev drop_Suc)

definition recent_keys :: "im_limiter \<Rightarrow> string list" where
  "recent_keys s = rev (dict_keys (rl_windows s))"

lemma allow_recent:
  assumes "wf_dict (rl_windows s)" "length (rl_windows s) \<le> rl_max_tracked_keys s"
  shows "recent_keys (fst (allow s t k)) =
    take (rl_max_tracked_keys s) (k # filter (\<lambda>y. y \<noteq> k) (recent_keys s))"
proof -
  let ?w = "next_window (rl_window_seconds s) t (dict_get (rl_windows s) k)"
  let ?d = "filter (\<lambda>kv. fst kv \<noteq> k) (rl_windows s) @ [(k, ?w)]"
  have w: "rl_windows (fst (allow s t k)) =
      (if rl_max_tracked_keys s < length ?d then tl ?d else ?d)"
    using touch [OF assms(1), of k ?w]
    by (simp add: allow_def Let_def case_prod_unfold popitem_first_def)
  have len: "length ?d \<le> Suc (rl_max_tracked_keys s)"
    using order_trans [OF length_filter_le [of "\<lambda>kv. fst kv \<noteq> k" "rl_windows s"] assms(2)]
    by simp
  have keys: "rev (dict_keys ?d) = k # filter (\<lambda>y. y \<noteq> k) (recent_keys s)"
    by (simp add: recent_keys_def keys_filter rev_filter)
  show ?thesis
  proof (cases "rl_max_tracked_keys s < length ?d")
    case True
    with len have "length (dict_keys ?d) = Suc (rl_max_tracked_keys s)" by simp
    then have "rev (tl (dict_keys ?d)) = take (rl_max_tracked_keys s) (rev (dict_keys ?d))"
      by (rule rev_tl)
    with True keys show ?thesis by (simp only: recent_keys_def w if_True map_tl)
  next
    case False
    then have "rev (dict_keys ?d) = take (rl_max_tracked_keys s) (rev (dict_keys ?d))" by simp
    with False keys show ?thesis by (simp only: recent_keys_def w if_False)
  qed
qed

lemma calls_recent:
  "wf_dict (rl_windows (fst (calls allow (InMemoryRateLimiter N W M) tr))) \<and>
   rl_max_tracked_keys (fst (calls allow (InMemoryRateLimiter N W M) tr)) = M \<and>
   recent_keys (fst (calls allow (InMemoryRateLimiter N W M) tr)) =
     take M (rev (remdups (map snd tr)))"
proof (induction tr rule: rev_induct)
  case Nil
  then show ?case by (simp add: recent_keys_def InMemoryRateLimiter_def)
next
  case (snoc c tr)
  obtain t k where c: "c = (t, k)" by (cases c)
  define s where "s = fst (calls allow (InMemoryRateLimiter N W M) tr)"
  have s: "wf_dict (rl_windows s)" "rl_max_tracked_keys s = M"
    "recent_keys s = take M (rev (remdups (map snd tr)))"
    using snoc by (simp_all add: s_def)
  have "length (rl_windows s) = length (recent_keys s)" by (simp add: recent_keys_def)
  also have "\<dots> \<le> M" by (simp add: s(3))
  finally have "recent_keys (fst (allow s t k)) =
      take M (k # filter (\<lambda>y. y \<noteq> k) (take M (rev (remdups (map snd tr)))))"
    using allow_recent [OF s(1), of t k] s by simp
  also have "\<dots> = take M (k # filter (\<lambda>y. y \<noteq> k) (rev (remdups (map snd tr))))"
    by (rule take_touch) simp
  also have "\<dots> = take M (rev (remdups (map snd (tr @ [c]))))"
    by (simp only: c map_append list.map snd_conv remdups_snoc rev_append rev.simps rev_filter
        append_Nil append_Cons)
  finally show ?case
    using s allow_wf [OF s(1), of t k]
    by (simp add: calls_append case_prod_unfold Let_def s_def [symmetric] c)
qed

section \<open>When windows started\<close>

text \<open>The start of a tracked window is the time of a call for its key.\<close>

lemma allow_window_start:
  assumes "wf_dict (rl_windows s)" "dict_get (rl_windows (fst (allow s t k'))) k = Some (start, c)"
  shows "(start, k) = (t, k') \<or> (\<exists>c'. dict_get (rl_windows s) k = Some (start, c'))"
proof -
  obtain w n where w: "next_window (rl_window_seconds s) t (dict_get (rl_windows s) k') = (w, n)" by fastforce
  let ?d = "filter (\<lambda>kv. fst kv \<noteq> k') (rl_windows s) @ [(k', (w, n))]"
  have "rl_windows (fst (allow s t k')) \<in> {?d, tl ?d}"
    using assms(1) by (simp add: allow_def Let_def w touch popitem_first_def)
  moreover have "set (tl ?d) \<subseteq> set ?d" by (cases ?d) auto
  moreover have "(k, (start, c)) \<in> set (rl_windows (fst (allow s t k')))"
    using assms(2) by (rule map_of_SomeD)
  ultimately have "(k, (start, c)) \<in> set ?d"
    by (elim insertE emptyE) (simp_all only: subsetD)
  then consider "(k, (start, c)) \<in> set (rl_windows s)" | "k = k'" "start = w" by auto
  then show ?thesis
  proof cases
    case 1
    with assms(1) show ?thesis by (auto simp: map_of_is_SomeI)
  next
    case 2
    with w show ?thesis
      by (cases "dict_get (rl_windows s) k'") (auto simp: next_window_simps split: if_splits)
  qed
qed

lemma calls_window_start:
  "dict_get (rl_windows (fst (calls allow (InMemoryRateLimiter N W M) tr))) k = Some (start, c)
    \<Longrightarrow> (start, k) \<in> set tr"
proof (induction tr arbitrary: c rule: rev_induct)
  case Nil
  then show ?case by (simp add: InMemoryRateLimiter_def)
next
  case (snoc call tr)
  obtain t k' where call: "call = (t, k')" by fastforce
  let ?s = "fst (calls allow (InMemoryRateLimiter N W M) tr)"
  have wf: "wf_dict (rl_windows ?s)" using calls_recent [of N W M tr] by simp
  have "dict_get (rl_windows (fst (allow ?s t k'))) k = Some (start, c)"
    using snoc.prems by (simp add: calls_append case_prod_unfold Let_def call)
  from allow_window_start [OF wf this] snoc.IH show ?case by (auto simp: call)
qed

lemma calls_config:
  "rl_max_requests (fst (calls allow s tr)) = rl_max_requests s"
  "rl_window_seconds (fst (calls allow s tr)) = rl_window_seconds s"
  by (induction tr arbitrary: s) (auto simp: case_prod_unfold Let_def)

section \<open>Properties\<close>



text \<open>
  Keys are isolated: as long as the distinct keys in use fit into the tracked-key cap, the
  answers one key receives are those of a limiter that serves this key alone, so no caller can
  exhaust or reset another caller's window.
\<close>

theorem rate_limit_isolated:
  assumes "card (set (map snd tr)) \<le> M"
  shows "answers_of k tr (answers allow (InMemoryRateLimiter N W M) tr) =
    solo W N None (map fst (calls_of k tr))"
proof -
  have "answers_of k tr (answers allow (InMemoryRateLimiter N W M) tr) =
      solo W N (dict_get (rl_windows (InMemoryRateLimiter N W M)) k) (map fst (calls_of k tr))"
    using assms by (intro in_memory.isolated [where K = "set (map snd tr)"] fresh_inv) auto
  then show ?thesis by (simp only: fresh_window)
qed

theorem rate_limit_isolated_witness:
  "answers_of ''a'' [(1, ''a''), (2, ''b''), (3, ''a'')]
     (answers allow (InMemoryRateLimiter 1 10 2) [(1, ''a''), (2, ''b''), (3, ''a'')])
   = [True, False]"
  using rate_limit_isolated [of "[(1, ''a''), (2, ''b''), (3, ''a'')]" 2 "''a''" 1 10]
  by (simp add: card_insert_if next_window_simps del: calls.simps)

text \<open>
  The limit is exact within a window: from a fresh limiter, the first \<open>max_requests\<close> calls
  of a key within one window length of its first call are admitted, and all further ones are
  refused.
\<close>

theorem rate_limit_first_window:
  assumes "card (set (map snd tr)) \<le> M" "0 < W" "calls_of k tr = (t, k) # cs"
    and "\<forall>c \<in> set cs. t \<le> fst c \<and> fst c < t + W"
  shows "answers_of k tr (answers allow (InMemoryRateLimiter N W M) tr) =
    map (\<lambda>i. int (i + 1) \<le> N) [0..<length (calls_of k tr)]"
  using assms
  by (intro in_memory.first_window [where K = "set (map snd tr)" and W = W] fresh_inv fresh_window)
    auto

theorem rate_limit_first_window_witness:
  "answers_of ''a'' [(1, ''a''), (2, ''a''), (3, ''a'')]
     (answers allow (InMemoryRateLimiter 2 10 1) [(1, ''a''), (2, ''a''), (3, ''a'')])
   = [True, True, False]"
  using rate_limit_first_window [of "[(1, ''a''), (2, ''a''), (3, ''a'')]" 1 10 "''a''" 1
      "[(2, ''a''), (3, ''a'')]" 2]
  by (simp add: upt_conv_Cons del: calls.simps)

text \<open>
  Memory is bounded and eviction is by least recent use: after any sequence of calls the
  limiter tracks exactly the \<open>max_tracked_keys\<close> most recently used distinct keys.
\<close>

theorem rate_limiter_tracks_most_recent:
  "rev (dict_keys (rl_windows (fst (calls allow (InMemoryRateLimiter N W M) tr)))) =
    take M (rev (remdups (map snd tr)))"
  using calls_recent [of N W M tr] by (simp add: recent_keys_def)

text \<open>
  C34. A blocked caller always recovers: after any history, whatever other keys did in between and
  however often this key was refused, its first call at least one window length after all its
  earlier ones is admitted.
\<close>

theorem blocked_key_recovers:
  assumes "1 \<le> N" "\<forall>c \<in> set tr. snd c = k \<longrightarrow> fst c + W \<le> now"
  shows "snd (allow (fst (calls allow (InMemoryRateLimiter N W M) tr)) now k)"
proof -
  let ?s = "fst (calls allow (InMemoryRateLimiter N W M) tr)"
  have cfg: "rl_max_requests ?s = N" "rl_window_seconds ?s = W"
    by (simp_all add: calls_config) (simp_all add: InMemoryRateLimiter_def)
  have "next_window W now (dict_get (rl_windows ?s) k) = (now, 1)"
  proof (cases "dict_get (rl_windows ?s) k")
    case None
    then show ?thesis by (simp add: next_window_simps)
  next
    case (Some w)
    then have "(fst w, k) \<in> set tr" using calls_window_start [of N W M tr k "fst w" "snd w"] by simp
    with assms(2) have "W \<le> now - fst w" by force
    with Some show ?thesis by (cases w) (simp add: next_window_simps)
  qed
  with assms(1) show ?thesis by (simp add: allow_def Let_def cfg)
qed

theorem blocked_key_recovers_witness:
  "snd (allow (fst (calls allow (InMemoryRateLimiter 1 10 2) [(1, ''a''), (2, ''a''), (3, ''b'')])) 12 ''a'')"
  by (rule blocked_key_recovers) simp_all

end
