(* ===== verification/Bytes.thy ===== *)
theory Bytes
  imports Prelude "HOL-Library.Word"
begin

text \<open>
  Bytes and the standard library's functions on them: UTF-8, SHA-256 (FIPS 180-4) and
  HMAC-SHA-256 with their hexadecimal digests.
\<close>

unbundle bit_operations_syntax

type_synonym byte = "8 word"
type_synonym bytes = "byte list"

section \<open>UTF-8\<close>

definition utf8_char :: "char \<Rightarrow> bytes" where
  "utf8_char c = (let n = of_char c :: nat in
     if n < 128 then [of_nat n] else [of_nat (192 + n div 64), of_nat (128 + n mod 64)])"

definition utf8_encode :: "string \<Rightarrow> bytes" where
  "utf8_encode s = concat (map utf8_char s)"

datatype decode_error = UnicodeDecodeError | BeyondLatin1

text \<open>
  Strict decoding. A two-byte sequence with lead byte \<open>C2\<close> or \<open>C3\<close> is a code point from U+0080
  to U+00FF; any other lead byte starts a code point outside the model, or is malformed.
\<close>

definition cont_byte :: "byte \<Rightarrow> bool" where
  "cont_byte b \<longleftrightarrow> 128 \<le> unat b \<and> unat b < 192"

definition wide_lead :: "byte \<Rightarrow> bytes \<Rightarrow> bool" where
  "wide_lead b s \<longleftrightarrow> (let n = unat b; c = (case s of x # _ \<Rightarrow> unat x | [] \<Rightarrow> 0) in
     (196 \<le> n \<and> n < 224 \<and> 1 \<le> length s \<and> list_all cont_byte (take 1 s))
   \<or> (224 \<le> n \<and> n < 240 \<and> 2 \<le> length s \<and> list_all cont_byte (take 2 s)
        \<and> (n = 224 \<longrightarrow> 160 \<le> c) \<and> (n = 237 \<longrightarrow> c < 160))
   \<or> (240 \<le> n \<and> n < 245 \<and> 3 \<le> length s \<and> list_all cont_byte (take 3 s)
        \<and> (n = 240 \<longrightarrow> 144 \<le> c) \<and> (n = 244 \<longrightarrow> c < 144)))"

fun utf8_decode :: "bytes \<Rightarrow> (decode_error, string) result" where
  "utf8_decode [] = Inr []"
| "utf8_decode (b # s) =
    (if unat b < 128 then rbind (utf8_decode s) (\<lambda>t. Inr (char_of (unat b) # t))
     else if unat b = 194 \<or> unat b = 195 then
       (case s of
          [] \<Rightarrow> Inl UnicodeDecodeError
        | x # s' \<Rightarrow>
          (if cont_byte x then rbind (utf8_decode s')
             (\<lambda>t. Inr (char_of ((unat b - 192) * 64 + (unat x - 128)) # t))
           else Inl UnicodeDecodeError))
     else if wide_lead b s then Inl BeyondLatin1
     else Inl UnicodeDecodeError)"

lemma char_bound: "(of_char c :: nat) < 256"
  by (rule nat_of_char_less_256)

lemma unat_byte: "n < 256 \<Longrightarrow> unat (of_nat n :: byte) = n"
  by (simp add: unat_of_nat)

lemma utf8_decode_two:
  assumes "unat b = 192 + q" "q = 2 \<or> q = 3" "unat x = 128 + r" "r < 64"
  shows "utf8_decode (b # x # s) = rbind (utf8_decode s) (\<lambda>t. Inr (char_of (q * 64 + r) # t))"
proof -
  have "\<not> unat b < 128" "unat b = 194 \<or> unat b = 195" "cont_byte x"
    using assms by (auto simp: cont_byte_def)
  then show ?thesis using assms by (simp del: utf8_decode.simps(1))
qed

lemma utf8_decode_char: "utf8_decode (utf8_char c @ s) = rbind (utf8_decode s) (\<lambda>t. Inr (c # t))"
proof (cases "(of_char c :: nat) < 128")
  case True
  then show ?thesis by (simp add: utf8_char_def Let_def unat_byte)
next
  case False
  define n where "n = (of_char c :: nat)"
  define q r where "q = n div 64" and "r = n mod 64"
  have n: "128 \<le> n" "n < 256" using False char_bound by (simp_all add: n_def)
  have "2 \<le> q" "q < 4" using n by (simp_all add: q_def less_mult_imp_div_less div_le_mono [of 128 n 64, simplified])
  then have q: "q = 2 \<or> q = 3" by linarith
  have r: "r < 64" by (simp add: r_def)
  have c: "char_of (q * 64 + r) = c" by (simp add: q_def r_def n_def)
  have "utf8_decode (of_nat (192 + q) # of_nat (128 + r) # s) =
      rbind (utf8_decode s) (\<lambda>t. Inr (char_of (q * 64 + r) # t))"
    by (rule utf8_decode_two [OF _ q _ r]; rule unat_byte; use q r in linarith)
  moreover have "utf8_char c = [of_nat (192 + q), of_nat (128 + r)]"
    using False by (simp add: utf8_char_def Let_def n_def q_def r_def)
  ultimately show ?thesis by (simp only: c append_Cons append_Nil)
qed

lemma utf8_decode_encode: "utf8_decode (utf8_encode s) = Inr s"
  by (induction s) (simp_all add: utf8_encode_def utf8_decode_char)

lemma utf8_inject: "utf8_encode s = utf8_encode t \<longleftrightarrow> s = t"
  by (metis utf8_decode_encode Inr_inject)

section \<open>SHA-256\<close>

text \<open>
  The constants, as the standard derives them: the first 32 bits of the fractional parts of the
  cube roots of the first 64 primes, and of the square roots of the first 8.
\<close>

definition small_primes :: "nat list" where
  "small_primes = filter (\<lambda>p. list_all (\<lambda>d. p mod d \<noteq> 0) [2..<p]) [2..<312]"

fun root_floor :: "nat \<Rightarrow> nat \<Rightarrow> nat \<Rightarrow> nat" where
  "root_floor 0 k n = 0"
| "root_floor (Suc bits) k n =
    (let r = 2 * root_floor bits k (n div 2 ^ k) in if (r + 1) ^ k \<le> n then r + 1 else r)"

definition root_fraction :: "nat \<Rightarrow> nat \<Rightarrow> 32 word" where
  "root_fraction k p = of_nat (root_floor 40 k (p * 2 ^ (32 * k)))"

definition sha_k :: "32 word list" where
  "sha_k = map (root_fraction 3) (take 64 small_primes)"

definition sha_init :: "32 word list" where
  "sha_init = map (root_fraction 2) [2, 3, 5, 7, 11, 13, 17, 19]"

definition rotr :: "nat \<Rightarrow> 32 word \<Rightarrow> 32 word" where
  "rotr n w = (drop_bit n w) OR (push_bit (32 - n) w)"

definition sha_ch :: "32 word \<Rightarrow> 32 word \<Rightarrow> 32 word \<Rightarrow> 32 word" where
  "sha_ch x y z = (x AND y) XOR (NOT x AND z)"

definition sha_maj :: "32 word \<Rightarrow> 32 word \<Rightarrow> 32 word \<Rightarrow> 32 word" where
  "sha_maj x y z = (x AND y) XOR (x AND z) XOR (y AND z)"

definition big_sigma0 :: "32 word \<Rightarrow> 32 word" where
  "big_sigma0 w = rotr 2 w XOR rotr 13 w XOR rotr 22 w"

definition big_sigma1 :: "32 word \<Rightarrow> 32 word" where
  "big_sigma1 w = rotr 6 w XOR rotr 11 w XOR rotr 25 w"

definition sigma0 :: "32 word \<Rightarrow> 32 word" where
  "sigma0 w = rotr 7 w XOR rotr 18 w XOR drop_bit 3 w"

definition sigma1 :: "32 word \<Rightarrow> 32 word" where
  "sigma1 w = rotr 17 w XOR rotr 19 w XOR drop_bit 10 w"

text \<open>Big-endian bytes of a number, and the padded message.\<close>

fun be_bytes :: "nat \<Rightarrow> nat \<Rightarrow> bytes" where
  "be_bytes 0 v = []"
| "be_bytes (Suc n) v = be_bytes n (v div 256) @ [of_nat (v mod 256)]"

definition sha_pad :: "bytes \<Rightarrow> bytes" where
  "sha_pad m = m @ [0x80] @ replicate ((119 - length m mod 64) mod 64) 0 @ be_bytes 8 (8 * length m)"

definition be_word :: "bytes \<Rightarrow> 32 word" where
  "be_word bs = foldl (\<lambda>w b. w * 256 + ucast b) 0 bs"

fun chunks :: "nat \<Rightarrow> nat \<Rightarrow> 'a list \<Rightarrow> 'a list list" where
  "chunks 0 k xs = []"
| "chunks (Suc n) k xs = take k xs # chunks n k (drop k xs)"

text \<open>The message schedule, built from its last sixteen words.\<close>

fun schedule :: "nat \<Rightarrow> 32 word list \<Rightarrow> 32 word list" where
  "schedule 0 w = w"
| "schedule (Suc n) w =
    (let t = length w
     in schedule n (w @ [sigma1 (w ! (t - 2)) + w ! (t - 7) + sigma0 (w ! (t - 15)) + w ! (t - 16)]))"

fun sha_rounds :: "32 word list \<Rightarrow> (32 word \<times> 32 word) list \<Rightarrow> 32 word list" where
  "sha_rounds [a, b, c, d, e, f, g, h] ((k, w) # kws) =
    (let t1 = h + big_sigma1 e + sha_ch e f g + k + w; t2 = big_sigma0 a + sha_maj a b c
     in sha_rounds [t1 + t2, a, b, c, d + t1, e, f, g] kws)"
| "sha_rounds st kws = st"

definition sha_block :: "32 word list \<Rightarrow> bytes \<Rightarrow> 32 word list" where
  "sha_block st block =
    (let w = schedule 48 (map be_word (chunks 16 4 block))
     in map2 (+) st (sha_rounds st (zip sha_k w)))"

definition sha256 :: "bytes \<Rightarrow> bytes" where
  "sha256 m =
    (let p = sha_pad m
     in concat (map (\<lambda>w. be_bytes 4 (unat w))
       (foldl sha_block sha_init (chunks (length p div 64) 64 p))))"

definition bytes_hex :: "bytes \<Rightarrow> string" where
  "bytes_hex bs = concat (map (\<lambda>b. [hex_char (unat b div 16), hex_char (unat b mod 16)]) bs)"

definition sha256_hex :: "bytes \<Rightarrow> string" where
  "sha256_hex m = bytes_hex (sha256 m)"

definition hmac_key :: "bytes \<Rightarrow> bytes" where
  "hmac_key k = (let k = (if 64 < length k then sha256 k else k) in k @ replicate (64 - length k) 0)"

definition hmac_sha256 :: "bytes \<Rightarrow> bytes \<Rightarrow> bytes" where
  "hmac_sha256 key m =
    sha256 (map (\<lambda>b. b XOR 0x5c) (hmac_key key)
      @ sha256 (map (\<lambda>b. b XOR 0x36) (hmac_key key) @ m))"

subsection \<open>The shape of a digest\<close>

lemma length_be_bytes [simp]: "length (be_bytes n v) = n"
  by (induction n arbitrary: v) simp_all

lemma length_sha_rounds: "length st = 8 \<Longrightarrow> length (sha_rounds st kws) = 8"
  by (induction st kws rule: sha_rounds.induct) (simp_all add: Let_def)

lemma length_sha_block: "length st = 8 \<Longrightarrow> length (sha_block st b) = 8"
  by (simp add: sha_block_def Let_def length_sha_rounds)

lemma length_sha256 [simp]: "length (sha256 m) = 32"
proof -
  have "length (foldl sha_block st bs) = 8" if "length st = 8" for st bs
    using that by (induction bs arbitrary: st) (simp_all add: length_sha_block)
  moreover have "length sha_init = 8" by (simp add: sha_init_def)
  moreover have "length (concat (map (\<lambda>w. be_bytes 4 (unat w)) ws)) = 4 * length ws"
    for ws :: "32 word list" by (induction ws) simp_all
  ultimately show ?thesis by (simp add: sha256_def Let_def)
qed

lemma hex_char_is_hex: "d < 16 \<Longrightarrow> is_hex (hex_char d)"
  unfolding is_hex_def hex_char_def by (rule nth_mem) simp

lemma bytes_hex_shape: "length (bytes_hex bs) = 2 * length bs" "list_all is_hex (bytes_hex bs)"
proof (induction bs)
  case (Cons b bs)
  case 2
  have "unat b < 256" using unsigned_less [where 'a = nat, of b] by simp
  then show ?case using Cons by (simp add: bytes_hex_def hex_char_is_hex)
qed (simp_all add: bytes_hex_def)

lemma sha256_hex_shape: "length (sha256_hex m) = 64" "list_all is_hex (sha256_hex m)"
  by (simp_all add: sha256_hex_def bytes_hex_shape)

end
