(* ===== verification/Redis_Rate_Limiter.thy ===== *)
theory Redis_Rate_Limiter
  imports Rate_Limiter Bytes
begin

text \<open>
  The Redis-backed rate limiter (\<open>adapters/redis_rate_limiter.py\<close>).

  \<^item> The Redis server is a parameter: \<open>call\<close> runs one command at a server time, and \<open>eval\<close> is the
    client's \<open>eval\<close>, which runs the script's effect on the server and returns its reply, or
    \<open>None\<close> when the client raises. \<open>redis_counter_laws\<close> states the documented behaviour of the commands.
  \<^item> Times are seconds, exact rationals, as in the in-memory limiter; \<open>times1000\<close> is the
    float product \<open>window_seconds * 1000\<close>.
  \<^item> The Lua script is \<open>incr_and_expire\<close>, statement by statement.
\<close>

section \<open>The limiter\<close>

datatype pyfloat = Finite rat | NonFinite

record redis_limiter =
  sl_max_requests :: int
  sl_window_ms :: int
  sl_fingerprint_secret :: bytes

text \<open>What the process keeps beside the server: the fail-open counter and the warnings logged.\<close>

record 'r redis_world =
  rw_server :: 'r
  rw_unavailable_total :: nat
  rw_warnings :: "string list"

definition key_prefix :: string where
  "key_prefix = ''policy-model-router:rate-limit''"

definition max_window_seconds :: rat where
  "max_window_seconds = 86400"

text \<open>\<open>round\<close> of a float: to the nearest integer, a tie to the even one.\<close>

definition round_even :: "rat \<Rightarrow> int" where
  "round_even x =
    (let f = \<lfloor>x\<rfloor>; d = x - of_int f
     in if d < 1 / 2 then f else if 1 / 2 < d then f + 1 else if even f then f else f + 1)"

text \<open>\<open>random_secret\<close> is what \<open>secrets.token_bytes(32)\<close> returns.\<close>

definition RedisRateLimiter ::
  "(rat \<Rightarrow> rat) \<Rightarrow> bytes \<Rightarrow> int \<Rightarrow> pyfloat \<Rightarrow> bytes option \<Rightarrow> (string, redis_limiter) result" where
  "RedisRateLimiter times1000 random_secret max_requests window_seconds fingerprint_secret =
    (case window_seconds of
       NonFinite \<Rightarrow> Inl ''window_seconds must be finite and in the range (0, 86400]''
     | Finite w \<Rightarrow>
         (if \<not> (0 < w \<and> w \<le> max_window_seconds)
          then Inl ''window_seconds must be finite and in the range (0, 86400]''
          else Inr
            \<lparr>sl_max_requests = max_requests,
             sl_window_ms = max 1 (round_even (times1000 w)),
             sl_fingerprint_secret =
               (case fingerprint_secret of Some s \<Rightarrow> s | None \<Rightarrow> random_secret)\<rparr>))"

definition fingerprint :: "redis_limiter \<Rightarrow> string \<Rightarrow> string" where
  "fingerprint self key = take 12 (bytes_hex (hmac_sha256 (sl_fingerprint_secret self) (utf8_encode key)))"

datatype redis_cmd = INCR string | PTTL string | PEXPIRE string int

text \<open>\<open>count == 1 or redis.call('PTTL', key) < 0\<close> asks for the TTL only if the count is not 1.\<close>

definition incr_and_expire :: "(redis_cmd \<Rightarrow> 'r \<Rightarrow> 'r \<times> int) \<Rightarrow> string \<Rightarrow> int \<Rightarrow> 'r \<Rightarrow> 'r \<times> int" where
  "incr_and_expire call key window_ms st =
    (let (st, count) = call (INCR key) st;
         (st, expire) =
           (if count = 1 then (st, True)
            else let (st, ttl) = call (PTTL key) st in (st, ttl < 0));
         st = (if expire then fst (call (PEXPIRE key window_ms) st) else st)
     in (st, count))"

definition full_key :: "string \<Rightarrow> string" where
  "full_key key = key_prefix @ '':'' @ key"

definition redis_allow ::
  "(('r \<Rightarrow> 'r \<times> int) \<Rightarrow> rat \<Rightarrow> 'r \<Rightarrow> 'r \<times> int option) \<Rightarrow> (rat \<Rightarrow> redis_cmd \<Rightarrow> 'r \<Rightarrow> 'r \<times> int) \<Rightarrow>
     redis_limiter \<Rightarrow> 'r redis_world \<Rightarrow> rat \<Rightarrow> string \<Rightarrow> 'r redis_world \<times> bool" where
  "redis_allow eval call self s now key =
    (let (server, reply) =
           eval (incr_and_expire (call now) (full_key key) (sl_window_ms self)) now (rw_server s)
     in case reply of
          None \<Rightarrow>
            (s\<lparr>rw_server := server, rw_unavailable_total := rw_unavailable_total s + 1,
               rw_warnings := rw_warnings s @ [fingerprint self key]\<rparr>, True)
        | Some count \<Rightarrow> (s\<lparr>rw_server := server\<rparr>, count \<le> sl_max_requests self))"

text \<open>\<open>ping\<close> lets the client's exception through: \<open>None\<close> is an unreachable server.\<close>

definition redis_limiter_ping :: "unit option \<Rightarrow> (string, unit) result" where
  "redis_limiter_ping reply = some_or reply ''client error''"

section \<open>The documented server\<close>

text \<open>
  \<open>entry st k\<close> is the last counter of \<open>k\<close> with its deadline, if it has one; from its deadline on
  the key reads as absent.
\<close>

definition live_entry ::
  "('r \<Rightarrow> string \<Rightarrow> (int \<times> rat option) option) \<Rightarrow> 'r \<Rightarrow> rat \<Rightarrow> string \<Rightarrow> (int \<times> rat option) option" where
  "live_entry entry st t k =
    (case entry st k of
       Some (n, Some d) \<Rightarrow> if t < d then Some (n, Some d) else None
     | e \<Rightarrow> e)"

text \<open>
  \<open>INCR\<close> counts from 0 for an absent key and keeps the deadline of a present one; \<open>PTTL\<close> is -2
  for an absent key, -1 without a deadline, and otherwise not negative; \<open>PEXPIRE\<close> with a
  positive duration sets the deadline of a present key.
\<close>

definition redis_counter_laws ::
  "(rat \<Rightarrow> redis_cmd \<Rightarrow> 'r \<Rightarrow> 'r \<times> int) \<Rightarrow> ('r \<Rightarrow> string \<Rightarrow> (int \<times> rat option) option) \<Rightarrow> bool" where
  "redis_counter_laws call entry \<longleftrightarrow>
    (\<forall>t k st. let (n, d) = (case live_entry entry st t k of None \<Rightarrow> (0, None) | Some e \<Rightarrow> e)
       in snd (call t (INCR k) st) = n + 1 \<and>
          entry (fst (call t (INCR k) st)) = (entry st)(k \<mapsto> (n + 1, d))) \<and>
    (\<forall>t k st. entry (fst (call t (PTTL k) st)) = entry st \<and>
       (case live_entry entry st t k of
          None \<Rightarrow> snd (call t (PTTL k) st) = -2
        | Some (n, None) \<Rightarrow> snd (call t (PTTL k) st) = -1
        | Some (n, Some d) \<Rightarrow> 0 \<le> snd (call t (PTTL k) st))) \<and>
    (\<forall>t k ms st n d. 0 < ms \<longrightarrow> live_entry entry st t k = Some (n, d) \<longrightarrow>
       entry (fst (call t (PEXPIRE k ms) st)) = (entry st)(k \<mapsto> (n, Some (t + of_int ms / 1000))))"

text \<open>A client that always reaches the server.\<close>

definition reliable :: "(('r \<Rightarrow> 'r \<times> int) \<Rightarrow> rat \<Rightarrow> 'r \<Rightarrow> 'r \<times> int option) \<Rightarrow> bool" where
  "reliable eval \<longleftrightarrow> (\<forall>f t st. eval f t st = (fst (f st), Some (snd (f st))))"

section \<open>The script\<close>

lemma law_incr:
  assumes "redis_counter_laws call entry"
    and "(n, d) = (case live_entry entry st t k of None \<Rightarrow> (0, None) | Some e \<Rightarrow> e)"
  shows "snd (call t (INCR k) st) = n + 1"
    "entry (fst (call t (INCR k) st)) = (entry st)(k \<mapsto> (n + 1, d))"
proof -
  from assms(1) have "let (n, d) = (case live_entry entry st t k of None \<Rightarrow> (0, None) | Some e \<Rightarrow> e)
     in snd (call t (INCR k) st) = n + 1 \<and>
        entry (fst (call t (INCR k) st)) = (entry st)(k \<mapsto> (n + 1, d))"
    unfolding redis_counter_laws_def by blast
  then show "snd (call t (INCR k) st) = n + 1"
    "entry (fst (call t (INCR k) st)) = (entry st)(k \<mapsto> (n + 1, d))"
    unfolding assms(2) [symmetric] by simp_all
qed

lemma law_pttl:
  assumes "redis_counter_laws call entry"
  shows "entry (fst (call t (PTTL k) st)) = entry st"
    "live_entry entry st t k = Some (n, None) \<Longrightarrow> snd (call t (PTTL k) st) = -1"
    "live_entry entry st t k = Some (n, Some d) \<Longrightarrow> 0 \<le> snd (call t (PTTL k) st)"
proof -
  have law: "entry (fst (call t (PTTL k) st)) = entry st \<and>
     (case live_entry entry st t k of
        None \<Rightarrow> snd (call t (PTTL k) st) = -2
      | Some (n, None) \<Rightarrow> snd (call t (PTTL k) st) = -1
      | Some (n, Some d) \<Rightarrow> 0 \<le> snd (call t (PTTL k) st))"
    using assms [unfolded redis_counter_laws_def, THEN conjunct2, THEN conjunct1] by (elim allE)
  then show "entry (fst (call t (PTTL k) st)) = entry st" by simp
  show "snd (call t (PTTL k) st) = -1" if "live_entry entry st t k = Some (n, None)"
    using law that by simp
  show "0 \<le> snd (call t (PTTL k) st)" if "live_entry entry st t k = Some (n, Some d)"
    using law that by simp
qed

lemma law_pexpire:
  assumes "redis_counter_laws call entry" "0 < ms" "live_entry entry st t k = Some (n, d)"
  shows "entry (fst (call t (PEXPIRE k ms) st)) = (entry st)(k \<mapsto> (n, Some (t + of_int ms / 1000)))"
  using assms unfolding redis_counter_laws_def by blast

text \<open>
  The script counts one more call, and leaves the key with a deadline: the one it had, or a
  fresh one if this is the first call of its window or the deadline was missing.
\<close>

lemma script_effect:
  assumes laws: "redis_counter_laws call entry" and ms: "0 < ms"
    and e: "(n, d) = (case live_entry entry st t k of None \<Rightarrow> (0, None) | Some e \<Rightarrow> e)"
  shows "snd (incr_and_expire (call t) k ms st) = n + 1 \<and>
    entry (fst (incr_and_expire (call t) k ms st)) = (entry st)(k \<mapsto> (n + 1,
      if n = 0 \<or> d = None then Some (t + of_int ms / 1000) else d))"
proof -
  obtain st1 c1 where i: "call t (INCR k) st = (st1, c1)" by fastforce
  have c1: "c1 = n + 1" and e1: "entry st1 = (entry st)(k \<mapsto> (n + 1, d))"
    using law_incr [OF laws e] i by simp_all
  have d_later: "t < x" if "d = Some x" for x
    using e that by (auto simp: live_entry_def split: option.splits if_splits)
  have live1: "live_entry entry st1 t k = Some (n + 1, d)"
    using e1 d_later by (simp add: live_entry_def split: option.split)
  have pexp: "entry (fst (call t (PEXPIRE k ms) s)) = (entry st)(k \<mapsto> (n + 1, Some (t + of_int ms / 1000)))"
    if "entry s = entry st1" for s
  proof -
    have "live_entry entry s t k = Some (n + 1, d)" using live1 that by (simp add: live_entry_def)
    from law_pexpire [OF laws ms this] e1 that show ?thesis by simp
  qed
  obtain st2 ttl where p: "call t (PTTL k) st1 = (st2, ttl)" by fastforce
  have e2: "entry st2 = entry st1" using law_pttl(1) [OF laws, of t k st1] p by simp
  have ttl: "ttl < 0 \<longleftrightarrow> d = None"
    using law_pttl(2,3) [OF laws, of st1 t k] live1 p by (cases d) auto
  show ?thesis
    using i p c1 e1 e2 ttl pexp [of st1] pexp [of st2]
    by (auto simp: incr_and_expire_def Let_def)
qed

lemma full_key_inject [simp]: "full_key a = full_key b \<longleftrightarrow> a = b"
  by (simp add: full_key_def)

section \<open>The Redis limiter fulfils the fixed-window contract\<close>

definition window_of :: "('r \<Rightarrow> string \<Rightarrow> (int \<times> rat option) option) \<Rightarrow> rat \<Rightarrow> 'r redis_world \<Rightarrow>
    string \<Rightarrow> (rat \<times> nat) option" where
  "window_of entry W s k =
    (case entry (rw_server s) (full_key k) of
       Some (n, Some d) \<Rightarrow> Some (d - W, nat n)
     | _ \<Rightarrow> None)"

definition window_seconds_of :: "redis_limiter \<Rightarrow> rat" where
  "window_seconds_of self = of_int (sl_window_ms self) / 1000"

text \<open>Every key of the limiter that exists has been counted and has a deadline.\<close>

definition redis_inv ::
  "(('r \<Rightarrow> 'r \<times> int) \<Rightarrow> rat \<Rightarrow> 'r \<Rightarrow> 'r \<times> int option) \<Rightarrow> (rat \<Rightarrow> redis_cmd \<Rightarrow> 'r \<Rightarrow> 'r \<times> int) \<Rightarrow>
     ('r \<Rightarrow> string \<Rightarrow> (int \<times> rat option) option) \<Rightarrow> redis_limiter \<Rightarrow> 'r redis_world \<Rightarrow> bool" where
  "redis_inv eval call entry self s \<longleftrightarrow>
    redis_counter_laws call entry \<and> reliable eval \<and> 0 < sl_window_ms self \<and>
    (\<forall>k n d. entry (rw_server s) (full_key k) = Some (n, d) \<longrightarrow> 1 \<le> n \<and> d \<noteq> None)"

lemma redis_allow_effect:
  assumes inv: "redis_inv eval call entry self s"
    and w_def: "w = next_window (window_seconds_of self) t (window_of entry (window_seconds_of self) s k)"
  shows "entry (rw_server (fst (redis_allow eval call self s t k))) =
      (entry (rw_server s))(full_key k \<mapsto> (int (snd w), Some (fst w + window_seconds_of self)))"
    "snd (redis_allow eval call self s t k) \<longleftrightarrow> int (snd w) \<le> sl_max_requests self"
proof -
  let ?W = "window_seconds_of self" and ?st = "rw_server s" and ?k = "full_key k"
  have laws: "redis_counter_laws call entry" and ms: "0 < sl_window_ms self" and rel: "reliable eval"
    and wf: "\<And>n d. entry ?st ?k = Some (n, d) \<Longrightarrow> 1 \<le> n \<and> d \<noteq> None"
    using inv by (auto simp: redis_inv_def)
  obtain n d where nd: "(n, d) = (case live_entry entry ?st t ?k of None \<Rightarrow> (0, None) | Some e \<Rightarrow> e)"
    by (metis surj_pair)
  note eff = script_effect [OF laws ms nd]
  have w: "int (snd w) = n + 1 \<and>
      Some (fst w + ?W) = (if n = 0 \<or> d = None then Some (t + ?W) else d)"
    using nd wf by (auto simp: w_def window_of_def live_entry_def next_window_def Let_def
        split: option.splits if_splits)
  have allow: "redis_allow eval call self s t k =
      (s\<lparr>rw_server := fst (incr_and_expire (call t) ?k (sl_window_ms self) ?st)\<rparr>, n + 1 \<le> sl_max_requests self)"
    using rel eff by (simp add: redis_allow_def reliable_def)
  show "entry (rw_server (fst (redis_allow eval call self s t k))) =
      (entry ?st)(?k \<mapsto> (int (snd w), Some (fst w + ?W)))"
    using eff w by (simp add: allow window_seconds_of_def)
  show "snd (redis_allow eval call self s t k) \<longleftrightarrow> int (snd w) \<le> sl_max_requests self"
    using w by (simp add: allow)
qed

lemma next_window_count: "1 \<le> snd (next_window W t w)"
  by (simp add: next_window_def Let_def split: prod.splits)

interpretation shared_window: fixed_window "redis_allow eval call self"
  "redis_inv eval call entry self" "window_of entry (window_seconds_of self)" UNIV
  "window_seconds_of self" "sl_max_requests self"
  for eval call entry self
proof unfold_locales
  fix s k t k'
  assume inv: "redis_inv eval call entry self s"
  note eff = redis_allow_effect [OF inv refl, of t k]
  show "redis_inv eval call entry self (fst (redis_allow eval call self s t k))"
    using inv next_window_count by (auto simp: redis_inv_def eff(1) split: if_splits)
  show "window_of entry (window_seconds_of self) (fst (redis_allow eval call self s t k)) k' =
      (if k' = k then Some (next_window (window_seconds_of self) t
         (window_of entry (window_seconds_of self) s k))
       else window_of entry (window_seconds_of self) s k')"
    unfolding window_of_def eff(1) [unfolded window_of_def] by simp
  show "snd (redis_allow eval call self s t k) \<longleftrightarrow>
      int (snd (next_window (window_seconds_of self) t (window_of entry (window_seconds_of self) s k)))
        \<le> sl_max_requests self"
    by (rule eff(2))
qed

section \<open>A concrete server\<close>

text \<open>The documented commands on a map of counters, for the witnesses.\<close>

type_synonym kv = "string \<Rightarrow> (int \<times> rat option) option"

fun kv_call :: "rat \<Rightarrow> redis_cmd \<Rightarrow> kv \<Rightarrow> kv \<times> int" where
  "kv_call t (INCR k) st =
    (let (n, d) = (case live_entry id st t k of None \<Rightarrow> (0, None) | Some e \<Rightarrow> e)
     in (st(k \<mapsto> (n + 1, d)), n + 1))"
| "kv_call t (PTTL k) st =
    (st, case live_entry id st t k of
           None \<Rightarrow> -2
         | Some (n, None) \<Rightarrow> -1
         | Some (n, Some d) \<Rightarrow> \<lfloor>(d - t) * 1000\<rfloor>)"
| "kv_call t (PEXPIRE k ms) st =
    (case live_entry id st t k of
       None \<Rightarrow> (st, 0)
     | Some (n, d) \<Rightarrow> (st(k \<mapsto> (n, Some (t + of_int ms / 1000))), 1))"

definition direct_eval :: "('r \<Rightarrow> 'r \<times> int) \<Rightarrow> rat \<Rightarrow> 'r \<Rightarrow> 'r \<times> int option" where
  "direct_eval f t st = (fst (f st), Some (snd (f st)))"

lemma direct_reliable: "reliable direct_eval"
  by (simp add: reliable_def direct_eval_def)

lemma live_later: "live_entry entry st t k = Some (n, Some d) \<Longrightarrow> t < d"
  by (auto simp: live_entry_def split: option.splits if_splits)

lemma kv_laws: "redis_counter_laws kv_call id"
proof -
  have "0 \<le> \<lfloor>(d - t) * 1000\<rfloor>" if "live_entry id st t k = Some (n, Some d)" for st :: kv and t k n d
    using live_later [OF that] by simp
  then show ?thesis
    unfolding redis_counter_laws_def
    by (auto simp: Let_def split: prod.splits option.splits)
qed

definition one_per_window :: redis_limiter where
  "one_per_window =
    \<lparr>sl_max_requests = 1, sl_window_ms = 10000, sl_fingerprint_secret = replicate 32 0\<rparr>"

definition empty_world :: "kv redis_world" where
  "empty_world = \<lparr>rw_server = Map.empty, rw_unavailable_total = 0, rw_warnings = []\<rparr>"

section \<open>Properties\<close>



text \<open>
  No key is left without an expiry: whatever the script finds, a fresh key, a counter in its
  window or a counter that lost its deadline, after it the key is counted and expires at a later
  time; a deadline already running is kept, any other one is set to a full window from now.
\<close>

theorem redis_key_always_expires:
  assumes "redis_counter_laws call entry" "0 < window_ms"
  shows "\<exists>n d. entry (fst (incr_and_expire (call t) k window_ms st)) k = Some (n, Some d) \<and> t < d \<and>
    n = snd (incr_and_expire (call t) k window_ms st) \<and>
    (d = t + of_int window_ms / 1000 \<or> (\<exists>m. live_entry entry st t k = Some (m, Some d)))"
proof -
  obtain n d where nd: "(n, d) = (case live_entry entry st t k of None \<Rightarrow> (0, None) | Some e \<Rightarrow> e)"
    by (metis surj_pair)
  have "t < t + of_int window_ms / 1000" using assms(2) by simp
  moreover have "live_entry entry st t k = Some (n, Some x) \<and> t < x" if "d = Some x" for x
    using nd that by (auto dest: live_later split: option.splits)
  ultimately show ?thesis
    using script_effect [OF assms nd] by (cases "n = 0 \<or> d = None") auto
qed

theorem redis_key_always_expires_witness:
  "\<exists>n d. fst (incr_and_expire (kv_call 5) ''k'' 10000 [''k'' \<mapsto> (3, None)]) ''k'' = Some (n, Some d)
     \<and> 5 < d"
  using redis_key_always_expires [OF kv_laws, of 10000 5 "''k''" "[''k'' \<mapsto> (3, None)]"] by auto

lemma length_fingerprint: "length (fingerprint self key) = 12" "list_all is_hex (fingerprint self key)"
proof -
  have "length (hmac_sha256 (sl_fingerprint_secret self) (utf8_encode key)) = 32"
    by (simp add: hmac_sha256_def)
  then show "length (fingerprint self key) = 12" by (simp add: fingerprint_def bytes_hex_shape)
  show "list_all is_hex (fingerprint self key)"
    using bytes_hex_shape(2) [of "hmac_sha256 (sl_fingerprint_secret self) (utf8_encode key)"]
    by (auto simp: fingerprint_def list_all_iff dest: in_set_takeD)
qed

text \<open>
  The limiter fails open and says so: when the client raises, the call is admitted, the
  fail-open counter is incremented and one warning is logged, which is the 12 hexadecimal digits
  of the keyed fingerprint and nothing else of the key; when it answers, the answer decides and
  neither counter nor log changes.
\<close>

theorem redis_fails_open:
  "let script = incr_and_expire (call now) (full_key key) (sl_window_ms self);
       (s', admitted) = redis_allow eval call self s now key
   in case snd (eval script now (rw_server s)) of
        None \<Rightarrow> admitted \<and> rw_unavailable_total s' = rw_unavailable_total s + 1 \<and>
          rw_warnings s' = rw_warnings s @ [fingerprint self key] \<and>
          length (fingerprint self key) = 12 \<and> list_all is_hex (fingerprint self key)
      | Some count \<Rightarrow> (admitted \<longleftrightarrow> count \<le> sl_max_requests self) \<and>
          rw_unavailable_total s' = rw_unavailable_total s \<and> rw_warnings s' = rw_warnings s"
  by (simp add: redis_allow_def Let_def length_fingerprint split: prod.splits option.splits)

text \<open>A window is never shorter than a millisecond: \<open>PEXPIRE\<close> never deletes the key.\<close>

lemma redis_window_positive:
  "RedisRateLimiter times1000 secret n w fs = Inr self \<Longrightarrow> 1 \<le> sl_window_ms self"
  by (auto simp: RedisRateLimiter_def split: pyfloat.splits if_splits)

end
