(* ===== verification/Uuid.thy ===== *)
theory Uuid
  imports Prelude "HOL-Library.Word"
begin

text \<open>
  \<open>uuid.UUID\<close> of the standard library: a 128-bit value, its canonical text (\<open>str\<close>) and its
  constructor from text, which also accepts a \<open>urn:uuid:\<close> prefix, braces, upper case, misplaced
  hyphens and whatever else \<open>int(text, 16)\<close> reads in 32 characters.
\<close>

type_synonym uuid = "128 word"

section \<open>Hexadecimal digits\<close>

fun hex_fixed :: "nat \<Rightarrow> nat \<Rightarrow> string" where
  "hex_fixed 0 v = []"
| "hex_fixed (Suc n) v = hex_fixed n (v div 16) @ [hex_char (v mod 16)]"

definition hex_value :: "char \<Rightarrow> nat option" where
  "hex_value c = map_of (zip ''0123456789abcdefABCDEF''
     ([0..<10] @ [10..<16] @ [10..<16])) c"

text \<open>
  The digits part of \<open>int(text, 16)\<close>: single underscores may stand between digits.
  \<open>prev\<close> tells whether the previous character was a digit.
\<close>

fun hex_digits :: "nat \<Rightarrow> bool \<Rightarrow> string \<Rightarrow> nat option" where
  "hex_digits acc prev [] = (if prev then Some acc else None)"
| "hex_digits acc prev (c # s) =
    (if c = CHR ''_'' then (if prev then hex_digits acc False s else None)
     else case hex_value c of None \<Rightarrow> None | Some d \<Rightarrow> hex_digits (16 * acc + d) True s)"

definition strip_sign :: "string \<Rightarrow> string" where
  "strip_sign s = (case s of c # t \<Rightarrow> (if c = CHR ''+'' then t else s) | [] \<Rightarrow> [])"

definition strip_0x :: "string \<Rightarrow> string" where
  "strip_0x s = (case s of
      z # x # t \<Rightarrow> (if z = CHR ''0'' \<and> (x = CHR ''x'' \<or> x = CHR ''X'')
        then (case t of u # t' \<Rightarrow> (if u = CHR ''_'' then t' else t) | [] \<Rightarrow> t) else s)
    | _ \<Rightarrow> s)"

text \<open>\<open>int(text, 16)\<close> for a text without a minus sign.\<close>

definition int_base16 :: "string \<Rightarrow> nat option" where
  "int_base16 s = hex_digits 0 False (strip_0x (strip_sign (py_strip s)))"

lemma length_hex_fixed [simp]: "length (hex_fixed n v) = n"
  by (induction n arbitrary: v) simp_all

lemma below_n: "list_all Q [0..<n] \<Longrightarrow> d < n \<Longrightarrow> Q d"
  by (simp add: list_all_iff)

lemma hex_value_digits: "list_all (\<lambda>d. hex_value (hex_char d) = Some d) [0..<16]"
  by code_simp

lemma hex_value_char: "d < 16 \<Longrightarrow> hex_value (hex_char d) = Some d"
  by (rule below_n [OF hex_value_digits])

lemma hex_char_in: "d < 16 \<Longrightarrow> hex_char d \<in> set ''0123456789abcdef''"
  unfolding hex_char_def by (rule nth_mem) simp

definition plain_hex :: "char \<Rightarrow> bool" where
  "plain_hex c \<longleftrightarrow> is_hex c \<and> id_char c \<and> \<not> py_space c \<and> c \<notin> set ''_+-xXurni:{}''"

lemma plain_hex_digits: "list_all plain_hex ''0123456789abcdef''"
  by code_simp

lemma hex_char_plain: "d < 16 \<Longrightarrow> plain_hex (hex_char d)"
  using plain_hex_digits hex_char_in unfolding list_all_iff by blast

lemma hex_fixed_plain: "c \<in> set (hex_fixed n v) \<Longrightarrow> plain_hex c"
proof (induction n arbitrary: v)
  case 0
  then show ?case by simp
next
  case (Suc n)
  then show ?case using hex_char_plain [of "v mod 16"] by auto
qed

lemma hex_digits_plain:
  "hex_digits acc prev (hex_fixed n v @ s) =
    hex_digits (acc * 16 ^ n + v mod 16 ^ n) (prev \<or> 0 < n) s"
proof (induction n arbitrary: v s)
  case 0
  then show ?case by simp
next
  case (Suc n)
  have "plain_hex (hex_char (v mod 16))" by (rule hex_char_plain) simp
  then have "hex_char (v mod 16) \<noteq> CHR ''_''" by (auto simp: plain_hex_def)
  then have "hex_digits acc prev (hex_fixed (Suc n) v @ s) =
      hex_digits (16 * (acc * 16 ^ n + v div 16 mod 16 ^ n) + v mod 16) True s"
    by (simp add: Suc.IH hex_value_char)
  also have "16 * (acc * 16 ^ n + v div 16 mod 16 ^ n) + v mod 16 =
      acc * 16 ^ Suc n + v mod 16 ^ Suc n"
    using mod_mult2_eq [of v 16 "16 ^ n"] by simp
  finally show ?case by simp
qed

section \<open>Text of a UUID\<close>

definition uuid_hex :: "uuid \<Rightarrow> string" where
  "uuid_hex u = hex_fixed 32 (unat u)"

definition uuid_str :: "uuid \<Rightarrow> string" where
  "uuid_str u = (let h = uuid_hex u in
     take 8 h @ ''-'' @ take 4 (drop 8 h) @ ''-'' @ take 4 (drop 12 h) @ ''-''
       @ take 4 (drop 16 h) @ ''-'' @ drop 20 h)"

text \<open>\<open>text.replace(sub, '')\<close>\<close>

function str_remove :: "string \<Rightarrow> string \<Rightarrow> string" where
  "str_remove sub [] = []"
| "str_remove sub (c # s) =
    (if sub \<noteq> [] \<and> take (length sub) (c # s) = sub
     then str_remove sub (drop (length sub) (c # s)) else c # str_remove sub s)"
  by pat_completeness auto
termination
  by (relation "measure (length \<circ> snd)") (auto simp: neq_Nil_conv)

definition parse_uuid :: "string \<Rightarrow> uuid option" where
  "parse_uuid text =
    (let h = str_remove ''uuid:'' (str_remove ''urn:'' text);
         h = str_remove ''-'' (strip_both (\<lambda>c. c = CHR ''{'' \<or> c = CHR ''}'') h)
     in if length h \<noteq> 32 then None else map_option of_nat (int_base16 h))"

lemma str_remove_absent: "sub \<noteq> [] \<Longrightarrow> hd sub \<notin> set s \<Longrightarrow> str_remove sub s = s"
proof (induction s)
  case Nil
  then show ?case by simp
next
  case (Cons c s)
  then have "take (length sub) (c # s) \<noteq> sub" by (cases sub) auto
  with Cons show ?case by simp
qed

lemma str_remove_char_append:
  "str_remove [x] (s @ t) = str_remove [x] s @ str_remove [x] t"
  by (induction s) auto

lemma str_remove_char: "str_remove [x] s = filter (\<lambda>c. c \<noteq> x) s"
  by (induction s) auto

lemma take_drop_join: "take n (drop m h) @ drop (m + n) h = drop m h"
  by (metis append_take_drop_id drop_drop add.commute)

lemma uuid_hex_split:
  fixes u
  defines "h \<equiv> uuid_hex u"
  shows "take 8 h @ take 4 (drop 8 h) @ take 4 (drop 12 h) @ take 4 (drop 16 h) @ drop 20 h = h"
  using take_drop_join [of 4 16 h] take_drop_join [of 4 12 h] take_drop_join [of 4 8 h] by simp

lemma uuid_hex_plain: "c \<in> set (uuid_hex u) \<Longrightarrow> plain_hex c"
  by (simp add: uuid_hex_def hex_fixed_plain)

lemma uuid_str_remove_dashes: "str_remove ''-'' (uuid_str u) = uuid_hex u"
proof -
  have no_dash: "c \<in> set (uuid_hex u) \<Longrightarrow> c \<noteq> CHR ''-''" for c
    using uuid_hex_plain [of c u] by (auto simp: plain_hex_def)
  have keep: "set s \<subseteq> set (uuid_hex u) \<Longrightarrow> filter (\<lambda>c. c \<noteq> CHR ''-'') s = s" for s
    using no_dash by (auto simp: filter_id_conv)
  have "str_remove ''-'' (uuid_str u) =
    take 8 (uuid_hex u) @ take 4 (drop 8 (uuid_hex u)) @ take 4 (drop 12 (uuid_hex u))
      @ take 4 (drop 16 (uuid_hex u)) @ drop 20 (uuid_hex u)"
    by (simp add: uuid_str_def Let_def str_remove_char keep order_trans [OF set_take_subset]
        order_trans [OF set_take_subset set_drop_subset] set_drop_subset set_take_subset)
  then show ?thesis by (simp only: uuid_hex_split)
qed

lemma set_uuid_str: "set (uuid_str u) \<subseteq> set (uuid_hex u) \<union> {CHR ''-''}"
proof
  fix c assume c: "c \<in> set (uuid_str u)"
  show "c \<in> set (uuid_hex u) \<union> {CHR ''-''}"
  proof (cases "c = CHR ''-''")
    case False
    with c have "c \<in> set (str_remove ''-'' (uuid_str u))" by (simp add: str_remove_char)
    then show ?thesis by (simp add: uuid_str_remove_dashes)
  qed simp
qed

lemma length_uuid_str [simp]: "length (uuid_str u) = 36"
  by (simp add: uuid_str_def Let_def uuid_hex_def)

lemma dash_char: "id_char CHR ''-''" "CHR ''-'' \<notin> set ''u{}''"
  by code_simp+

lemma plain_hex_not: "plain_hex c \<Longrightarrow> c \<notin> set ''u{}''"
  by (simp add: plain_hex_def)

lemma uuid_str_chars:
  "c \<in> set (uuid_str u) \<Longrightarrow> (is_hex c \<or> c = CHR ''-'') \<and> id_char c \<and> c \<notin> set ''u{}''"
proof -
  assume "c \<in> set (uuid_str u)"
  then consider "plain_hex c" | "c = CHR ''-''"
    using set_uuid_str uuid_hex_plain by blast
  then show ?thesis
    by cases (use dash_char plain_hex_not in \<open>simp_all add: plain_hex_def\<close>)
qed

lemma uuid_bound: "unat u < 16 ^ 32" for u :: uuid
  using unsigned_less [where 'a = nat, of u] by simp

lemma uuid_str_inject: "uuid_str u = uuid_str v \<longleftrightarrow> u = v"
proof
  assume "uuid_str u = uuid_str v"
  then have "uuid_hex u = uuid_hex v" by (metis uuid_str_remove_dashes)
  then have "hex_digits 0 False (uuid_hex u @ []) = hex_digits 0 False (uuid_hex v @ [])" by simp
  then have "unat u mod 16 ^ 32 = unat v mod 16 ^ 32"
    by (simp only: uuid_hex_def hex_digits_plain) simp
  moreover have "unat w < 16 ^ 32" for w :: uuid
    by (rule uuid_bound)
  ultimately show "u = v" by (simp add: word_unat_eq_iff)
qed simp

text \<open>The constructor reads back what \<open>str\<close> prints.\<close>

lemma parse_uuid_str: "parse_uuid (uuid_str u) = Some u"
proof -
  let ?h = "uuid_hex u" and ?t = "uuid_str u"
  have set: "c \<in> set ?t \<Longrightarrow> c \<notin> set ''u{}''" for c
    using uuid_str_chars by blast
  then have no_u: "CHR ''u'' \<notin> set ?t" and "\<forall>c \<in> set ?t. \<not> (c = CHR ''{'' \<or> c = CHR ''}'')"
    by auto
  then have "strip_both (\<lambda>c. c = CHR ''{'' \<or> c = CHR ''}'') ?t = ?t"
    by (intro strip_both_none)
  moreover have "str_remove ''urn:'' ?t = ?t" "str_remove ''uuid:'' ?t = ?t"
    using no_u by (simp_all add: str_remove_absent)
  moreover have "\<forall>c \<in> set ?h. \<not> py_space c"
    using uuid_hex_plain [of _ u] by (simp add: plain_hex_def)
  then have "py_strip ?h = ?h" unfolding py_strip_def by (rule strip_both_none)
  moreover have no_signs: "CHR ''+'' \<notin> set ?h" "CHR ''x'' \<notin> set ?h" "CHR ''X'' \<notin> set ?h"
    using uuid_hex_plain [of _ u] by (force simp: plain_hex_def)+
  then have "strip_sign ?h = ?h" "strip_0x ?h = ?h"
    by (auto simp: strip_sign_def strip_0x_def split: list.splits)
  moreover have "hex_digits 0 False ?h = Some (unat u)"
    using hex_digits_plain [of 0 False 32 "unat u" "[]"] uuid_bound [of u]
    by (simp add: uuid_hex_def)
  moreover have "length ?h = 32" by (simp add: uuid_hex_def)
  ultimately show ?thesis
    by (simp add: parse_uuid_def Let_def uuid_str_remove_dashes int_base16_def)
qed

end
