(* ===== verification/Authorization_Domain.thy ===== *)
theory Authorization_Domain
  imports Uuid Bytes
begin

text \<open>
  The authorization domain (\<open>domain/runtime_authorization.py\<close>): its error, instants and
  datetimes, the trusted key set, and the codec of base64url text and signatures.

  An Ed25519 public key is a parameter type \<open>'k\<close>: the cryptography library provides it.
\<close>

section \<open>Errors and time\<close>

text \<open>
  What a coroutine of the authorization path may raise: the domain's fail-closed error with its
  code, message and \<open>authorization_verified\<close> flag, or any other exception, by type name.
\<close>

datatype auth_error =
    RuntimeAuthorizationError (err_code: string) (err_message: string) (err_verified: bool)
  | OtherException (exc_type: string)

abbreviation value_error :: auth_error where
  "value_error \<equiv> OtherException ''ValueError''"

text \<open>
  An instant is its distance to the epoch in UTC, in microseconds. A \<open>datetime\<close> is a wall clock
  reading with a UTC offset, or none for a naive one.
\<close>

type_synonym instant = int

abbreviation seconds :: "int \<Rightarrow> int" where
  "seconds n \<equiv> n * 1000000"

datatype datetime = Datetime (dt_wall: int) (dt_offset: "int option")

definition require_utc :: "datetime \<Rightarrow> (auth_error, unit) result" where
  "require_utc value =
    raise_if (dt_offset value = None \<or> dt_offset value \<noteq> Some 0)
      (RuntimeAuthorizationError ''invalid_time''
        ''Runtime authorization verification time must be UTC'' False)"

lemma require_utc_iff: "require_utc v = Inr u \<longleftrightarrow> dt_offset v = Some 0"
  by (auto simp: require_utc_def result_iffs)

section \<open>Trusted keys\<close>

datatype key_status = ACTIVE_KEY | RETIRING_KEY | REVOKED_KEY

record 'k trusted_key =
  tk_kid :: string
  tk_status :: key_status
  tk_public_key :: 'k
  tk_not_before :: instant
  tk_verify_until :: instant

record 'k key_set =
  ks_generation :: int
  ks_keys :: "'k trusted_key list"

definition resolve_key :: "'k key_set \<Rightarrow> string \<Rightarrow> 'k trusted_key option" where
  "resolve_key ks kid = find (\<lambda>key. tk_kid key = kid) (ks_keys ks)"

lemma resolve_key_SomeD:
  "resolve_key ks kid = Some k \<Longrightarrow> k \<in> set (ks_keys ks) \<and> tk_kid k = kid"
  by (auto simp: resolve_key_def find_Some_iff)

text \<open>With distinct key identifiers, resolution is independent of the order of the keys.\<close>

lemma resolve_key_distinct:
  assumes "distinct (map tk_kid (ks_keys ks))"
  shows "resolve_key ks kid = Some k \<longleftrightarrow> k \<in> set (ks_keys ks) \<and> tk_kid k = kid"
proof
  assume k: "k \<in> set (ks_keys ks) \<and> tk_kid k = kid"
  then obtain k' where k': "resolve_key ks kid = Some k'"
    unfolding resolve_key_def by (cases "find (\<lambda>key. tk_kid key = kid) (ks_keys ks)")
      (auto simp: find_None_iff)
  with k resolve_key_SomeD [OF k'] assms have "k' = k"
    by (auto simp: distinct_map dest: inj_onD)
  with k' show "resolve_key ks kid = Some k" by simp
qed (rule resolve_key_SomeD)

section \<open>Base64\<close>

definition b64_alphabet :: string where
  "b64_alphabet = ''ABCDEFGHIJKLMNOPQRSTUVWXYZabcdefghijklmnopqrstuvwxyz0123456789+/''"

definition b64_value :: "char \<Rightarrow> nat option" where
  "b64_value c = map_of (zip b64_alphabet [0..<64]) c"

text \<open>
  The strict decoder of \<open>binascii.a2b_base64\<close>: position in the quad, pending bits, padding seen
  in this quad, whether padding has started, and the output so far.
\<close>

fun b64_loop :: "nat \<Rightarrow> nat \<Rightarrow> nat \<Rightarrow> bool \<Rightarrow> bytes \<Rightarrow> string \<Rightarrow> bytes option" where
  "b64_loop q l p st out [] = (if q = 0 then Some out else None)"
| "b64_loop q l p st out (c # s) =
    (if c = CHR ''='' then
       (if 2 \<le> q \<and> 4 \<le> q + Suc p then (if s = [] then Some out else None)
        else b64_loop q l (if 2 \<le> q then Suc p else p) True out s)
     else case b64_value c of
            None \<Rightarrow> None
          | Some v \<Rightarrow>
            (if st then None
             else if q = 0 then b64_loop 1 v 0 st out s
             else if q = 1 then b64_loop 2 (v mod 16) 0 st (out @ [of_nat (l * 4 + v div 16)]) s
             else if q = 2 then b64_loop 3 (v mod 4) 0 st (out @ [of_nat (l * 16 + v div 4)]) s
             else b64_loop 0 0 0 st (out @ [of_nat (l * 64 + v)]) s))"

definition a2b_base64_strict :: "string \<Rightarrow> bytes option" where
  "a2b_base64_strict s =
    (if s \<noteq> [] \<and> hd s = CHR ''='' then None else b64_loop 0 0 0 False [] s)"

text \<open>\<open>altchars=b"-_"\<close> maps \<open>-\<close> to \<open>+\<close> and \<open>_\<close> to \<open>/\<close>, and leaves \<open>+\<close> and \<open>/\<close> as they are.\<close>

definition altchars :: "char \<Rightarrow> char" where
  "altchars c = (if c = CHR ''-'' then CHR ''+'' else if c = CHR ''_'' then CHR ''/'' else c)"

definition decode_base64url :: "string \<Rightarrow> (auth_error, bytes) result" where
  "decode_base64url text =
    rbind (raise_if (\<not> list_all is_ascii text) value_error) (\<lambda>_.
    let padding = replicate ((4 - length text mod 4) mod 4) (CHR ''='')
    in some_or (a2b_base64_strict (map altchars (text @ padding))) value_error)"

definition decode_signature :: "string \<Rightarrow> (auth_error, bytes) result" where
  "decode_signature text =
    rbind (decode_base64url text) (\<lambda>decoded.
    rbind (raise_if (length decoded \<noteq> 64) value_error) (\<lambda>_. Inr decoded))"

subsection \<open>The length of the decoded text\<close>

text \<open>Bits waiting in an incomplete quad.\<close>

fun pending :: "nat \<Rightarrow> nat" where
  "pending 0 = 0"
| "pending (Suc 0) = 6"
| "pending (Suc (Suc 0)) = 4"
| "pending _ = 2"

definition b64_data :: "char \<Rightarrow> bool" where
  "b64_data c \<longleftrightarrow> b64_value c \<noteq> None \<and> c \<noteq> CHR ''=''"

lemma b64_steps:
  assumes "b64_value c = Some v" "c \<noteq> CHR ''=''"
  shows "b64_loop 0 l p False out (c # s) = b64_loop 1 v 0 False out s"
    "b64_loop 1 l p False out (c # s) =
      b64_loop 2 (v mod 16) 0 False (out @ [of_nat (l * 4 + v div 16)]) s"
    "b64_loop 2 l p False out (c # s) =
      b64_loop 3 (v mod 4) 0 False (out @ [of_nat (l * 16 + v div 4)]) s"
    "b64_loop 3 l p False out (c # s) = b64_loop 0 0 0 False (out @ [of_nat (l * 64 + v)]) s"
  using assms by simp_all

lemma pending_simps: "pending 1 = 6" "pending 2 = 4" "pending 3 = 2"
  by (simp_all add: numeral_eq_Suc)

lemma b64_step:
  assumes "b64_data c" "q < 4"
  obtains l' out' where "b64_loop q l p False out (c # s) = b64_loop (Suc q mod 4) l' 0 False out' s"
    "8 * length out' + pending (Suc q mod 4) = 8 * length out + pending q + 6"
proof -
  obtain v where v: "b64_value c = Some v" "c \<noteq> CHR ''=''" using assms(1) by (auto simp: b64_data_def)
  note steps = b64_steps [OF v, of l p out s]
  consider "q = 0" | "q = 1" | "q = 2" | "q = 3" using assms(2) by linarith
  then show ?thesis
  proof cases
    case 1
    with that [of v out] steps(1) show ?thesis by (simp add: pending_simps)
  next
    case 2
    with that [of "v mod 16" "out @ [of_nat (l * 4 + v div 16)]"] steps(2) show ?thesis
      by (simp add: pending_simps numeral_2_eq_2 [symmetric])
  next
    case 3
    with that [of "v mod 4" "out @ [of_nat (l * 16 + v div 4)]"] steps(3) show ?thesis
      by (simp add: pending_simps numeral_3_eq_3 [symmetric])
  next
    case 4
    with that [of 0 "out @ [of_nat (l * 64 + v)]"] steps(4) show ?thesis
      by (simp add: pending_simps)
  qed
qed

lemma b64_loop_data:
  assumes "list_all b64_data ds" "q < 4"
  shows "\<exists>l' out'. b64_loop q l 0 False out (ds @ s)
      = b64_loop ((q + length ds) mod 4) l' 0 False out' s
    \<and> 8 * length out' + pending ((q + length ds) mod 4) = 8 * length out + pending q + 6 * length ds"
  using assms
proof (induction ds arbitrary: q l out)
  case Nil
  then show ?case by auto
next
  case (Cons c ds)
  have "b64_data c" using Cons.prems(1) by simp
  then obtain l1 out1 where step:
    "b64_loop q l 0 False out (c # ds @ s) = b64_loop (Suc q mod 4) l1 0 False out1 (ds @ s)"
    "8 * length out1 + pending (Suc q mod 4) = 8 * length out + pending q + 6"
    using Cons.prems(2) by (rule b64_step)
  have mod: "(Suc q mod 4 + length ds) mod 4 = (q + length (c # ds)) mod 4" by (simp add: mod_simps)
  have "list_all b64_data ds" "Suc q mod 4 < 4" using Cons.prems(1) by simp_all
  from Cons.IH [OF this, of l1 out1] obtain l2 out2 where rest:
    "b64_loop (Suc q mod 4) l1 0 False out1 (ds @ s)
      = b64_loop ((q + length (c # ds)) mod 4) l2 0 False out2 s"
    "8 * length out2 + pending ((q + length (c # ds)) mod 4) =
      8 * length out1 + pending (Suc q mod 4) + 6 * length ds"
    unfolding mod by blast
  have "b64_loop q l 0 False out ((c # ds) @ s) = b64_loop ((q + length (c # ds)) mod 4) l2 0 False out2 s"
    using step(1) rest(1) by simp
  moreover have "8 * length out2 + pending ((q + length (c # ds)) mod 4) =
      8 * length out + pending q + 6 * length (c # ds)"
    using step(2) rest(2) by simp
  ultimately show ?case by blast
qed

text \<open>Text of the URL-safe alphabet, whose length is not one more than a multiple of four, decodes.\<close>

definition b64url_char :: "char \<Rightarrow> bool" where
  "b64url_char c \<longleftrightarrow> c \<in> set ''ABCDEFGHIJKLMNOPQRSTUVWXYZabcdefghijklmnopqrstuvwxyz0123456789_-''"

lemma b64url_chars:
  "list_all (\<lambda>c. b64_data (altchars c) \<and> is_ascii c)
    ''ABCDEFGHIJKLMNOPQRSTUVWXYZabcdefghijklmnopqrstuvwxyz0123456789_-''"
  by code_simp

lemma b64url_char_data: "b64url_char c \<Longrightarrow> b64_data (altchars c) \<and> is_ascii c"
  using b64url_chars unfolding b64url_char_def list_all_iff by blast

lemma b64_loop_padding:
  "b64_loop 2 l 0 False out ''=='' = Some out"
  "b64_loop 3 l 0 False out ''='' = Some out"
  "b64_loop 0 l 0 False out [] = Some out"
  by simp_all

lemma decode_base64url_length:
  assumes "list_all b64url_char t" "length t mod 4 \<noteq> 1"
  shows "\<exists>bs. decode_base64url t = Inr bs \<and> length bs = 6 * length t div 8"
proof -
  let ?pad = "replicate ((4 - length t mod 4) mod 4) (CHR ''='')"
  have data: "list_all b64_data (map altchars t)"
    using assms(1) by (auto simp: list_all_iff dest: b64url_char_data)
  have pad: "altchars CHR ''='' = CHR ''=''" by (simp add: altchars_def)
  obtain l out where loop:
    "b64_loop 0 0 0 False [] (map altchars t @ ?pad) = b64_loop (length t mod 4) l 0 False out ?pad"
    "8 * length out + pending (length t mod 4) = 6 * length t"
    using b64_loop_data [OF data, of 0 0 "[]" ?pad] by auto
  have "length t mod 4 < 4" by simp
  then consider "length t mod 4 = 0" | "length t mod 4 = 2" | "length t mod 4 = 3"
    using assms(2) by linarith
  then have res: "b64_loop 0 0 0 False [] (map altchars t @ ?pad) = Some out \<and> length out = 6 * length t div 8"
  proof cases
    case 1
    then show ?thesis unfolding loop(1) using loop(2) by simp
  next
    case 2
    then show ?thesis unfolding loop(1) using loop(2) b64_loop_padding(1) [of l out]
      by (simp add: pending_simps numeral_2_eq_2)
  next
    case 3
    then show ?thesis unfolding loop(1) using loop(2) b64_loop_padding(2) [of l out]
      by (simp add: pending_simps)
  qed
  have "\<not> (map altchars t @ ?pad \<noteq> [] \<and> hd (map altchars t @ ?pad) = CHR ''='')"
  proof (cases t)
    case Nil
    then show ?thesis by simp
  next
    case (Cons c u)
    with data show ?thesis by (simp add: b64_data_def)
  qed
  then have "a2b_base64_strict (map altchars t @ ?pad) = Some out"
    using res by (simp add: a2b_base64_strict_def)
  moreover have "list_all is_ascii t"
    using assms(1) by (auto simp: list_all_iff dest: b64url_char_data)
  ultimately show ?thesis
    using res by (simp add: decode_base64url_def Let_def raise_if_def pad)
qed

end
