(* ===== verification/Json.thy ===== *)
theory Json
  imports Prelude "HOL-Library.Multiset"
begin

text \<open>
  \<open>json.loads\<close> and \<open>json.dumps\<close> of the standard library, on the strings of the model (code
  points up to U+00FF).

  \<^item> A float keeps its source text: the program never computes with one, it only rejects it.
  \<^item> An \<open>\\u\<close> escape above U+00FF yields \<open>Beyond\<close>: the text is outside the model.
  \<^item> \<open>int\<close> refuses more than 4300 digits with a plain \<open>ValueError\<close>.
  \<^item> The interpreter's recursion limit is not modelled.
\<close>

datatype json =
    JNull
  | JBool bool
  | JInt int
  | JFloat string
  | JStr string
  | JArr "json list"
  | JObj "(string \<times> json) list"

datatype json_error = JSONDecodeError | IntTooLong | Beyond | OutOfFuel

section \<open>Reading\<close>

definition json_space :: "char \<Rightarrow> bool" where
  "json_space c \<longleftrightarrow> c = CHR '' '' \<or> c = CHR 0x09 \<or> c = CHR 0x0A \<or> c = CHR 0x0D"

definition skip_ws :: "string \<Rightarrow> string" where
  "skip_ws s = dropWhile json_space s"

definition hex_digit :: "char \<Rightarrow> nat option" where
  "hex_digit c = map_of (zip ''0123456789abcdefABCDEF''
     ([0..<10] @ [10..<16] @ [10..<16])) c"

definition hex4 :: "char \<Rightarrow> char \<Rightarrow> char \<Rightarrow> char \<Rightarrow> nat option" where
  "hex4 a b c d =
    (case (hex_digit a, hex_digit b, hex_digit c, hex_digit d) of
       (Some w, Some x, Some y, Some z) \<Rightarrow> Some (4096 * w + 256 * x + 16 * y + z)
     | _ \<Rightarrow> None)"

definition unescape :: "char \<Rightarrow> char option" where
  "unescape c =
    (if c = CHR 0x22 \<or> c = CHR 0x5C \<or> c = CHR ''/'' then Some c
     else if c = CHR ''b'' then Some (CHR 0x08)
     else if c = CHR ''f'' then Some (CHR 0x0C)
     else if c = CHR ''n'' then Some (CHR 0x0A)
     else if c = CHR ''r'' then Some (CHR 0x0D)
     else if c = CHR ''t'' then Some (CHR 0x09)
     else None)"

definition cons_char :: "char \<Rightarrow> (json_error, string \<times> string) result \<Rightarrow>
    (json_error, string \<times> string) result" where
  "cons_char c r = rbind r (\<lambda>(x, rest). Inr (c # x, rest))"

text \<open>The characters of a string up to its closing quote, and what follows it.\<close>

fun scan_str :: "string \<Rightarrow> (json_error, string \<times> string) result" where
  "scan_str [] = Inl JSONDecodeError"
| "scan_str (c # s) =
    (if c = CHR 0x22 then Inr ([], s)
     else if c = CHR 0x5C then
       (case s of
          [] \<Rightarrow> Inl JSONDecodeError
        | e # t \<Rightarrow>
          (if e = CHR ''u'' then
             (case t of
                h1 # h2 # h3 # h4 # rest \<Rightarrow>
                  (case hex4 h1 h2 h3 h4 of
                     None \<Rightarrow> Inl JSONDecodeError
                   | Some n \<Rightarrow> (if 256 \<le> n then Inl Beyond else cons_char (char_of n) (scan_str rest)))
              | _ \<Rightarrow> Inl JSONDecodeError)
           else (case unescape e of
                   None \<Rightarrow> Inl JSONDecodeError
                 | Some x \<Rightarrow> cons_char x (scan_str t))))
     else if (of_char c :: nat) < 32 then Inl JSONDecodeError
     else cons_char c (scan_str s))"

definition digit_value :: "char \<Rightarrow> nat" where
  "digit_value c = of_char c - 48"

definition digits_value :: "string \<Rightarrow> nat" where
  "digits_value ds = foldl (\<lambda>n c. 10 * n + digit_value c) 0 ds"

definition int_limit :: nat where "int_limit = 4300"

text \<open>
  A number: the integer part is \<open>0\<close> or starts with a non-zero digit; a fraction needs a digit
  after the point and an exponent a digit after its sign, otherwise the number ends before it.
\<close>

definition scan_frac :: "string \<Rightarrow> string \<times> string" where
  "scan_frac s = (case s of
      p # d # t \<Rightarrow> (if p = CHR ''.'' \<and> is_digit d
        then (p # d # takeWhile is_digit t, dropWhile is_digit t) else ([], s))
    | _ \<Rightarrow> ([], s))"

definition scan_exp :: "string \<Rightarrow> string \<times> string" where
  "scan_exp s = (case s of
      e # t \<Rightarrow> (if e = CHR ''e'' \<or> e = CHR ''E'' then
        (let (sg, u) = (case t of
               g # u \<Rightarrow> (if g = CHR ''+'' \<or> g = CHR ''-'' then ([g], u) else ([], t))
             | [] \<Rightarrow> ([], t));
             ds = takeWhile is_digit u
         in if ds = [] then ([], s) else (e # sg @ ds, dropWhile is_digit u))
       else ([], s))
    | [] \<Rightarrow> ([], s))"

definition scan_number :: "string \<Rightarrow> (json_error, json \<times> string) result" where
  "scan_number s =
    (let (neg, t) = (case s of c # u \<Rightarrow> (if c = CHR ''-'' then (True, u) else (False, s))
                     | [] \<Rightarrow> (False, s))
     in case t of
          [] \<Rightarrow> Inl JSONDecodeError
        | c # u \<Rightarrow>
          (if \<not> is_digit c then Inl JSONDecodeError
           else let (ds, rest) = (if c = CHR ''0'' then ([c], u)
                                  else (c # takeWhile is_digit u, dropWhile is_digit u));
                    (fr, rest') = scan_frac rest; (ex, rest'') = scan_exp rest'
                in if fr = [] \<and> ex = [] then
                     (if int_limit < length ds then Inl IntTooLong
                      else Inr (JInt (if neg then - int (digits_value ds) else int (digits_value ds)),
                        rest''))
                   else Inr (JFloat ((if neg then ''-'' else []) @ ds @ fr @ ex), rest'')))"

definition scan_word :: "string \<Rightarrow> (json_error, json \<times> string) result" where
  "scan_word s =
    (if take 4 s = ''null'' then Inr (JNull, drop 4 s)
     else if take 4 s = ''true'' then Inr (JBool True, drop 4 s)
     else if take 5 s = ''false'' then Inr (JBool False, drop 5 s)
     else if take 3 s = ''NaN'' then Inr (JFloat ''NaN'', drop 3 s)
     else if take 8 s = ''Infinity'' then Inr (JFloat ''Infinity'', drop 8 s)
     else if take 9 s = ''-Infinity'' then Inr (JFloat ''-Infinity'', drop 9 s)
     else scan_number s)"

text \<open>\<open>dict(pairs)\<close>: a repeated key keeps its first place and takes its last value.\<close>

definition dict_of_pairs :: "(string \<times> json) list \<Rightarrow> (string \<times> json) list" where
  "dict_of_pairs kvs = fold (\<lambda>(k, v). dict_set k v) kvs []"

text \<open>
  The recursive descent. Between two calls of \<open>scan_value\<close> at least one character is consumed, so
  a fuel of twice the length of the text, and a little, is enough.
\<close>

fun scan_value :: "nat \<Rightarrow> string \<Rightarrow> (json_error, json \<times> string) result"
  and scan_items :: "nat \<Rightarrow> string \<Rightarrow> (json_error, json list \<times> string) result"
  and scan_pairs :: "nat \<Rightarrow> string \<Rightarrow> (json_error, (string \<times> json) list \<times> string) result" where
  "scan_value 0 s = Inl OutOfFuel"
| "scan_value (Suc n) [] = Inl JSONDecodeError"
| "scan_value (Suc n) (c # s) =
    (if c = CHR 0x22 then rbind (scan_str s) (\<lambda>(x, rest). Inr (JStr x, rest))
     else if c = CHR ''{'' then
       (let t = skip_ws s in
        if t \<noteq> [] \<and> hd t = CHR ''}'' then Inr (JObj [], tl t)
        else rbind (scan_pairs n t) (\<lambda>(kvs, rest). Inr (JObj (dict_of_pairs kvs), rest)))
     else if c = CHR ''['' then
       (let t = skip_ws s in
        if t \<noteq> [] \<and> hd t = CHR '']'' then Inr (JArr [], tl t)
        else rbind (scan_items n t) (\<lambda>(xs, rest). Inr (JArr xs, rest)))
     else scan_word (c # s))"
| "scan_items 0 s = Inl OutOfFuel"
| "scan_items (Suc n) s =
    rbind (scan_value n s) (\<lambda>(x, rest).
    (case skip_ws rest of
       [] \<Rightarrow> Inl JSONDecodeError
     | c # t \<Rightarrow>
       (if c = CHR '']'' then Inr ([x], t)
        else if c = CHR '','' then
          rbind (scan_items n (skip_ws t)) (\<lambda>(xs, rest). Inr (x # xs, rest))
        else Inl JSONDecodeError)))"
| "scan_pairs 0 s = Inl OutOfFuel"
| "scan_pairs (Suc n) [] = Inl JSONDecodeError"
| "scan_pairs (Suc n) (q # s) =
    (if q \<noteq> CHR 0x22 then Inl JSONDecodeError
     else rbind (scan_str s) (\<lambda>(k, rest).
       (case skip_ws rest of
          [] \<Rightarrow> Inl JSONDecodeError
        | c # t \<Rightarrow>
          (if c \<noteq> CHR '':'' then Inl JSONDecodeError
           else rbind (scan_value n (skip_ws t)) (\<lambda>(v, rest).
             (case skip_ws rest of
                [] \<Rightarrow> Inl JSONDecodeError
              | c # t \<Rightarrow>
                (if c = CHR ''}'' then Inr ([(k, v)], t)
                 else if c = CHR '','' then
                   rbind (scan_pairs n (skip_ws t)) (\<lambda>(kvs, rest). Inr ((k, v) # kvs, rest))
                 else Inl JSONDecodeError)))))))"

definition json_loads :: "string \<Rightarrow> (json_error, json) result" where
  "json_loads s =
    rbind (scan_value (2 * length s + 2) (skip_ws s)) (\<lambda>(v, rest).
    if skip_ws rest = [] then Inr v else Inl JSONDecodeError)"

section \<open>Writing\<close>

definition escape_char :: "char \<Rightarrow> string" where
  "escape_char c =
    (if c = CHR 0x22 \<or> c = CHR 0x5C then [CHR 0x5C, c]
     else if c = CHR 0x08 then [CHR 0x5C, CHR ''b'']
     else if c = CHR 0x0C then [CHR 0x5C, CHR ''f'']
     else if c = CHR 0x0A then [CHR 0x5C, CHR ''n'']
     else if c = CHR 0x0D then [CHR 0x5C, CHR ''r'']
     else if c = CHR 0x09 then [CHR 0x5C, CHR ''t'']
     else (let n = of_char c :: nat in
       if n < 32 then CHR 0x5C # ''u00'' @ [hex_char (n div 16), hex_char (n mod 16)] else [c]))"

definition json_quote :: "string \<Rightarrow> string" where
  "json_quote s = [CHR 0x22] @ concat (map escape_char s) @ [CHR 0x22]"

text \<open>\<open>sort_keys=True\<close>, at every level.\<close>

fun sort_keys :: "json \<Rightarrow> json" where
  "sort_keys (JArr xs) = JArr (map sort_keys xs)"
| "sort_keys (JObj kvs) = JObj (sort_key fst (map (map_prod id sort_keys) kvs))"
| "sort_keys v = v"

text \<open>The text with the separators \<open>,\<close> and \<open>:\<close> and \<open>ensure_ascii=False\<close>.\<close>

fun emit :: "json \<Rightarrow> string" where
  "emit JNull = ''null''"
| "emit (JBool b) = (if b then ''true'' else ''false'')"
| "emit (JInt i) = int_str i"
| "emit (JFloat x) = x"
| "emit (JStr s) = json_quote s"
| "emit (JArr xs) = ''['' @ str_join '','' (map emit xs) @ '']''"
| "emit (JObj kvs) =
    ''{'' @ str_join '','' (map (\<lambda>(k, x). json_quote k @ '':'' @ x) (map (map_prod id emit) kvs))
      @ ''}''"

definition json_dumps :: "json \<Rightarrow> string" where
  "json_dumps v = emit (sort_keys v)"

section \<open>The fuel is enough\<close>

definition shorter :: "string \<Rightarrow> (json_error, 'a \<times> string) result \<Rightarrow> bool" where
  "shorter s r \<longleftrightarrow> r \<noteq> Inl OutOfFuel \<and> (\<forall>x t. r = Inr (x, t) \<longrightarrow> length t < length s)"

lemma shorter_Inl [simp]: "shorter s (Inl e) \<longleftrightarrow> e \<noteq> OutOfFuel"
  by (simp add: shorter_def)

lemma shorter_Inr [simp]: "shorter s (Inr (x, t)) \<longleftrightarrow> length t < length s"
  by (simp add: shorter_def)

lemma shorter_rbind:
  "shorter s r \<Longrightarrow> (\<And>x t. r = Inr (x, t) \<Longrightarrow> length t < length s \<Longrightarrow> shorter s' (f (x, t))) \<Longrightarrow>
    shorter s' (rbind r f)"
  by (cases r) (auto simp: shorter_def)

lemma shorter_trans: "shorter t r \<Longrightarrow> length t \<le> length s \<Longrightarrow> shorter s r"
  by (auto simp: shorter_def)

lemma length_skip_ws: "length (skip_ws s) \<le> length s"
  by (simp add: skip_ws_def length_dropWhile_le)

lemma skip_ws_Cons_le: "skip_ws s = c # t \<Longrightarrow> length t < length s"
  using length_skip_ws [of s] by simp

lemma shorter_cons_char:
  "shorter t r \<Longrightarrow> length t \<le> length s \<Longrightarrow> shorter (c # s) (cons_char x r)"
  unfolding cons_char_def by (rule shorter_rbind) auto

lemma shorter_if:
  "(b \<Longrightarrow> shorter s x) \<Longrightarrow> (\<not> b \<Longrightarrow> shorter s y) \<Longrightarrow> shorter s (if b then x else y)"
  by simp

lemma shorter_scan_str: "shorter s (scan_str s)"
proof (induction s rule: length_induct)
  case (1 s)
  show ?case
  proof (cases s)
    case Nil
    then show ?thesis by simp
  next
    case (Cons c s')
    have IH: "shorter t (scan_str t)" if "length t \<le> length s'" for t
      using 1 Cons that by simp
    have esc: "shorter (c # s') (case s' of [] \<Rightarrow> Inl JSONDecodeError | e # t \<Rightarrow>
          (if e = CHR ''u'' then (case t of h1 # h2 # h3 # h4 # rest \<Rightarrow>
              (case hex4 h1 h2 h3 h4 of None \<Rightarrow> Inl JSONDecodeError
               | Some n \<Rightarrow> (if 256 \<le> n then Inl Beyond else cons_char (char_of n) (scan_str rest)))
            | _ \<Rightarrow> Inl JSONDecodeError)
          else (case unescape e of None \<Rightarrow> Inl JSONDecodeError
                | Some x \<Rightarrow> cons_char x (scan_str t))))"
    proof (cases s')
      case Nil
      then show ?thesis by simp
    next
      case (Cons e t)
      have "shorter (c # s') (cons_char x (scan_str t))" for x
        using Cons by (intro shorter_cons_char [where t = t] IH) simp_all
      moreover have "shorter (c # s') (cons_char x (scan_str rest))"
        if "t = h1 # h2 # h3 # h4 # rest" for x h1 h2 h3 h4 rest
        using Cons that by (intro shorter_cons_char [where t = rest] IH) simp_all
      ultimately show ?thesis
        unfolding Cons list.case
        by (intro shorter_if) (simp_all split: list.split option.split)
    qed
    have plain: "shorter (c # s') (cons_char c (scan_str s'))"
      by (intro shorter_cons_char [where t = s'] IH) simp_all
    show ?thesis
      unfolding Cons scan_str.simps
      by (intro shorter_if esc plain) simp_all
  qed
qed

lemma length_scan_frac: "length (snd (scan_frac s)) \<le> length s"
  by (auto simp: scan_frac_def intro: le_SucI length_dropWhile_le split: list.splits)

lemma length_scan_exp: "length (snd (scan_exp s)) \<le> length s"
proof (cases s)
  case Nil
  then show ?thesis by (simp add: scan_exp_def)
next
  case (Cons e t)
  show ?thesis
  proof (cases t)
    case Nil
    with Cons show ?thesis by (simp add: scan_exp_def)
  next
    case (Cons g u)
    with \<open>s = e # t\<close> show ?thesis
      using length_dropWhile_le [of is_digit u] length_dropWhile_le [of is_digit t]
      by (simp add: scan_exp_def Let_def)
  qed
qed

lemma shorter_scan_number: "shorter s (scan_number s)"
proof -
  define t where "t = (case s of c # u \<Rightarrow> (if c = CHR ''-'' then u else s) | [] \<Rightarrow> [])"
  have t: "length t \<le> length s" by (auto simp: t_def split: list.splits)
  show ?thesis
  proof (cases t)
    case Nil
    then show ?thesis by (auto simp: scan_number_def t_def split: list.splits if_splits)
  next
    case (Cons c u)
    define rest where "rest = (if c = CHR ''0'' then u else dropWhile is_digit u)"
    have "length rest \<le> length u" by (simp add: rest_def length_dropWhile_le)
    then have "length (snd (scan_exp (snd (scan_frac rest)))) < length s"
      using length_scan_frac [of rest] length_scan_exp [of "snd (scan_frac rest)"] t Cons by simp
    with Cons show ?thesis
      by (auto simp: scan_number_def t_def rest_def Let_def case_prod_unfold
          split: list.splits if_splits)
  qed
qed

lemma shorter_scan_word: "shorter s (scan_word s)"
proof (cases "s = []")
  case True
  then show ?thesis by (simp add: scan_word_def scan_number_def)
next
  case False
  then have "length (drop (Suc n) s) < length s" for n by (cases s) auto
  then show ?thesis
    using shorter_scan_number [of s] False
    unfolding scan_word_def by (intro shorter_if) simp_all
qed

text \<open>One step of each loop, for any readers \<open>f\<close> of the next value and \<open>g\<close> of what remains.\<close>

lemma shorter_tail:
  assumes "\<And>t. length t < length s \<Longrightarrow> shorter t (g t)" "length rest < length s"
    and "skip_ws rest = c # t"
  shows "shorter s (rbind (g (skip_ws t)) (\<lambda>(xs, rest). Inr (x # xs, rest)))"
proof -
  have "length (skip_ws t) < length s"
    using skip_ws_Cons_le [OF assms(3)] length_skip_ws [of t] assms(2) by linarith
  then show ?thesis
    by (intro shorter_rbind [where s = "skip_ws t"] assms(1)) simp_all
qed

lemma shorter_items_step:
  assumes "shorter s r" "\<And>t. length t < length s \<Longrightarrow> shorter t (g t)"
  shows "shorter s (rbind r (\<lambda>(x, rest). (case skip_ws rest of
       [] \<Rightarrow> Inl JSONDecodeError
     | c # t \<Rightarrow>
       (if c = CHR '']'' then Inr ([x], t)
        else if c = CHR '','' then rbind (g (skip_ws t)) (\<lambda>(xs, rest). Inr (x # xs, rest))
        else Inl JSONDecodeError))))"
proof (rule shorter_rbind [OF assms(1)], unfold prod.case)
  fix x and rest :: string assume rest: "length rest < length s"
  show "shorter s (case skip_ws rest of [] \<Rightarrow> Inl JSONDecodeError
     | c # t \<Rightarrow> (if c = CHR '']'' then Inr ([x], t)
        else if c = CHR '','' then rbind (g (skip_ws t)) (\<lambda>(xs, rest). Inr (x # xs, rest))
        else Inl JSONDecodeError))"
  proof (cases "skip_ws rest")
    case Nil
    then show ?thesis by simp
  next
    case (Cons c t)
    have "length t < length s" using skip_ws_Cons_le [OF Cons] rest by simp
    then show ?thesis
      unfolding Cons list.case by (intro shorter_if shorter_tail [OF assms(2) rest Cons]) simp_all
  qed
qed

lemma shorter_pairs_step:
  assumes "\<And>t. length t < length s \<Longrightarrow> shorter t (f t)" "\<And>t. length t < length s \<Longrightarrow> shorter t (g t)"
    and "shorter s r"
  shows "shorter s (rbind r (\<lambda>(k, rest).
       (case skip_ws rest of
          [] \<Rightarrow> Inl JSONDecodeError
        | c # t \<Rightarrow>
          (if c \<noteq> CHR '':'' then Inl JSONDecodeError
           else rbind (f (skip_ws t)) (\<lambda>(v, rest).
             (case skip_ws rest of
                [] \<Rightarrow> Inl JSONDecodeError
              | c # t \<Rightarrow>
                (if c = CHR ''}'' then Inr ([(k, v)], t)
                 else if c = CHR '','' then
                   rbind (g (skip_ws t)) (\<lambda>(kvs, rest). Inr ((k, v) # kvs, rest))
                 else Inl JSONDecodeError)))))))"
proof (rule shorter_rbind [OF assms(3)], unfold prod.case)
  fix k and rest :: string assume rest: "length rest < length s"
  show "shorter s (case skip_ws rest of [] \<Rightarrow> Inl JSONDecodeError
        | c # t \<Rightarrow>
          (if c \<noteq> CHR '':'' then Inl JSONDecodeError
           else rbind (f (skip_ws t)) (\<lambda>(v, rest).
             (case skip_ws rest of
                [] \<Rightarrow> Inl JSONDecodeError
              | c # t \<Rightarrow>
                (if c = CHR ''}'' then Inr ([(k, v)], t)
                 else if c = CHR '','' then
                   rbind (g (skip_ws t)) (\<lambda>(kvs, rest). Inr ((k, v) # kvs, rest))
                 else Inl JSONDecodeError)))))"
  proof (cases "skip_ws rest")
    case Nil
    then show ?thesis by simp
  next
    case (Cons c t)
    have t: "length (skip_ws t) < length s"
      using skip_ws_Cons_le [OF Cons] length_skip_ws [of t] rest by linarith
    have "shorter s (rbind (f (skip_ws t)) (\<lambda>(v, rest).
             (case skip_ws rest of
                [] \<Rightarrow> Inl JSONDecodeError
              | c # t \<Rightarrow>
                (if c = CHR ''}'' then Inr ([(k, v)], t)
                 else if c = CHR '','' then
                   rbind (g (skip_ws t)) (\<lambda>(kvs, rest). Inr ((k, v) # kvs, rest))
                 else Inl JSONDecodeError))))"
    proof (rule shorter_rbind [OF assms(1) [OF t]], unfold prod.case)
      fix v and rest :: string assume "length rest < length (skip_ws t)"
      with t have rest: "length rest < length s" by simp
      show "shorter s (case skip_ws rest of
                [] \<Rightarrow> Inl JSONDecodeError
              | c # t \<Rightarrow>
                (if c = CHR ''}'' then Inr ([(k, v)], t)
                 else if c = CHR '','' then
                   rbind (g (skip_ws t)) (\<lambda>(kvs, rest). Inr ((k, v) # kvs, rest))
                 else Inl JSONDecodeError))"
      proof (cases "skip_ws rest")
        case Nil
        then show ?thesis by simp
      next
        case (Cons c t)
        have "length t < length s" using skip_ws_Cons_le [OF Cons] rest by simp
        then show ?thesis
          unfolding Cons list.case
          by (intro shorter_if shorter_tail [OF assms(2) rest Cons]) simp_all
      qed
    qed
    then show ?thesis unfolding Cons list.case by (intro shorter_if) simp_all
  qed
qed

lemma shorter_scan:
  "(\<forall>s. 2 * length s + 1 \<le> n \<longrightarrow> shorter s (scan_value n s)) \<and>
   (\<forall>s. 2 * length s + 2 \<le> n \<longrightarrow> shorter s (scan_items n s)) \<and>
   (\<forall>s. 2 * length s + 2 \<le> n \<longrightarrow> shorter s (scan_pairs n s))"
proof (induction n)
  case 0
  then show ?case by simp
next
  case (Suc n)
  have val: "shorter s (scan_value n s)" if "2 * length s + 1 \<le> n" for s
    using Suc that by blast
  have items: "shorter s (scan_items n s)" if "2 * length s + 2 \<le> n" for s
    using Suc that by blast
  have pairs: "shorter s (scan_pairs n s)" if "2 * length s + 2 \<le> n" for s
    using Suc that by blast
  show ?case
  proof (intro conjI allI impI)
    fix s :: string assume n: "2 * length s + 1 \<le> Suc n"
    show "shorter s (scan_value (Suc n) s)"
    proof (cases s)
      case Nil
      then show ?thesis by simp
    next
      case (Cons c t)
      have le: "length (skip_ws t) \<le> length t" by (rule length_skip_ws)
      have "shorter s (rbind (scan_pairs n (skip_ws t)) (\<lambda>(kvs, rest). Inr (JObj (dict_of_pairs kvs), rest)))"
        using n Cons le by (intro shorter_rbind [OF pairs]) simp_all
      moreover have "shorter s (rbind (scan_items n (skip_ws t)) (\<lambda>(xs, rest). Inr (JArr xs, rest)))"
        using n Cons le by (intro shorter_rbind [OF items]) simp_all
      moreover have "shorter s (rbind (scan_str t) (\<lambda>(x, rest). Inr (JStr x, rest)))"
        using Cons by (intro shorter_rbind [OF shorter_scan_str]) simp_all
      ultimately show ?thesis
        using le shorter_scan_word [of s] unfolding Cons scan_value.simps Let_def
        by (intro shorter_if) simp_all
    qed
  next
    fix s :: string assume n: "2 * length s + 2 \<le> Suc n"
    then show "shorter s (scan_items (Suc n) s)"
      unfolding scan_items.simps by (intro shorter_items_step val items) simp_all
    show "shorter s (scan_pairs (Suc n) s)"
    proof (cases s)
      case Nil
      then show ?thesis by simp
    next
      case (Cons q t)
      have "shorter s (scan_str t)"
        using shorter_trans [OF shorter_scan_str [of t]] Cons by simp
      then show ?thesis
        using n unfolding Cons scan_pairs.simps
        by (intro shorter_if shorter_pairs_step val pairs) simp_all
    qed
  qed
qed

lemma json_loads_no_fuel: "json_loads s \<noteq> Inl OutOfFuel"
proof -
  have "shorter (skip_ws s) (scan_value (2 * length s + 2) (skip_ws s))"
    using shorter_scan [of "2 * length s + 2"] length_skip_ws [of s] by simp
  then show ?thesis
    by (auto simp: json_loads_def shorter_def rbind_Inl_iff split: if_splits)
qed

section \<open>Reading back what was written\<close>

text \<open>
  The values the program writes: no floats, no integer beyond the interpreter's conversion limit,
  and distinct keys, as every \<open>dict\<close> has.
\<close>

fun json_wf :: "json \<Rightarrow> bool" where
  "json_wf (JInt i) \<longleftrightarrow> length (nat_str (nat \<bar>i\<bar>)) \<le> int_limit"
| "json_wf (JFloat x) \<longleftrightarrow> False"
| "json_wf (JArr xs) \<longleftrightarrow> (\<forall>x \<in> set xs. json_wf x)"
| "json_wf (JObj kvs) \<longleftrightarrow> distinct (map fst kvs) \<and> (\<forall>kv \<in> set kvs. json_wf (snd kv))"
| "json_wf v \<longleftrightarrow> True"

text \<open>What may follow a value: the end, a comma or a closing bracket.\<close>

definition ends :: "string \<Rightarrow> bool" where
  "ends r \<longleftrightarrow> r = [] \<or> hd r = CHR '','' \<or> hd r = CHR '']'' \<or> hd r = CHR ''}''"

lemma ends_simps [simp]:
  "ends []" "ends (CHR '','' # r)" "ends (CHR '']'' # r)" "ends (CHR ''}'' # r)"
  by (simp_all add: ends_def)

lemma ends_not_digit: "ends (c # r) \<Longrightarrow> \<not> is_digit c"
  by (auto simp: ends_def is_digit_def)

subsection \<open>Strings\<close>

lemma hex_digit_chars: "list_all (\<lambda>d. hex_digit (hex_char d) = Some d) [0..<16]"
  by code_simp

lemma hex_digit_char: "d < 16 \<Longrightarrow> hex_digit (hex_char d) = Some d"
  using hex_digit_chars by (simp only: list_all_iff set_upt) simp

lemma scan_escape: "scan_str (escape_char c @ t) = cons_char c (scan_str t)"
proof -
  consider "c = CHR 0x22 \<or> c = CHR 0x5C" | "c = CHR 0x08" | "c = CHR 0x0C" | "c = CHR 0x0A"
    | "c = CHR 0x0D" | "c = CHR 0x09"
    | "c \<notin> {CHR 0x22, CHR 0x5C, CHR 0x08, CHR 0x0C, CHR 0x0A, CHR 0x0D, CHR 0x09}" by blast
  then show ?thesis
  proof cases
    case 7
    show ?thesis
    proof (cases "(of_char c :: nat) < 32")
      case True
      have "hex4 CHR ''0'' CHR ''0'' (hex_char (of_char c div 16)) (hex_char (of_char c mod 16)) =
          Some (16 * (of_char c div 16) + of_char c mod 16)"
        using True hex_digit_char [of "of_char c div 16"] hex_digit_char [of "of_char c mod 16"]
          hex_digit_char [of 0] by (simp add: hex4_def hex_char_def)
      then have "hex4 CHR ''0'' CHR ''0'' (hex_char (of_char c div 16)) (hex_char (of_char c mod 16)) =
          Some (of_char c)" by simp
      with 7 True show ?thesis by (simp add: escape_char_def Let_def)
    next
      case False
      with 7 show ?thesis by (simp add: escape_char_def Let_def)
    qed
  qed (auto simp: escape_char_def unescape_def)
qed

lemma scan_quoted: "scan_str (concat (map escape_char s) @ CHR 0x22 # t) = Inr (s, t)"
  by (induction s) (simp_all add: scan_escape cons_char_def)

subsection \<open>Numbers\<close>

lemma digit_value_digit: "d < 10 \<Longrightarrow> digit_value (digit_char d) = d"
proof -
  have "list_all (\<lambda>d. digit_value (digit_char d) = d) [0..<10]" by code_simp
  then show "d < 10 \<Longrightarrow> digit_value (digit_char d) = d" by (simp only: list_all_iff set_upt) simp
qed

lemma digits_value_nat_str: "digits_value (nat_str n) = n"
proof (induction n rule: nat_str.induct)
  case (1 n)
  show ?case
  proof (cases "n < 10")
    case True
    then show ?thesis by (subst nat_str.simps) (simp add: digits_value_def digit_value_digit)
  next
    case False
    with 1 show ?thesis
      by (subst nat_str.simps) (simp add: digits_value_def digit_value_digit)
  qed
qed

lemma nat_str_hd_zero: "0 < n \<Longrightarrow> hd (nat_str n) \<noteq> CHR ''0''"
proof (induction n rule: nat_str.induct)
  case (1 n)
  have "list_all (\<lambda>d. d = 0 \<or> digit_char d \<noteq> CHR ''0'') [0..<10]" by code_simp
  then have "n < 10 \<Longrightarrow> n = 0 \<or> digit_char n \<noteq> CHR ''0''" by (simp only: list_all_iff set_upt) simp
  with 1 show ?case by (subst nat_str.simps) (auto simp: div_greater_zero_iff)
qed

lemma scan_frac_ends: "ends r \<Longrightarrow> scan_frac r = ([], r)"
  by (auto simp: scan_frac_def ends_def split: list.splits)

lemma scan_exp_ends: "ends r \<Longrightarrow> scan_exp r = ([], r)"
  by (auto simp: scan_exp_def ends_def split: list.splits)

lemma scan_digits:
  assumes "list_all is_digit ds" "ends r"
  shows "takeWhile is_digit (ds @ r) = ds" "dropWhile is_digit (ds @ r) = r"
proof -
  have ds: "\<forall>d \<in> set ds. is_digit d" using assms(1) by (simp add: list_all_iff)
  have "takeWhile is_digit r = []" "dropWhile is_digit r = r"
    using assms(2) ends_not_digit by (cases r; auto)+
  with ds show "takeWhile is_digit (ds @ r) = ds" "dropWhile is_digit (ds @ r) = r"
    by (simp_all add: takeWhile_append2 dropWhile_append2)
qed

lemma minus_not_digit: "\<not> is_digit CHR ''-''"
  by code_simp

lemma scan_number_int:
  assumes "json_wf (JInt i)" "ends r"
  shows "scan_number (int_str i @ r) = Inr (JInt i, r)"
proof -
  define n where "n = nat \<bar>i\<bar>"
  obtain c ds where cds: "nat_str n = c # ds" by (cases "nat_str n") auto
  have dig: "is_digit c" "list_all is_digit ds" using nat_str_digits [of n] cds by auto
  have val: "digits_value (c # ds) = n" using digits_value_nat_str [of n] cds by simp
  have zero: "c = CHR ''0'' \<Longrightarrow> ds = []"
    using nat_str_hd_zero [of n] cds by (cases "n = 0") (auto simp: nat_str.simps [of 0])
  have len: "length (c # ds) \<le> int_limit" using assms(1) cds by (simp add: n_def)
  have neg: "c \<noteq> CHR ''-''" using dig(1) minus_not_digit by auto
  have "(if c = CHR ''0'' then ([c], ds @ r)
      else (c # takeWhile is_digit (ds @ r), dropWhile is_digit (ds @ r))) = (c # ds, r)"
    using zero scan_digits [OF dig(2) assms(2)] by auto
  then have "scan_number ((if i < 0 then ''-'' else []) @ c # ds @ r) = Inr (JInt i, r)"
    using dig len neg val by (simp add: scan_number_def scan_frac_ends scan_exp_ends assms(2) n_def)
  then show ?thesis using cds by (simp add: int_str_def n_def split: if_splits)
qed

subsection \<open>Values\<close>

lemma int_str_head:
  obtains c t where "int_str i = c # t" "is_digit c" | c t where "int_str i = CHR ''-'' # c # t" "is_digit c"
proof -
  obtain c ds where c: "nat_str (nat \<bar>i\<bar>) = c # ds" by (cases "nat_str (nat \<bar>i\<bar>)") auto
  then have "is_digit c" using nat_str_digits [of "nat \<bar>i\<bar>"] by simp
  with c that show ?thesis by (cases "i < 0") (simp_all add: int_str_def)
qed

definition value_digit :: "char \<Rightarrow> bool" where
  "value_digit c \<longleftrightarrow> \<not> json_space c \<and> c \<noteq> CHR ''-'' \<and> c \<noteq> CHR ''n'' \<and> c \<noteq> CHR ''t'' \<and> c \<noteq> CHR ''f''
    \<and> c \<noteq> CHR ''N'' \<and> c \<noteq> CHR ''I'' \<and> c \<noteq> CHR ''{'' \<and> c \<noteq> CHR ''['' \<and> c \<noteq> CHR 0x22
    \<and> c \<noteq> CHR '']'' \<and> c \<noteq> CHR ''}''"

lemma value_digits: "list_all value_digit ''0123456789''"
  by code_simp

lemma digit_plain: "is_digit c \<Longrightarrow> value_digit c"
  using value_digits unfolding is_digit_def list_all_iff by blast

lemma scan_word_int:
  "json_wf (JInt i) \<Longrightarrow> ends r \<Longrightarrow> scan_word (int_str i @ r) = Inr (JInt i, r)"
proof -
  assume "json_wf (JInt i)" "ends r"
  then have num: "scan_number (int_str i @ r) = Inr (JInt i, r)" by (rule scan_number_int)
  show ?thesis
  proof (rule int_str_head [of i])
    fix c t assume "int_str i = c # t" "is_digit c"
    with num digit_plain [of c] show ?thesis by (simp add: scan_word_def value_digit_def)
  next
    fix c t assume "int_str i = CHR ''-'' # c # t" "is_digit c"
    with num digit_plain [of c] show ?thesis by (simp add: scan_word_def value_digit_def)
  qed
qed

text \<open>A value is written with a first character that no reader skips or takes for a bracket.\<close>

definition starts :: "string \<Rightarrow> bool" where
  "starts s \<longleftrightarrow> s \<noteq> [] \<and> \<not> json_space (hd s) \<and> hd s \<noteq> CHR '']'' \<and> hd s \<noteq> CHR ''}''"

lemma starts_emit: "json_wf v \<Longrightarrow> starts (emit v)"
proof (cases v)
  case (JInt i)
  then show ?thesis
    by (rule_tac int_str_head [of i])
      (auto simp: starts_def json_space_def value_digit_def dest: digit_plain)
qed (auto simp: starts_def json_space_def json_quote_def)

lemma skip_ws_starts: "starts s \<Longrightarrow> skip_ws (s @ r) = s @ r"
  by (cases s) (simp_all add: starts_def skip_ws_def)

lemma skip_ws_punct [simp]:
  "skip_ws [] = []"
  "skip_ws (CHR '','' # r) = CHR '','' # r" "skip_ws (CHR '']'' # r) = CHR '']'' # r"
  "skip_ws (CHR ''}'' # r) = CHR ''}'' # r" "skip_ws (CHR '':'' # r) = CHR '':'' # r"
  "skip_ws (CHR 0x22 # r) = CHR 0x22 # r"
  by (simp_all add: skip_ws_def json_space_def)

definition reads :: "json \<Rightarrow> bool" where
  "reads v \<longleftrightarrow> starts (emit v) \<and> (\<forall>n r. ends r \<longrightarrow> 2 * length (emit v) \<le> n \<longrightarrow>
    scan_value (Suc n) (emit v @ r) = Inr (v, r))"

lemma readsD: "reads v \<Longrightarrow> ends r \<Longrightarrow> 2 * length (emit v) < n \<Longrightarrow>
    scan_value n (emit v @ r) = Inr (v, r)"
  by (cases n) (auto simp: reads_def)

abbreviation emit_pair :: "string \<times> json \<Rightarrow> string" where
  "emit_pair kv \<equiv> json_quote (fst kv) @ '':'' @ emit (snd kv)"

lemma emit_obj: "emit (JObj kvs) = ''{'' @ str_join '','' (map emit_pair kvs) @ ''}''"
  by (simp add: comp_def case_prod_unfold)

lemma scan_items_emit:
  assumes "xs \<noteq> []" "\<forall>x \<in> set xs. reads x"
    and "2 * length (str_join '','' (map emit xs)) + 2 \<le> n"
  shows "scan_items n (str_join '','' (map emit xs) @ CHR '']'' # r) = Inr (xs, r)"
  using assms
proof (induction xs arbitrary: n)
  case Nil
  then show ?case by simp
next
  case (Cons x xs)
  from Cons.prems(3) obtain m where n: "n = Suc m" by (cases n) auto
  have x: "reads x" using Cons.prems(2) by simp
  show ?case
  proof (cases xs)
    case Nil
    with Cons.prems n x show ?thesis by (simp add: readsD)
  next
    case (Cons y ys)
    have "starts (emit y)" using Cons.prems(2) Cons by (simp add: reads_def)
    then have ws: "skip_ws (str_join '','' (map emit xs) @ CHR '']'' # r) =
        str_join '','' (map emit xs) @ CHR '']'' # r"
      using Cons by (cases ys) (simp_all add: skip_ws_starts)
    have "scan_items m (str_join '','' (map emit xs) @ CHR '']'' # r) = Inr (xs, r)"
      using Cons.IH Cons.prems n Cons by simp
    with ws Cons Cons.prems(3) n x show ?thesis by (simp add: readsD)
  qed
qed

lemma scan_pairs_emit:
  assumes "kvs \<noteq> []" "\<forall>kv \<in> set kvs. reads (snd kv)"
    and "2 * length (str_join '','' (map emit_pair kvs)) + 2 \<le> n"
  shows "scan_pairs n (str_join '','' (map emit_pair kvs) @ CHR ''}'' # r) = Inr (kvs, r)"
  using assms
proof (induction kvs arbitrary: n)
  case Nil
  then show ?case by simp
next
  case (Cons kv kvs)
  from Cons.prems(3) obtain m where n: "n = Suc m" by (cases n) auto
  have v: "reads (snd kv)" "starts (emit (snd kv))" using Cons.prems(2) by (simp_all add: reads_def)
  show ?case
  proof (cases kvs)
    case Nil
    with Cons.prems n v show ?thesis
      by (simp add: json_quote_def scan_quoted skip_ws_starts readsD)
  next
    case (Cons kv' kvs')
    then have ws: "skip_ws (str_join '','' (map emit_pair kvs) @ CHR ''}'' # r) =
        str_join '','' (map emit_pair kvs) @ CHR ''}'' # r"
      by (cases kvs') (simp_all add: json_quote_def)
    have "scan_pairs m (str_join '','' (map emit_pair kvs) @ CHR ''}'' # r) = Inr (kvs, r)"
      using Cons.IH Cons.prems n Cons by simp
    with ws Cons Cons.prems(3) n v show ?thesis
      by (simp add: json_quote_def scan_quoted skip_ws_starts readsD)
  qed
qed

lemma dict_of_pairs_distinct: "distinct (map fst kvs) \<Longrightarrow> dict_of_pairs kvs = kvs"
proof (induction kvs rule: rev_induct)
  case Nil
  then show ?case by (simp add: dict_of_pairs_def)
next
  case (snoc kv kvs)
  then show ?case
    by (cases kv) (auto simp: dict_of_pairs_def intro!: dict_set_new)
qed

lemma str_join_Cons: "\<exists>t. str_join sep (y # ys) = y @ t"
  by (cases ys) auto

lemma skip_ws_join:
  assumes "starts y"
  shows "skip_ws (str_join sep (y # ys) @ r) = str_join sep (y # ys) @ r"
    "hd (str_join sep (y # ys) @ r) = hd y" "str_join sep (y # ys) \<noteq> []"
proof -
  obtain t where t: "str_join sep (y # ys) = y @ t" using str_join_Cons by blast
  show "skip_ws (str_join sep (y # ys) @ r) = str_join sep (y # ys) @ r"
    using skip_ws_starts [OF assms] by (simp add: t)
  show "hd (str_join sep (y # ys) @ r) = hd y" "str_join sep (y # ys) \<noteq> []"
    using assms by (simp_all add: t starts_def)
qed

lemma starts_pair: "starts (emit_pair kv)" "hd (emit_pair kv) = CHR 0x22"
  by (simp_all add: starts_def json_quote_def json_space_def)

lemma json_wf_reads: "json_wf v \<Longrightarrow> reads v"
proof (induction v)
  case JNull
  then show ?case by (simp add: reads_def starts_def json_space_def scan_word_def)
next
  case (JBool b)
  then show ?case by (simp add: reads_def starts_def json_space_def scan_word_def)
next
  case (JInt i)
  have "scan_value (Suc n) (int_str i @ r) = scan_word (int_str i @ r)" for n r
  proof (rule int_str_head [of i])
    fix c t assume "int_str i = c # t" "is_digit c"
    with digit_plain [of c] show ?thesis by (simp add: value_digit_def)
  next
    fix c t assume "int_str i = CHR ''-'' # c # t" "is_digit c"
    then show ?thesis by simp
  qed
  with JInt starts_emit [OF JInt] show ?case by (simp add: reads_def scan_word_int)
next
  case (JFloat x)
  then show ?case by simp
next
  case (JStr s)
  then show ?case
    by (simp add: reads_def starts_def json_space_def json_quote_def scan_quoted)
next
  case (JArr xs)
  then have xs: "\<forall>x \<in> set xs. reads x" by simp
  show ?case
  proof (cases "xs = []")
    case True
    then show ?thesis by (simp add: reads_def starts_def json_space_def)
  next
    case False
    define J where "J = str_join '','' (map emit xs)"
    from False obtain y ys where y: "xs = y # ys" by (cases xs) auto
    with xs have sy: "starts (emit y)" by (simp add: reads_def)
    then have J: "skip_ws (J @ t) = J @ t" "hd (J @ t) \<noteq> CHR '']''" "J @ t \<noteq> []" for t
      using skip_ws_join [OF sy, of "'',''" "map emit ys"] by (simp_all add: J_def y starts_def)
    have "scan_value (Suc n) (CHR ''['' # J @ CHR '']'' # r) = Inr (JArr xs, r)"
      if "2 * length (CHR ''['' # J @ '']'') \<le> n" for n r
      using scan_items_emit [OF False xs, of n r] that J [of "CHR '']'' # r"]
      by (simp add: J_def [symmetric] Let_def)
    then show ?thesis by (simp add: reads_def starts_def json_space_def J_def)
  qed
next
  case (JObj kvs)
  then have kvs: "\<forall>kv \<in> set kvs. reads (snd kv)" and dist: "distinct (map fst kvs)"
    by (auto simp: snds.simps)
  show ?case
  proof (cases "kvs = []")
    case True
    then show ?thesis by (simp add: reads_def starts_def json_space_def)
  next
    case False
    define J where "J = str_join '','' (map emit_pair kvs)"
    from False obtain y ys where y: "kvs = y # ys" by (cases kvs) auto
    have J: "skip_ws (J @ t) = J @ t" "hd (J @ t) \<noteq> CHR ''}''" "J @ t \<noteq> []" for t
      using skip_ws_join [OF starts_pair(1) [of y], of "'',''" "map emit_pair ys"] starts_pair(2) [of y]
      by (simp_all add: J_def y)
    have "scan_value (Suc n) (CHR ''{'' # J @ CHR ''}'' # r) = Inr (JObj kvs, r)"
      if "2 * length (CHR ''{'' # J @ ''}'') \<le> n" for n r
    proof -
      have "scan_pairs n (J @ CHR ''}'' # r) = Inr (kvs, r)"
        unfolding J_def using that by (intro scan_pairs_emit False kvs) (simp add: J_def)
      with J [of "CHR ''}'' # r"] dist show ?thesis by (simp add: Let_def dict_of_pairs_distinct)
    qed
    then show ?thesis
      unfolding reads_def emit_obj J_def by (simp add: starts_def json_space_def)
  qed
qed

lemma distinct_sort_key: "distinct (map f (sort_key g xs)) \<longleftrightarrow> distinct (map f xs)"
proof -
  have "mset (map f (sort_key g xs)) = mset (map f xs)" by simp
  then show ?thesis by (rule mset_eq_imp_distinct_iff)
qed

lemma sort_keys_wf: "json_wf v \<Longrightarrow> json_wf (sort_keys v)"
proof (induction v)
  case (JObj kvs)
  have "map fst (map (map_prod id sort_keys) kvs) = map fst kvs" by (simp add: comp_def)
  moreover from JObj have "\<forall>kv \<in> set kvs. json_wf (sort_keys (snd kv))" by (auto simp: snds.simps)
  ultimately show ?case
    using JObj.prems by (auto simp: distinct_sort_key simp del: map_map)
qed auto

lemma emit_reads: "json_wf v \<Longrightarrow> json_loads (emit v) = Inr v"
proof -
  assume "json_wf v"
  then have r: "reads v" by (rule json_wf_reads)
  then have "skip_ws (emit v @ []) = emit v @ []" by (intro skip_ws_starts) (simp add: reads_def)
  with readsD [OF r, of "[]" "2 * length (emit v) + 2"] show ?thesis
    by (simp add: json_loads_def)
qed

text \<open>Reading what was written gives the value back, its keys sorted at every level.\<close>

lemma loads_dumps: "json_wf v \<Longrightarrow> json_loads (json_dumps v) = Inr (sort_keys v)"
  by (simp add: json_dumps_def emit_reads sort_keys_wf)

lemma dumps_inject:
  assumes "json_wf v" "json_wf w" "json_dumps v = json_dumps w"
  shows "sort_keys v = sort_keys w"
  using loads_dumps [OF assms(1)] loads_dumps [OF assms(2)] assms(3) by simp

section \<open>Objects have distinct keys\<close>

lemma dict_of_pairs_wf: "wf_dict (dict_of_pairs kvs)"
proof -
  have "wf_dict (fold (\<lambda>(k, v). dict_set k v) kvs d)" if "wf_dict d" for d :: "(string \<times> json) list"
    using that by (induction kvs arbitrary: d) (auto simp: wf_dict_set)
  then show ?thesis by (simp add: dict_of_pairs_def)
qed

lemma scan_word_not_obj: "scan_word s \<noteq> Inr (JObj d, r)"
  by (auto simp: scan_word_def scan_number_def Let_def split_beta split: list.splits if_splits)

lemma scan_value_obj: "scan_value n s = Inr (JObj d, r) \<Longrightarrow> wf_dict d"
  by (induction n s rule: scan_value_scan_items_scan_pairs.induct(1))
    (auto simp: Let_def rbind_Inr_iff dict_of_pairs_wf scan_word_not_obj split: if_splits)

lemma json_loads_obj: "json_loads s = Inr (JObj d) \<Longrightarrow> wf_dict d"
  by (auto simp: json_loads_def rbind_Inr_iff split: if_splits dest: scan_value_obj)

end
