(* ===== verification/Key_Set.thy ===== *)
theory Key_Set
  imports Authorization_Domain Json
begin

text \<open>
  Trusted configuration (\<open>adapters/runtime_authorization.py\<close>): the public key set emitted by
  Governance and the binding of agent names to Governance identifiers.

  \<^item> The content of the key file is an argument: \<open>None\<close> when reading it raises \<open>OSError\<close>.
  \<^item> \<open>datetime.fromisoformat\<close> is the argument \<open>fromiso\<close>, with \<open>None\<close> for a \<open>ValueError\<close>, and
    \<open>Ed25519PublicKey.from_public_bytes\<close> the argument \<open>load_key\<close>, with the exception it raises.
  \<^item> \<open>json.loads\<close> detects the encoding of bytes. Text of another encoding than UTF-8, and code
    points above U+00FF, are outside the model: \<open>outside_model\<close> marks that case.
\<close>

section \<open>Reading JSON from bytes\<close>

abbreviation outside_model :: auth_error where
  "outside_model \<equiv> OtherException ''outside the model''"

text \<open>
  \<open>json.detect_encoding\<close>: a byte order mark, or the pattern of zero bytes at the start. Only
  UTF-8, with or without its mark, is modelled.
\<close>

definition utf8_text :: "bytes \<Rightarrow> bytes option" where
  "utf8_text b =
    (if take 2 b = [254, 255] \<or> take 2 b = [255, 254] \<or> take 4 b = [0, 0, 254, 255] then None
     else if take 3 b = [239, 187, 191] then Some (drop 3 b)
     else if (4 \<le> length b \<or> length b = 2) \<and> (b ! 0 = 0 \<or> b ! 1 = 0) then None
     else Some b)"

text \<open>\<open>surrogatepass\<close> decodes an encoded surrogate, a code point outside the model.\<close>

definition has_surrogate :: "bytes \<Rightarrow> bool" where
  "has_surrogate b \<longleftrightarrow> (\<exists>i < length b - 1. b ! i = 237 \<and> 160 \<le> unat (b ! Suc i))"

datatype document_error = Malformed auth_error | Raised auth_error

text \<open>
  The exceptions of \<open>json.loads\<close>: \<open>Malformed\<close> are the two kinds the callers catch
  (\<open>UnicodeDecodeError\<close>, \<open>JSONDecodeError\<close>), anything else passes through them.
\<close>

definition loads_text :: "string \<Rightarrow> (document_error, json) result" where
  "loads_text text =
    (case json_loads text of
       Inr v \<Rightarrow> Inr v
     | Inl JSONDecodeError \<Rightarrow> Inl (Malformed (OtherException ''JSONDecodeError''))
     | Inl IntTooLong \<Rightarrow> Inl (Raised value_error)
     | Inl _ \<Rightarrow> Inl (Raised outside_model))"

definition loads_bytes :: "bytes \<Rightarrow> (document_error, json) result" where
  "loads_bytes raw =
    (case utf8_text raw of
       None \<Rightarrow> Inl (Raised outside_model)
     | Some b \<Rightarrow>
       (case utf8_decode b of
          Inr text \<Rightarrow> loads_text text
        | Inl BeyondLatin1 \<Rightarrow> Inl (Raised outside_model)
        | Inl UnicodeDecodeError \<Rightarrow>
            Inl (if has_surrogate b then Raised outside_model
                 else Malformed (OtherException ''UnicodeDecodeError''))))"

definition json_field :: "(string, json) dict \<Rightarrow> string \<Rightarrow> json" where
  "json_field d name = (case dict_get d name of Some v \<Rightarrow> v | None \<Rightarrow> JNull)"

section \<open>One key\<close>

abbreviation invalid_key_set :: "string \<Rightarrow> auth_error" where
  "invalid_key_set message \<equiv> RuntimeAuthorizationError ''invalid_key_set'' message False"

text \<open>\<open>text.replace("Z", "+00:00")\<close>\<close>

definition utc_suffix :: "string \<Rightarrow> string" where
  "utc_suffix s = concat (map (\<lambda>c. if c = CHR ''Z'' then ''+00:00'' else [c]) s)"

definition parse_utc :: "(string \<Rightarrow> datetime option) \<Rightarrow> json \<Rightarrow> (auth_error, instant) result" where
  "parse_utc fromiso v =
    (case v of
       JStr s \<Rightarrow>
         rbind (some_or (fromiso (utc_suffix s)) value_error) (\<lambda>parsed.
         rbind (require_utc parsed) (\<lambda>_. Inr (dt_wall parsed)))
     | _ \<Rightarrow> Inl value_error)"

definition parse_key_status :: "json \<Rightarrow> key_status option" where
  "parse_key_status v =
    (if v = JStr ''active'' then Some ACTIVE_KEY
     else if v = JStr ''retiring'' then Some RETIRING_KEY
     else if v = JStr ''revoked'' then Some REVOKED_KEY
     else None)"

text \<open>The two \<open>except\<close> clauses around the key material.\<close>

definition material_error :: "auth_error \<Rightarrow> auth_error" where
  "material_error e =
    (case e of
       RuntimeAuthorizationError _ _ _ \<Rightarrow>
         invalid_key_set ''Runtime authorization key material is invalid''
     | OtherException t \<Rightarrow>
         (if t = ''ValueError'' \<or> t = ''TypeError''
          then invalid_key_set ''Runtime authorization key material is invalid'' else e))"

definition key_material ::
  "(string \<Rightarrow> datetime option) \<Rightarrow> (bytes \<Rightarrow> (auth_error, 'k) result) \<Rightarrow> (string, json) dict \<Rightarrow> string \<Rightarrow>
     (auth_error, bytes \<times> 'k \<times> instant \<times> instant) result" where
  "key_material fromiso load_key entry x =
    (case rbind (decode_base64url x) (\<lambda>public_bytes.
          rbind (load_key public_bytes) (\<lambda>public_key.
          rbind (parse_utc fromiso (json_field entry ''not_before'')) (\<lambda>not_before.
          rbind (parse_utc fromiso (json_field entry ''verify_until'')) (\<lambda>verify_until.
          Inr (public_bytes, public_key, not_before, verify_until))))) of
       Inl e \<Rightarrow> Inl (material_error e)
     | Inr m \<Rightarrow> Inr m)"

definition jwk_x :: "json \<Rightarrow> (auth_error, string) result" where
  "jwk_x v =
    (case v of
       JObj jwk \<Rightarrow>
         rbind (raise_if (set (dict_keys jwk) \<noteq> {''kty'', ''crv'', ''x''})
           (invalid_key_set ''Invalid Ed25519 JWK'')) (\<lambda>_.
         rbind (raise_if (json_field jwk ''kty'' \<noteq> JStr ''OKP'' \<or> json_field jwk ''crv'' \<noteq> JStr ''Ed25519'')
           (invalid_key_set ''Only Ed25519 OKP keys are trusted'')) (\<lambda>_.
         (case json_field jwk ''x'' of
            JStr x \<Rightarrow> Inr x
          | _ \<Rightarrow> Inl (invalid_key_set ''Missing Ed25519 public key''))))
     | _ \<Rightarrow> Inl (invalid_key_set ''Invalid Ed25519 JWK''))"

definition parse_kid :: "json \<Rightarrow> (auth_error, string) result" where
  "parse_kid v =
    (case v of
       JStr kid \<Rightarrow> (if kid = [] then Inl (invalid_key_set ''Invalid key identifier'') else Inr kid)
     | _ \<Rightarrow> Inl (invalid_key_set ''Invalid key identifier''))"

definition parse_key_entry ::
  "(string \<Rightarrow> datetime option) \<Rightarrow> (bytes \<Rightarrow> (auth_error, 'k) result) \<Rightarrow> json \<Rightarrow>
     (auth_error, 'k trusted_key) result" where
  "parse_key_entry fromiso load_key v =
    (case v of
       JObj entry \<Rightarrow>
         rbind (raise_if
           (set (dict_keys entry) \<noteq> {''kid'', ''status'', ''not_before'', ''verify_until'', ''jwk''})
           (invalid_key_set ''Key entry contains unsupported fields'')) (\<lambda>_.
         rbind (parse_kid (json_field entry ''kid'')) (\<lambda>kid.
         rbind (some_or (parse_key_status (json_field entry ''status''))
           (invalid_key_set ''Invalid key status'')) (\<lambda>status.
         rbind (jwk_x (json_field entry ''jwk'')) (\<lambda>x.
         rbind (key_material fromiso load_key entry x)
           (\<lambda>(public_bytes, public_key, not_before, verify_until).
         rbind (raise_if (length public_bytes \<noteq> 32 \<or> verify_until \<le> not_before)
           (invalid_key_set ''Runtime authorization key window or size is invalid'')) (\<lambda>_.
         Inr \<lparr>tk_kid = kid, tk_status = status, tk_public_key = public_key,
              tk_not_before = not_before, tk_verify_until = verify_until\<rparr>))))))
     | _ \<Rightarrow> Inl (invalid_key_set ''Key entry must be an object''))"

section \<open>The key set\<close>

text \<open>The loop over the entries, with the identifiers seen so far.\<close>

fun parse_keys ::
  "(string \<Rightarrow> datetime option) \<Rightarrow> (bytes \<Rightarrow> (auth_error, 'k) result) \<Rightarrow> string list \<Rightarrow>
     json list \<Rightarrow> (auth_error, 'k trusted_key list) result" where
  "parse_keys fromiso load_key seen [] = Inr []"
| "parse_keys fromiso load_key seen (entry # entries) =
    rbind (parse_key_entry fromiso load_key entry) (\<lambda>key.
    rbind (raise_if (tk_kid key \<in> set seen) (invalid_key_set ''Duplicate key identifier'')) (\<lambda>_.
    rbind (parse_keys fromiso load_key (tk_kid key # seen) entries) (\<lambda>keys. Inr (key # keys))))"

fun parse_generation :: "json \<Rightarrow> int option" where
  "parse_generation (JInt g) = (if g < 1 then None else Some g)"
| "parse_generation _ = None"

fun key_entries :: "json \<Rightarrow> json list option" where
  "key_entries (JArr xs) = (if xs = [] then None else Some xs)"
| "key_entries _ = None"

definition parse_key_set ::
  "(string \<Rightarrow> datetime option) \<Rightarrow> (bytes \<Rightarrow> (auth_error, 'k) result) \<Rightarrow> json \<Rightarrow>
     (auth_error, 'k key_set) result" where
  "parse_key_set fromiso load_key v =
    (case v of
       JObj document \<Rightarrow>
         rbind (raise_if (set (dict_keys document) \<noteq> {''schema_version'', ''generation'', ''keys''})
           (invalid_key_set ''Key set contains unsupported fields'')) (\<lambda>_.
         rbind (raise_if (json_field document ''schema_version'' \<noteq> JStr ''1.0'')
           (invalid_key_set ''Unsupported key-set schema version'')) (\<lambda>_.
         rbind (some_or (parse_generation (json_field document ''generation''))
           (invalid_key_set ''Invalid key-set generation'')) (\<lambda>generation.
         rbind (some_or (key_entries (json_field document ''keys''))
           (invalid_key_set ''Key set must contain keys'')) (\<lambda>entries.
         rbind (parse_keys fromiso load_key [] entries) (\<lambda>keys.
         rbind (raise_if (\<not> list_ex (\<lambda>key. tk_status key = ACTIVE_KEY) keys)
           (invalid_key_set ''Key set must contain at least one active key'')) (\<lambda>_.
         Inr \<lparr>ks_generation = generation, ks_keys = keys\<rparr>))))))
     | _ \<Rightarrow> Inl (invalid_key_set ''Key set must be an object''))"

definition load_trusted_key_set ::
  "(string \<Rightarrow> datetime option) \<Rightarrow> (bytes \<Rightarrow> (auth_error, 'k) result) \<Rightarrow> int \<Rightarrow> bytes option \<Rightarrow>
     (auth_error, 'k key_set) result" where
  "load_trusted_key_set fromiso load_key max_bytes content =
    rbind (some_or content (RuntimeAuthorizationError ''key_set_unavailable''
      ''Runtime authorization key set could not be loaded'' False)) (\<lambda>raw.
    rbind (raise_if (max_bytes < int (length raw)) (RuntimeAuthorizationError ''key_set_too_large''
      ''Runtime authorization key set exceeds the configured limit'' False)) (\<lambda>_.
    (case loads_bytes raw of
       Inl (Malformed _) \<Rightarrow> Inl (invalid_key_set ''Runtime authorization key set is invalid'')
     | Inl (Raised e) \<Rightarrow> Inl e
     | Inr document \<Rightarrow> parse_key_set fromiso load_key document)))"

section \<open>Agent bindings\<close>

abbreviation invalid_agent_bindings :: "string \<Rightarrow> auth_error" where
  "invalid_agent_bindings message \<equiv> RuntimeAuthorizationError ''invalid_agent_bindings'' message False"

text \<open>One step of the loop: the name and the identifier, checked.\<close>

definition parse_binding :: "string \<times> json \<Rightarrow> (auth_error, string \<times> uuid) result" where
  "parse_binding = (\<lambda>(agent_name, agent_id).
    (case agent_id of
       JStr text \<Rightarrow>
         rbind (raise_if (agent_name = [] \<or> 200 < length agent_name)
           (invalid_agent_bindings ''Runtime authorization agent bindings are invalid'')) (\<lambda>_.
         rbind (some_or (parse_uuid text)
           (invalid_agent_bindings ''Runtime authorization agent binding must contain UUIDs''))
           (\<lambda>parsed. Inr (agent_name, parsed)))
     | _ \<Rightarrow> Inl (invalid_agent_bindings ''Runtime authorization agent bindings are invalid'')))"

definition parse_agent_bindings :: "string \<Rightarrow> (auth_error, (string, uuid) dict) result" where
  "parse_agent_bindings raw_json =
    (case loads_text raw_json of
       Inl (Malformed _) \<Rightarrow>
         Inl (invalid_agent_bindings ''Runtime authorization agent bindings must be valid JSON'')
     | Inl (Raised e) \<Rightarrow> Inl e
     | Inr (JObj raw) \<Rightarrow>
         (if raw = [] then Inl (invalid_agent_bindings
            ''Runtime authorization agent bindings must be a non-empty object'')
          else rmap parse_binding raw)
     | Inr _ \<Rightarrow> Inl (invalid_agent_bindings
            ''Runtime authorization agent bindings must be a non-empty object''))"

section \<open>What is accepted\<close>

lemma parse_kid_Inr: "parse_kid v = Inr kid \<Longrightarrow> kid \<noteq> []"
  by (simp add: parse_kid_def split: json.splits if_splits)

lemma key_material_Inr:
  "key_material fromiso load_key entry x = Inr (b, k, nb, vu) \<Longrightarrow> load_key b = Inr k"
  unfolding key_material_def by (split sum.splits) (auto simp: rbind_Inr_iff)

lemma parse_key_entry_Inr:
  assumes "parse_key_entry fromiso load_key v = Inr key"
  shows "tk_kid key \<noteq> [] \<and> tk_not_before key < tk_verify_until key \<and>
    (\<exists>b. length b = 32 \<and> load_key b = Inr (tk_public_key key))"
proof (cases v)
  case (JObj entry)
  from assms obtain x b k nb vu kid st where "parse_kid (json_field entry ''kid'') = Inr kid"
    "key_material fromiso load_key entry x = Inr (b, k, nb, vu)" "\<not> (length b \<noteq> 32 \<or> vu \<le> nb)"
    "key = \<lparr>tk_kid = kid, tk_status = st, tk_public_key = k, tk_not_before = nb, tk_verify_until = vu\<rparr>"
    unfolding JObj parse_key_entry_def json.case
    by (elim rbind_elims) (clarsimp, elim rbind_elims, auto)
  then show ?thesis by (auto dest: parse_kid_Inr key_material_Inr)
qed (use assms in \<open>simp_all add: parse_key_entry_def\<close>)

lemma parse_keys_Inr:
  "parse_keys fromiso load_key seen entries = Inr keys \<Longrightarrow>
     distinct (map tk_kid keys) \<and> set (map tk_kid keys) \<inter> set seen = {} \<and>
     list_all2 (\<lambda>e k. parse_key_entry fromiso load_key e = Inr k) entries keys"
proof (induction entries arbitrary: seen keys)
  case Nil
  then show ?case by simp
next
  case (Cons e es)
  then obtain key rest where key: "parse_key_entry fromiso load_key e = Inr key" "tk_kid key \<notin> set seen"
    and rest: "parse_keys fromiso load_key (tk_kid key # seen) es = Inr rest" "keys = key # rest"
    by (auto simp: result_iffs)
  from Cons.IH [OF rest(1)] key rest(2) show ?case by auto
qed

definition key_entry_ok :: "(bytes \<Rightarrow> (auth_error, 'k) result) \<Rightarrow> 'k trusted_key \<Rightarrow> bool" where
  "key_entry_ok load_key key \<longleftrightarrow>
     tk_kid key \<noteq> [] \<and> tk_not_before key < tk_verify_until key \<and>
     (\<exists>b. length b = 32 \<and> load_key b = Inr (tk_public_key key))"

lemma parse_key_set_Inr:
  assumes "parse_key_set fromiso load_key v = Inr ks"
  shows "distinct (map tk_kid (ks_keys ks)) \<and> 1 \<le> ks_generation ks \<and>
    (\<exists>k \<in> set (ks_keys ks). tk_status k = ACTIVE_KEY) \<and>
    (\<forall>k \<in> set (ks_keys ks). key_entry_ok load_key k)"
proof -
  from assms obtain d es keys g where d: "v = JObj d"
    and g: "parse_generation (json_field d ''generation'') = Some g"
    and keys: "parse_keys fromiso load_key [] es = Inr keys"
    and act: "list_ex (\<lambda>key. tk_status key = ACTIVE_KEY) keys"
    and ks: "ks = \<lparr>ks_generation = g, ks_keys = keys\<rparr>"
    by (auto simp: parse_key_set_def result_iffs split: json.splits)
  from g have "1 \<le> g" by (cases "json_field d ''generation''") (auto split: if_splits)
  moreover have "key_entry_ok load_key k" if k: "k \<in> set keys" for k
  proof -
    have "list_all2 (\<lambda>e k. parse_key_entry fromiso load_key e = Inr k) es keys"
      using parse_keys_Inr [OF keys] by simp
    from list_all2_in2 [OF this k] obtain e where "parse_key_entry fromiso load_key e = Inr k" ..
    from parse_key_entry_Inr [OF this] show ?thesis by (simp add: key_entry_ok_def)
  qed
  ultimately show ?thesis using parse_keys_Inr [OF keys] act ks by (auto simp: list_ex_iff)
qed

text \<open>
  C22. A key set that loads comes from a file within its size bound and is fit to trust: its
  generation is positive, at least one key is active, every key has a non-empty identifier, a
  non-empty window and a 32-byte public key, and an identifier resolves to exactly the one key
  that carries it, whatever the order of the file.
\<close>

theorem key_set_sound:
  assumes "load_trusted_key_set fromiso load_key max_bytes content = Inr ks"
  shows "(\<exists>raw. content = Some raw \<and> int (length raw) \<le> max_bytes) \<and>
    1 \<le> ks_generation ks \<and> (\<exists>k \<in> set (ks_keys ks). tk_status k = ACTIVE_KEY) \<and>
    (\<forall>k \<in> set (ks_keys ks). key_entry_ok load_key k) \<and>
    (\<forall>kid k. resolve_key ks kid = Some k \<longleftrightarrow> k \<in> set (ks_keys ks) \<and> tk_kid k = kid)"
proof -
  from assms obtain raw v where raw: "content = Some raw" "int (length raw) \<le> max_bytes"
    and v: "parse_key_set fromiso load_key v = Inr ks"
    unfolding load_trusted_key_set_def
    by (elim rbind_elims) (auto split: sum.splits document_error.splits)
  from parse_key_set_Inr [OF v] raw show ?thesis
    by (simp add: resolve_key_distinct)
qed

section \<open>A concrete key file\<close>

text \<open>
  A reader of \<open>YYYY-MM-DDThh:mm:ss+hh:mm\<close>, one of the formats \<open>fromisoformat\<close> documents, to apply
  the theorems with.
\<close>

definition civil_days :: "int \<Rightarrow> int \<Rightarrow> int \<Rightarrow> int" where
  "civil_days y m d =
    (let y = (if m \<le> 2 then y - 1 else y); m = (m + 9) mod 12
     in 365 * y + y div 4 - y div 100 + y div 400 + (153 * m + 2) div 5 + d - 1 - 719468)"

definition iso_basic :: "string \<Rightarrow> datetime option" where
  "iso_basic s =
    (let num = (\<lambda>i n. int (digits_value (take n (drop i s))))
     in if length s = 25 \<and> s ! 4 = CHR ''-'' \<and> s ! 7 = CHR ''-'' \<and> s ! 10 = CHR ''T''
          \<and> s ! 13 = CHR '':'' \<and> s ! 16 = CHR '':'' \<and> s ! 19 = CHR ''+'' \<and> s ! 22 = CHR '':''
        then Some (Datetime
          (seconds (86400 * civil_days (num 0 4) (num 5 2) (num 8 2)
             + 3600 * num 11 2 + 60 * num 14 2 + num 17 2))
          (Some (seconds (3600 * num 20 2 + 60 * num 23 2))))
        else None)"

definition sample_key_doc :: json where
  "sample_key_doc = JObj
    [(''schema_version'', JStr ''1.0''), (''generation'', JInt 4),
     (''keys'', JArr
       [JObj [(''kid'', JStr ''k1''), (''status'', JStr ''active''),
              (''not_before'', JStr ''2026-01-01T00:00:00Z''),
              (''verify_until'', JStr ''2027-01-01T00:00:00Z''),
              (''jwk'', JObj [(''kty'', JStr ''OKP''), (''crv'', JStr ''Ed25519''),
                 (''x'', JStr ''AAAAAAAAAAAAAAAAAAAAAAAAAAAAAAAAAAAAAAAAAAA'')])]])]"

definition sample_load_key :: "bytes \<Rightarrow> (auth_error, bytes) result" where
  "sample_load_key b = (if length b = 32 then Inr b else Inl value_error)"

definition sample_key_set :: "bytes key_set" where
  "sample_key_set = \<lparr>ks_generation = 4, ks_keys =
    [\<lparr>tk_kid = ''k1'', tk_status = ACTIVE_KEY, tk_public_key = replicate 32 0,
      tk_not_before = seconds 1767225600, tk_verify_until = seconds 1798761600\<rparr>]\<rparr>"

definition sample_key_file :: bytes where
  "sample_key_file = utf8_encode (emit sample_key_doc)"

lemma sample_key_x: "decode_base64url ''AAAAAAAAAAAAAAAAAAAAAAAAAAAAAAAAAAAAAAAAAAA'' = Inr (replicate 32 0)"
  by code_simp

lemma sample_instants:
  "iso_basic (utc_suffix ''2026-01-01T00:00:00Z'') = Some (Datetime (seconds 1767225600) (Some 0))"
  "iso_basic (utc_suffix ''2027-01-01T00:00:00Z'') = Some (Datetime (seconds 1798761600) (Some 0))"
  by code_simp+

lemma sample_key_parses: "parse_key_set iso_basic sample_load_key sample_key_doc = Inr sample_key_set"
  by (simp add: parse_key_set_def sample_key_doc_def sample_key_set_def json_field_def insert_commute
      parse_key_entry_def parse_kid_def parse_key_status_def jwk_x_def key_material_def parse_utc_def
      sample_key_x sample_instants sample_load_key_def require_utc_def)

lemma sample_key_text: "utf8_text sample_key_file = Some sample_key_file"
  by code_simp

lemma sample_key_length: "length sample_key_file \<le> 4096"
  by code_simp

lemma sample_key_loads:
  "load_trusted_key_set iso_basic sample_load_key 4096 (Some sample_key_file) = Inr sample_key_set"
proof -
  have "json_loads (emit sample_key_doc) = Inr sample_key_doc"
    by (rule emit_reads) (simp add: sample_key_doc_def int_limit_def nat_str.simps)
  then have "loads_bytes sample_key_file = Inr sample_key_doc"
    unfolding loads_bytes_def sample_key_text
    by (simp add: loads_text_def sample_key_file_def utf8_decode_encode)
  with sample_key_length sample_key_parses show ?thesis
    by (simp add: load_trusted_key_set_def)
qed

theorem key_set_sound_witness:
  "resolve_key sample_key_set ''k1'' = Some (hd (ks_keys sample_key_set))
   \<and> key_entry_ok sample_load_key (hd (ks_keys sample_key_set))"
  using key_set_sound [OF sample_key_loads] by (simp add: sample_key_set_def)

section \<open>The bindings that load\<close>

text \<open>
  Loaded agent bindings form a non-empty dictionary: agent names of 1 to 200 characters, each
  bound once, and every binding is the identifier written in the document for that name.
\<close>

theorem agent_bindings_sound:
  assumes "parse_agent_bindings raw_json = Inr bindings"
  shows "bindings \<noteq> [] \<and> wf_dict bindings \<and>
    (\<exists>d. json_loads raw_json = Inr (JObj d) \<and> dict_keys bindings = dict_keys d \<and>
       (\<forall>name u. dict_get bindings name = Some u \<longrightarrow> 1 \<le> length name \<and> length name \<le> 200 \<and>
          (\<exists>text. dict_get d name = Some (JStr text) \<and> parse_uuid text = Some u)))"
proof -
  obtain d where d: "json_loads raw_json = Inr (JObj d)" "d \<noteq> []" "rmap parse_binding d = Inr bindings"
    using assms by (auto simp: parse_agent_bindings_def loads_text_def
        split: sum.splits json.splits json_error.splits if_splits)
  have step: "fst b = fst a \<and> 1 \<le> length (fst a) \<and> length (fst a) \<le> 200 \<and>
      (\<exists>text. snd a = JStr text \<and> parse_uuid text = Some (snd b))"
    if "parse_binding a = Inr b" for a b
    using that by (cases a) (auto simp: parse_binding_def result_iffs Suc_le_eq split: json.splits)
  from d(3) have all2: "list_all2 (\<lambda>a b. parse_binding a = Inr b) d bindings"
    by (simp add: rmap_Inr_iff)
  have keys: "dict_keys bindings = dict_keys d"
    using all2 by (induction rule: list_all2_induct) (auto dest: step)
  have wf: "wf_dict d" using json_loads_obj [OF d(1)] .
  have "1 \<le> length name \<and> length name \<le> 200 \<and>
      (\<exists>text. dict_get d name = Some (JStr text) \<and> parse_uuid text = Some u)"
    if u: "dict_get bindings name = Some u" for name u
  proof -
    from rmap_in [OF d(3) dict_get_in [OF u]]
    obtain a where a: "a \<in> set d" "parse_binding a = Inr (name, u)" by blast
    from step [OF a(2)] a(1) dict_get_unique [OF wf, of "fst a" "snd a"] show ?thesis by auto
  qed
  with keys wf d all2 show ?thesis by (auto simp: list_all2_Nil2)
qed

theorem agent_bindings_sound_witness:
  "\<exists>bindings. parse_agent_bindings
       (emit (JObj [(''planner'', JStr ''00000000-0000-0000-0000-000000000007'')])) = Inr bindings
     \<and> bindings \<noteq> [] \<and> wf_dict bindings"
proof -
  have "parse_uuid ''00000000-0000-0000-0000-000000000007'' = Some 7" by code_simp
  then have "parse_agent_bindings
      (emit (JObj [(''planner'', JStr ''00000000-0000-0000-0000-000000000007'')])) =
    Inr [(''planner'', 7)]"
    unfolding parse_agent_bindings_def loads_text_def
    by (subst emit_reads) (simp_all add: parse_binding_def)
  from this agent_bindings_sound [OF this] show ?thesis by blast
qed

end
