(* ===== verification/Policy_Loader.thy ===== *)
theory Policy_Loader
  imports Route_Model Bytes
begin

text \<open>
  The routing-policy loader (\<open>adapters/routing_policy_loader.py\<close>).

  \<^item> PyYAML is a parameter. \<open>construct_mapping\<close> is the one method the loader overrides, over
    PyYAML's \<open>construct_object\<close> and the inherited \<open>construct_mapping\<close>; the loaded document as a
    whole is \<open>yaml_load\<close>, with the exception it raises.
  \<^item> Pydantic's coercion of the document to the fields' types is the parameter \<open>coerce\<close>
    (\<open>None\<close> for a \<open>ValidationError\<close>): unknown or missing fields and values of another type.
    A record \<open>policy_config\<close> holds the coerced values; the constraints declared by the source
    are \<open>validate_config\<close>. Infinite and NaN prices are refused by the coercion, and a negative
    zero is read as zero.
  \<^item> \<open>path.read_text\<close> is the file's bytes (\<open>None\<close> for \<open>OSError\<close>), decoded as UTF-8 with
    universal newlines.
\<close>

section \<open>Duplicate keys\<close>

datatype yaml_exc = YAMLError string | YamlOther string

text \<open>
  The loop over the key nodes. A key that cannot be hashed raises \<open>TypeError\<close> in \<open>key in seen\<close>;
  equal keys are the same value of \<open>'k\<close>.
\<close>

fun unique_keys :: "('n \<Rightarrow> (yaml_exc, 'k option) result) \<Rightarrow> 'k list \<Rightarrow> ('n \<times> 'n) list
    \<Rightarrow> (yaml_exc, unit) result" where
  "unique_keys construct_object seen [] = Inr ()"
| "unique_keys construct_object seen ((key_node, value_node) # nodes) =
    rbind (construct_object key_node) (\<lambda>key.
    (case key of
       None \<Rightarrow> Inl (YamlOther ''TypeError'')
     | Some k \<Rightarrow>
         rbind (raise_if (k \<in> set seen) (YAMLError ''found duplicate key'')) (\<lambda>_.
         unique_keys construct_object (k # seen) nodes)))"

definition construct_mapping ::
  "('n \<Rightarrow> (yaml_exc, 'k option) result) \<Rightarrow> (('n \<times> 'n) list \<Rightarrow> (yaml_exc, 'o) result)
    \<Rightarrow> ('n \<times> 'n) list \<Rightarrow> (yaml_exc, 'o) result" where
  "construct_mapping construct_object super_construct_mapping node_value =
    rbind (unique_keys construct_object [] node_value) (\<lambda>_. super_construct_mapping node_value)"

lemma unique_keys_Inr_iff:
  "unique_keys co seen nodes = Inr u \<longleftrightarrow>
    (\<exists>keys. map (co \<circ> fst) nodes = map (Inr \<circ> Some) keys \<and> distinct keys \<and> set keys \<inter> set seen = {})"
proof (induction co seen nodes rule: unique_keys.induct)
  case (1 co seen)
  then show ?case by simp
next
  case (2 co seen kn vn nodes)
  show ?case
  proof (cases "\<exists>k. co kn = Inr (Some k) \<and> k \<notin> set seen")
    case True
    then obtain k where k: "co kn = Inr (Some k)" "k \<notin> set seen" by blast
    with "2.IH" [of "Some k" k "()"] show ?thesis
      by (force simp: map_eq_Cons_conv Cons_eq_map_conv)
  next
    case False
    then have "unique_keys co seen ((kn, vn) # nodes) \<noteq> Inr u"
      by (cases "co kn") (auto simp: result_iffs split: option.splits)
    with False show ?thesis by (auto simp: Cons_eq_map_conv)
  qed
qed

section \<open>The configuration\<close>

text \<open>A price of the file: not negative, or negative (and then refused).\<close>

datatype price = Price decimal | NegativePrice

record profile_config =
  pc_authorized_data_classifications :: "data_classification list"
  pc_authorized_risk_levels :: "risk_level list"
  pc_supports_structured_output :: bool
  pc_supports_tool_calling :: bool
  pc_max_context_tokens :: int
  pc_typical_latency_ms :: int
  pc_input_cost_usd_per_million_tokens :: price
  pc_output_cost_usd_per_million_tokens :: price
  pc_available :: bool
  pc_allowed_agents :: "string list"
  pc_staged :: bool

record rule_config =
  rc_config_model_group :: string
  rc_config_requires_tool_calling :: bool

record policy_config =
  cf_schema_version :: string
  cf_policy_id :: string
  cf_policy_version :: string
  cf_model_groups :: "(string, profile_config) dict"
  cf_workloads :: "(string, rule_config) dict"

text \<open>
  A \<open>ValidationError\<close>: a constraint of a field, or the \<open>ValueError\<close> of the model validator.
\<close>

datatype config_error = Coercion | FieldConstraint string | ConfigValueError string

definition require_field :: "string \<Rightarrow> bool \<Rightarrow> (config_error, unit) result" where
  "require_field name ok = raise_if (\<not> ok) (FieldConstraint name)"

fun price_ge_zero :: "price \<Rightarrow> bool" where
  "price_ge_zero (Price d) = True"
| "price_ge_zero NegativePrice = False"

definition validate_profile :: "profile_config \<Rightarrow> (config_error, unit) result" where
  "validate_profile p =
    rbind (require_field ''authorized_data_classifications''
      (1 \<le> length (pc_authorized_data_classifications p))) (\<lambda>_.
    rbind (require_field ''authorized_risk_levels'' (1 \<le> length (pc_authorized_risk_levels p))) (\<lambda>_.
    rbind (require_field ''max_context_tokens'' (0 < pc_max_context_tokens p)) (\<lambda>_.
    rbind (require_field ''typical_latency_ms'' (0 < pc_typical_latency_ms p)) (\<lambda>_.
    rbind (require_field ''input_cost_usd_per_million_tokens''
      (price_ge_zero (pc_input_cost_usd_per_million_tokens p))) (\<lambda>_.
    require_field ''output_cost_usd_per_million_tokens''
      (price_ge_zero (pc_output_cost_usd_per_million_tokens p)))))))"

text \<open>\<open>_IdentifierText\<close>, then the identifier's own constructor.\<close>

definition identifier_field ::
  "(string \<Rightarrow> (id_error, string) result) \<Rightarrow> string \<Rightarrow> (config_error, string) result" where
  "identifier_field new_id text =
    rbind (require_field ''identifier''
      (1 \<le> length text \<and> length text \<le> 128 \<and> policy_identifier_fullmatch text)) (\<lambda>_.
    (case new_id text of
       Inl (ID_ValueError message) \<Rightarrow> Inl (ConfigValueError message)
     | Inr value \<Rightarrow> Inr value))"

definition model_group_field :: "string \<Rightarrow> (config_error, model_group_id) result" where
  "model_group_field = identifier_field ModelGroupId"

definition workload_field :: "string \<Rightarrow> (config_error, workload_id) result" where
  "workload_field = identifier_field WorkloadId"

definition undefined_groups :: "policy_config \<Rightarrow> string list" where
  "undefined_groups c = sorted_strs
    (filter (\<lambda>g. \<not> dict_has (cf_model_groups c) g) (map (rc_config_model_group \<circ> snd) (cf_workloads c)))"

definition unreferenced_groups :: "policy_config \<Rightarrow> string list" where
  "unreferenced_groups c =
    (let referenced = set (map (rc_config_model_group \<circ> snd) (cf_workloads c))
     in sorted_strs (map fst
          (filter (\<lambda>(g, p). g \<notin> referenced \<and> \<not> pc_staged p) (cf_model_groups c))))"

definition require_referential_integrity :: "policy_config \<Rightarrow> (config_error, unit) result" where
  "require_referential_integrity c =
    rbind (raise_if (undefined_groups c \<noteq> []) (ConfigValueError
      (''workloads reference undefined model groups: '' @ str_join '', '' (undefined_groups c)))) (\<lambda>_.
    raise_if (unreferenced_groups c \<noteq> []) (ConfigValueError
      (''model_groups contains unreachable entries: '' @ str_join '', '' (unreferenced_groups c) @
       ''. Mark a group '' @ py_repr ''staged: true'' @ '' if it is provisioned deliberately ahead '' @
       ''of the workload that will map to it.'')))"

definition validate_config :: "policy_config \<Rightarrow> (config_error, unit) result" where
  "validate_config c =
    rbind (require_field ''schema_version'' (cf_schema_version c = ''1.0'')) (\<lambda>_.
    rbind (require_field ''policy_id'' (1 \<le> length (cf_policy_id c))) (\<lambda>_.
    rbind (require_field ''policy_version'' (1 \<le> length (cf_policy_version c))) (\<lambda>_.
    rbind (rmap (\<lambda>(g, p). rbind (model_group_field g) (\<lambda>_. validate_profile p)) (cf_model_groups c)) (\<lambda>_.
    rbind (require_field ''model_groups'' (1 \<le> length (cf_model_groups c))) (\<lambda>_.
    rbind (rmap (\<lambda>(w, r). rbind (workload_field w) (\<lambda>_. model_group_field (rc_config_model_group r)))
      (cf_workloads c)) (\<lambda>_.
    rbind (require_field ''workloads'' (1 \<le> length (cf_workloads c))) (\<lambda>_.
    require_referential_integrity c)))))))"

section \<open>The domain policy\<close>

text \<open>Applied to validated prices only, which are not negative.\<close>

fun price_value :: "price \<Rightarrow> decimal" where
  "price_value (Price d) = d"
| "price_value NegativePrice = Dec 0 0"

definition to_profile :: "profile_config \<Rightarrow> model_group_profile" where
  "to_profile p =
    \<lparr>mp_authorized_data_classifications = set (pc_authorized_data_classifications p),
     mp_authorized_risk_levels = set (pc_authorized_risk_levels p),
     mp_supports_structured_output = pc_supports_structured_output p,
     mp_supports_tool_calling = pc_supports_tool_calling p,
     mp_max_context_tokens = nat (pc_max_context_tokens p),
     mp_typical_latency_ms = nat (pc_typical_latency_ms p),
     mp_input_cost_usd_per_million_tokens = price_value (pc_input_cost_usd_per_million_tokens p),
     mp_output_cost_usd_per_million_tokens = price_value (pc_output_cost_usd_per_million_tokens p),
     mp_available = pc_available p,
     mp_allowed_agents = set (pc_allowed_agents p),
     mp_staged = pc_staged p\<rparr>"

definition to_rule :: "rule_config \<Rightarrow> workload_rule" where
  "to_rule r = \<lparr>wr_model_group = rc_config_model_group r,
     wr_requires_tool_calling = rc_config_requires_tool_calling r\<rparr>"

definition to_domain :: "policy_config \<Rightarrow> string \<Rightarrow> routing_policy" where
  "to_domain c digest =
    \<lparr>rp_schema_version = cf_schema_version c,
     rp_policy_id = cf_policy_id c,
     rp_policy_version = cf_policy_version c,
     rp_policy_digest = digest,
     rp_model_groups = map (\<lambda>(g, p). (g, to_profile p)) (cf_model_groups c),
     rp_workloads = map (\<lambda>(w, r). (w, to_rule r)) (cf_workloads c)\<rparr>"

section \<open>Loading\<close>

datatype load_error =
    Unreadable | InvalidYaml string | SchemaMismatch config_error
  | LoadException string

text \<open>\<open>RoutingPolicyLoadError\<close>, which the callers catch; \<open>LoadException\<close> is any other exception.\<close>

fun is_RoutingPolicyLoadError :: "load_error \<Rightarrow> bool" where
  "is_RoutingPolicyLoadError (LoadException t) = False"
| "is_RoutingPolicyLoadError _ = True"

text \<open>
  Universal newlines: \<open>\\r\\n\<close> and a lone \<open>\\r\<close> are read as \<open>\\n\<close>. The flag tells whether
  the previous character was \<open>\\r\<close>.
\<close>

fun universal_newlines :: "bool \<Rightarrow> string \<Rightarrow> string" where
  "universal_newlines cr [] = []"
| "universal_newlines cr (c # s) =
    (if c = CHR 0x0D then CHR 0x0A # universal_newlines True s
     else if c = CHR 0x0A \<and> cr then universal_newlines False s
     else c # universal_newlines False s)"

definition read_text :: "bytes option \<Rightarrow> (load_error, string) result" where
  "read_text content =
    rbind (some_or content Unreadable) (\<lambda>raw.
    (case utf8_decode raw of
       Inl UnicodeDecodeError \<Rightarrow> Inl (LoadException ''UnicodeDecodeError'')
     | Inl BeyondLatin1 \<Rightarrow> Inl (LoadException ''outside the model'')
     | Inr text \<Rightarrow> Inr (universal_newlines False text)))"

definition config_digest :: "string \<Rightarrow> string" where
  "config_digest raw_text = ''sha256:'' @ sha256_hex (utf8_encode raw_text)"

definition load_routing_policy ::
  "(string \<Rightarrow> (yaml_exc, 'o) result) \<Rightarrow> ('o \<Rightarrow> policy_config option) \<Rightarrow> bytes option
    \<Rightarrow> (load_error, routing_policy) result" where
  "load_routing_policy yaml_load coerce content =
    rbind (read_text content) (\<lambda>raw_text.
    rbind (case yaml_load raw_text of
        Inl (YAMLError m) \<Rightarrow> Inl (InvalidYaml m)
      | Inl (YamlOther t) \<Rightarrow> Inl (LoadException t)
      | Inr raw_data \<Rightarrow> Inr raw_data) (\<lambda>raw_data.
    rbind (some_or (coerce raw_data) (SchemaMismatch Coercion)) (\<lambda>config.
    rbind (case validate_config config of
        Inl e \<Rightarrow> Inl (SchemaMismatch e)
      | Inr u \<Rightarrow> Inr u) (\<lambda>_.
    Inr (to_domain config (config_digest raw_text))))))"

section \<open>What is accepted\<close>

lemma unreferenced_staged:
  assumes "unreferenced_groups c = []" "(g, p) \<in> set (cf_model_groups c)"
  shows "pc_staged p \<or> g \<in> set (map (rc_config_model_group \<circ> snd) (cf_workloads c))"
proof (rule ccontr)
  assume "\<not> ?thesis"
  with assms(2) have "g \<in> set (unreferenced_groups c)"
    by (force simp: unreferenced_groups_def)
  with assms(1) show False by simp
qed

lemma undefined_declared:
  assumes "undefined_groups c = []" "(w, r) \<in> set (cf_workloads c)"
  shows "dict_has (cf_model_groups c) (rc_config_model_group r)"
proof (rule ccontr)
  assume "\<not> ?thesis"
  with assms(2) have "rc_config_model_group r \<in> set (undefined_groups c)"
    by (force simp: undefined_groups_def)
  with assms(1) show False by simp
qed

lemma identifier_field_Inr: "identifier_field new_id s = Inr v \<Longrightarrow> new_id s = Inr v"
  unfolding identifier_field_def
  by (elim rbind_elims) (simp split: sum.splits id_error.splits)

lemma identifiers_same: "ModelGroupId s = Inr v \<Longrightarrow> v = s" "WorkloadId s = Inr v \<Longrightarrow> v = s"
  by (auto simp: ModelGroupId_def WorkloadId_def PolicyIdentifier_def rbind_Inr_iff split: if_splits)

definition profile_ok :: "profile_config \<Rightarrow> bool" where
  "profile_ok p \<longleftrightarrow> pc_authorized_data_classifications p \<noteq> [] \<and> pc_authorized_risk_levels p \<noteq> []
     \<and> 0 < pc_max_context_tokens p \<and> 0 < pc_typical_latency_ms p
     \<and> pc_input_cost_usd_per_million_tokens p \<noteq> NegativePrice
     \<and> pc_output_cost_usd_per_million_tokens p \<noteq> NegativePrice"

lemma price_ge_zero_iff: "price_ge_zero x \<longleftrightarrow> x \<noteq> NegativePrice"
  by (cases x) simp_all

lemma validate_profile_iff: "validate_profile p = Inr u \<longleftrightarrow> profile_ok p"
  by (simp add: validate_profile_def require_field_def rbind_Inr_iff raise_if_Inr_iff profile_ok_def
      price_ge_zero_iff Suc_le_eq)

definition config_ok :: "policy_config \<Rightarrow> bool" where
  "config_ok c \<longleftrightarrow> cf_schema_version c = ''1.0'' \<and> cf_policy_id c \<noteq> [] \<and> cf_policy_version c \<noteq> []
     \<and> cf_model_groups c \<noteq> [] \<and> cf_workloads c \<noteq> []
     \<and> (\<forall>(g, p) \<in> set (cf_model_groups c). valid_model_group g \<and> profile_ok p \<and>
          (pc_staged p \<or> g \<in> set (map (rc_config_model_group \<circ> snd) (cf_workloads c))))
     \<and> (\<forall>(w, r) \<in> set (cf_workloads c). valid_workload w \<and>
          dict_has (cf_model_groups c) (rc_config_model_group r))"

lemma rmap_all: "rmap f xs = Inr ys \<Longrightarrow> x \<in> set xs \<Longrightarrow> \<exists>y. f x = Inr y"
  by (induction xs arbitrary: ys) (auto simp: rbind_Inr_iff)

lemma validate_config_ok:
  assumes "validate_config c = Inr u"
  shows "config_ok c"
proof -
  from assms obtain gs ws where
    scalars: "cf_schema_version c = ''1.0''" "1 \<le> length (cf_policy_id c)" "1 \<le> length (cf_policy_version c)"
      "1 \<le> length (cf_model_groups c)" "1 \<le> length (cf_workloads c)"
    and gs: "rmap (\<lambda>(g, p). rbind (model_group_field g) (\<lambda>_. validate_profile p)) (cf_model_groups c) = Inr gs"
    and ws: "rmap (\<lambda>(w, r). rbind (workload_field w) (\<lambda>_. model_group_field (rc_config_model_group r)))
      (cf_workloads c) = Inr ws"
    and refs: "undefined_groups c = []" "unreferenced_groups c = []"
    unfolding validate_config_def require_field_def require_referential_integrity_def
    by (elim rbind_elims) simp
  have "valid_model_group g \<and> profile_ok p" if gp: "(g, p) \<in> set (cf_model_groups c)" for g p
  proof -
    from rmap_all [OF gs gp] obtain v y where v: "model_group_field g = Inr v" "validate_profile p = Inr y"
      by (auto simp: rbind_Inr_iff)
    from identifier_field_Inr [OF v(1) [unfolded model_group_field_def]] identifiers_same(1) v(2)
    show ?thesis by (auto simp: validate_profile_iff)
  qed
  moreover have "valid_workload w" if wr: "(w, r) \<in> set (cf_workloads c)" for w r
  proof -
    from rmap_all [OF ws wr] obtain v where "workload_field w = Inr v" by (auto simp: rbind_Inr_iff)
    from identifier_field_Inr [OF this [unfolded workload_field_def]] identifiers_same(2)
    show ?thesis by auto
  qed
  moreover note unreferenced_staged [OF refs(2)] undefined_declared [OF refs(1)]
  ultimately show ?thesis
    using scalars unfolding config_ok_def by (simp add: case_prod_beta Suc_le_eq) force
qed

lemma load_routing_policy_Inr:
  assumes "load_routing_policy yaml_load coerce content = Inr p"
  obtains src raw c where "read_text content = Inr src" "yaml_load src = Inr raw"
    "coerce raw = Some c" "config_ok c" "p = to_domain c (config_digest src)"
  using assms validate_config_ok unfolding load_routing_policy_def
  by (elim rbind_elims) (auto split: sum.splits yaml_exc.splits)

lemma ok_no_undefined: "config_ok c \<Longrightarrow> undefined_groups c = []"
proof -
  assume "config_ok c"
  then have "filter (\<lambda>g. \<not> dict_has (cf_model_groups c) g)
      (map (rc_config_model_group \<circ> snd) (cf_workloads c)) = []"
    by (auto simp: config_ok_def filter_empty_conv)
  then show ?thesis by (simp add: undefined_groups_def sorted_strs_def)
qed

lemma ok_no_unreferenced: "config_ok c \<Longrightarrow> unreferenced_groups c = []"
proof -
  assume "config_ok c"
  then have "filter (\<lambda>(g, p). g \<notin> set (map (rc_config_model_group \<circ> snd) (cf_workloads c))
      \<and> \<not> pc_staged p) (cf_model_groups c) = []"
    by (auto simp: config_ok_def filter_empty_conv)
  then show ?thesis unfolding unreferenced_groups_def Let_def
    by (metis list.simps(8) sorted_strs_def remdups.simps(1) sort_key_simps(1))
qed

lemma rmap_total: "\<forall>x \<in> set xs. \<exists>y. f x = Inr y \<Longrightarrow> \<exists>ys. rmap f xs = Inr ys"
  by (induction xs) (auto simp: rbind_Inr_iff)

lemma valid_length: "policy_identifier_fullmatch s \<Longrightarrow> 1 \<le> length s \<and> length s \<le> 128"
  by (cases s) (auto simp: length_butlast)

lemma valid_fields:
  "valid_model_group g \<Longrightarrow> model_group_field g = Inr g"
  "valid_workload w \<Longrightarrow> workload_field w = Inr w"
proof -
  have "policy_identifier_fullmatch g" if "valid_model_group g" for g
    using that by (simp add: ModelGroupId_def PolicyIdentifier_def split: if_splits)
  then show "valid_model_group g \<Longrightarrow> model_group_field g = Inr g"
    using valid_length by (simp add: model_group_field_def identifier_field_def require_field_def)
  have "policy_identifier_fullmatch w" if "valid_workload w" for w
    using that by (auto simp: WorkloadId_def PolicyIdentifier_def rbind_Inr_iff split: if_splits)
  then show "valid_workload w \<Longrightarrow> workload_field w = Inr w"
    using valid_length by (simp add: workload_field_def identifier_field_def require_field_def)
qed

lemma validate_config_iff: "validate_config c = Inr () \<longleftrightarrow> config_ok c"
proof
  assume ok: "config_ok c"
  have "\<exists>ys. rmap (\<lambda>(g, p). rbind (model_group_field g) (\<lambda>_. validate_profile p)) (cf_model_groups c) = Inr ys"
  proof (rule rmap_total, rule ballI)
    fix x assume "x \<in> set (cf_model_groups c)"
    with ok have "valid_model_group (fst x)" "profile_ok (snd x)" by (auto simp: config_ok_def)
    then show "\<exists>y. (case x of (g, p) \<Rightarrow> rbind (model_group_field g) (\<lambda>_. validate_profile p)) = Inr y"
      by (simp add: valid_fields validate_profile_iff case_prod_beta)
  qed
  moreover have "\<exists>ys. rmap (\<lambda>(w, r). rbind (workload_field w)
      (\<lambda>_. model_group_field (rc_config_model_group r))) (cf_workloads c) = Inr ys"
  proof (rule rmap_total, rule ballI)
    fix x assume "x \<in> set (cf_workloads c)"
    with ok have w: "valid_workload (fst x)"
      and "dict_has (cf_model_groups c) (rc_config_model_group (snd x))"
      by (auto simp: config_ok_def)
    then have "valid_model_group (rc_config_model_group (snd x))"
      using ok by (auto simp: config_ok_def dict_has_iff)
    with w show "\<exists>y. (case x of (w, r) \<Rightarrow> rbind (workload_field w)
        (\<lambda>_. model_group_field (rc_config_model_group r))) = Inr y"
      by (simp add: valid_fields case_prod_beta)
  qed
  ultimately show "validate_config c = Inr ()"
    using ok ok_no_undefined [OF ok] ok_no_unreferenced [OF ok]
    by (auto simp: validate_config_def require_field_def require_referential_integrity_def
        config_ok_def Suc_le_eq)
next
  show "validate_config c = Inr () \<Longrightarrow> config_ok c" by (rule validate_config_ok)
qed

lemma load_routing_policy_iff:
  "load_routing_policy yaml_load coerce content = Inr p \<longleftrightarrow>
    (\<exists>src raw c. read_text content = Inr src \<and> yaml_load src = Inr raw \<and> coerce raw = Some c \<and>
       config_ok c \<and> p = to_domain c (config_digest src))"
proof
  assume "load_routing_policy yaml_load coerce content = Inr p"
  then show "\<exists>src raw c. read_text content = Inr src \<and> yaml_load src = Inr raw \<and>
      coerce raw = Some c \<and> config_ok c \<and> p = to_domain c (config_digest src)"
    by (rule load_routing_policy_Inr) blast
next
  assume "\<exists>src raw c. read_text content = Inr src \<and> yaml_load src = Inr raw \<and>
      coerce raw = Some c \<and> config_ok c \<and> p = to_domain c (config_digest src)"
  then show "load_routing_policy yaml_load coerce content = Inr p"
    by (auto simp: load_routing_policy_def validate_config_iff [symmetric])
qed

text \<open>Pydantic builds dictionaries: their keys are distinct.\<close>

definition coerces_dicts :: "('o \<Rightarrow> policy_config option) \<Rightarrow> bool" where
  "coerces_dicts coerce \<longleftrightarrow> (\<forall>raw c. coerce raw = Some c \<longrightarrow>
     wf_dict (cf_model_groups c) \<and> wf_dict (cf_workloads c))"

lemma to_domain_keys:
  "dict_keys (rp_model_groups (to_domain c d)) = dict_keys (cf_model_groups c)"
  "dict_keys (rp_workloads (to_domain c d)) = dict_keys (cf_workloads c)"
  by (simp_all add: to_domain_def case_prod_beta comp_def)

lemma to_domain_closed:
  "config_ok c \<Longrightarrow> wf_dict (cf_model_groups c) \<Longrightarrow> wf_dict (cf_workloads c) \<Longrightarrow>
    policy_closed (to_domain c d)"
  unfolding policy_closed_def dict_has_iff to_domain_keys
  by (auto simp: config_ok_def to_domain_def to_rule_def dict_has_iff case_prod_beta)

section \<open>Properties\<close>

definition fit_profile :: "model_group_profile \<Rightarrow> bool" where
  "fit_profile p \<longleftrightarrow> mp_authorized_data_classifications p \<noteq> {} \<and> mp_authorized_risk_levels p \<noteq> {}
     \<and> 0 < mp_max_context_tokens p \<and> 0 < mp_typical_latency_ms p"

text \<open>
  C24. A policy that loads is fit to route with: identifiers are valid, no dictionary has a
  duplicate, every workload names a declared group, every group is mapped by a workload or
  deliberately staged, every profile has a clearance and positive limits, and the digest is
  \<open>sha256:\<close> and the 64 hexadecimal digits of the text that was read.
\<close>

theorem loaded_policy_sound:
  assumes "coerces_dicts coerce" "load_routing_policy yaml_load coerce content = Inr p"
  shows "rp_schema_version p = ''1.0'' \<and> rp_policy_id p \<noteq> [] \<and> rp_policy_version p \<noteq> []
    \<and> rp_workloads p \<noteq> [] \<and> policy_closed p
    \<and> (\<forall>(g, profile) \<in> set (rp_model_groups p). valid_model_group g \<and> fit_profile profile \<and>
         (mp_staged profile \<or> (\<exists>(w, rule) \<in> set (rp_workloads p). wr_model_group rule = g)))
    \<and> (\<forall>w \<in> set (dict_keys (rp_workloads p)). valid_workload w)
    \<and> (\<exists>src. read_text content = Inr src \<and>
         rp_policy_digest p = ''sha256:'' @ sha256_hex (utf8_encode src))"
proof -
  obtain src raw c where src: "read_text content = Inr src" and c: "coerce raw = Some c" "config_ok c"
    and p: "p = to_domain c (config_digest src)"
    using load_routing_policy_Inr [OF assms(2)] by metis
  have wf: "wf_dict (cf_model_groups c)" "wf_dict (cf_workloads c)"
    using assms(1) c(1) by (auto simp: coerces_dicts_def)
  have closed: "policy_closed p" unfolding p using c(2) wf by (rule to_domain_closed)
  have groups: "valid_model_group g \<and> fit_profile profile \<and>
      (mp_staged profile \<or> (\<exists>(w, rule) \<in> set (rp_workloads p). wr_model_group rule = g))"
    if g: "(g, profile) \<in> set (rp_model_groups p)" for g profile
  proof -
    from g obtain q where q: "(g, q) \<in> set (cf_model_groups c)" "profile = to_profile q"
      by (auto simp: p to_domain_def)
    with c(2) have "valid_model_group g" "profile_ok q"
      "pc_staged q \<or> g \<in> set (map (rc_config_model_group \<circ> snd) (cf_workloads c))"
      by (auto simp: config_ok_def)
    moreover have "\<exists>(w, rule) \<in> set (rp_workloads p). wr_model_group rule = g"
      if "g \<in> set (map (rc_config_model_group \<circ> snd) (cf_workloads c))"
      using that by (force simp: p to_domain_def to_rule_def)
    ultimately show ?thesis
      using q by (auto simp: profile_ok_def fit_profile_def to_profile_def)
  qed
  have loads: "\<forall>w \<in> set (dict_keys (rp_workloads p)). valid_workload w"
    unfolding p to_domain_keys using c(2) by (auto simp: config_ok_def)
  have scalars: "rp_schema_version p = ''1.0'' \<and> rp_policy_id p \<noteq> [] \<and> rp_policy_version p \<noteq> []
      \<and> rp_workloads p \<noteq> []"
    using c(2) by (simp add: p to_domain_def config_ok_def)
  have digest: "rp_policy_digest p = ''sha256:'' @ sha256_hex (utf8_encode src)"
    by (simp add: p to_domain_def config_digest_def)
  from groups have "\<forall>(g, profile) \<in> set (rp_model_groups p). valid_model_group g \<and>
      fit_profile profile \<and>
      (mp_staged profile \<or> (\<exists>(w, rule) \<in> set (rp_workloads p). wr_model_group rule = g))"
    by blast
  with scalars closed loads src digest show ?thesis by blast
qed

definition sample_profile_config :: profile_config where
  "sample_profile_config =
    \<lparr>pc_authorized_data_classifications = [PUBLIC], pc_authorized_risk_levels = [LOW],
     pc_supports_structured_output = False, pc_supports_tool_calling = False,
     pc_max_context_tokens = 16000, pc_typical_latency_ms = 3000,
     pc_input_cost_usd_per_million_tokens = Price (Dec 10 (-2)),
     pc_output_cost_usd_per_million_tokens = Price (Dec 40 (-2)),
     pc_available = True, pc_allowed_agents = [], pc_staged = False\<rparr>"

definition sample_policy_config :: policy_config where
  "sample_policy_config =
    \<lparr>cf_schema_version = ''1.0'', cf_policy_id = ''p'', cf_policy_version = ''1'',
     cf_model_groups = [(''fast'', sample_profile_config)],
     cf_workloads = [(''rag.answer'',
       \<lparr>rc_config_model_group = ''fast'', rc_config_requires_tool_calling = False\<rparr>)]\<rparr>"

text \<open>A document reader that knows one document.\<close>

definition sample_coerce :: "string \<Rightarrow> policy_config option" where
  "sample_coerce doc = (if doc = ''policy'' then Some sample_policy_config else None)"

lemma sample_identifiers: "valid_model_group ''fast''" "valid_workload ''rag.answer''"
  by code_simp+

lemma sample_config_ok: "config_ok sample_policy_config"
  using sample_identifiers
  by (simp add: config_ok_def sample_policy_config_def profile_ok_def sample_profile_config_def
      dict_has_def)

lemma sample_coerces: "coerces_dicts sample_coerce"
  by (auto simp: coerces_dicts_def sample_coerce_def sample_policy_config_def split: if_splits)

lemma sample_policy_loads:
  "load_routing_policy Inr sample_coerce (Some (utf8_encode ''policy'')) =
    Inr (to_domain sample_policy_config (config_digest ''policy''))"
  unfolding load_routing_policy_iff
  using sample_config_ok by (auto simp: read_text_def utf8_decode_encode sample_coerce_def)

theorem loaded_policy_sound_witness:
  "policy_closed (to_domain sample_policy_config (config_digest ''policy''))
   \<and> valid_workload ''rag.answer''"
  using loaded_policy_sound [OF sample_coerces sample_policy_loads]
  by (simp add: to_domain_keys) (simp add: sample_policy_config_def)

text \<open>
  Validation is exact: the loader returns the domain form of a configuration precisely when
  the text can be read, YAML and the field types accept it, and the configuration is consistent;
  nothing else is refused, and nothing is repaired on the way.
\<close>

theorem load_accepts_iff:
  "load_routing_policy yaml_load coerce content = Inr p \<longleftrightarrow>
    (\<exists>src raw c. read_text content = Inr src \<and> yaml_load src = Inr raw \<and> coerce raw = Some c \<and>
       config_ok c \<and> p = to_domain c (config_digest src))"
  by (rule load_routing_policy_iff)

text \<open>
  With a loaded policy routing never meets a configuration defect: for a workload the policy
  declares, whatever the availability provider answers, the outcome is a decision, a hard
  rejection, or an overflow of the price arithmetic.
\<close>

theorem loaded_policy_never_incomplete:
  assumes "coerces_dicts coerce" "load_routing_policy yaml_load coerce content = Inr (uc_policy self)"
    and "declares_workload self (rr_workload request)"
  shows "case route self resolve new_id now request include of
      Inl (IncompleteRoutingPolicyError m) \<Rightarrow> False
    | Inl (KeyError g) \<Rightarrow> False
    | _ \<Rightarrow> True"
proof -
  have closed: "policy_closed (uc_policy self)" using loaded_policy_sound [OF assms(1,2)] by simp
  from assms(3) obtain rule where
    rule: "dict_get (rp_workloads (uc_policy self)) (rr_workload request) = Some rule"
    by (auto simp: declares_workload_def dest: dict_has_get)
  from policy_closed_group [OF closed rule] obtain q where
    q: "dict_get (rp_model_groups (uc_policy self)) (wr_model_group rule) = Some q" by blast
  have cand: "candidates_of self include (wr_model_group rule) \<noteq> Inl e" for e
    using q by (simp add: candidates_of_def)
  have rej: "rejection_reasons request rule eff cs [] = Inl e \<Longrightarrow> e = DecimalOverflow" for eff cs e
    by (rule rejection_reasons_no_other_error)
  show ?thesis
    using cand rej by (auto simp: route_def rule Let_def rbind_Inl_iff
        split: sum.splits option.splits route_error.splits)
qed

definition rag_use_case :: route_use_case where
  "rag_use_case =
    \<lparr>uc_policy = to_domain sample_policy_config (config_digest ''policy''),
     uc_service_version = ''0.5.0'', uc_environment = ''test''\<rparr>"

definition rag_request :: route_request where
  "rag_request =
    \<lparr>rr_schema_version = ''1.0'', rr_requested_at = 0, rr_workflow_id = ''w'', rr_task_id = ''t'',
     rr_agent_name = ''planner'', rr_workload = ''rag.answer'', rr_risk_level = HIGH,
     rr_data_classification = PUBLIC, rr_context_tokens_estimated = 10,
     rr_max_output_tokens_estimated = 10, rr_structured_output_required = False,
     rr_max_latency_ms = 5000, rr_max_cost_usd = Dec 1 0\<rparr>"

theorem loaded_policy_never_incomplete_witness:
  "case route rag_use_case StaticAvailabilityProvider_resolve ''id'' 0 rag_request True of
     Inl (IncompleteRoutingPolicyError m) \<Rightarrow> False
   | Inl (KeyError g) \<Rightarrow> False
   | _ \<Rightarrow> True"
proof (rule loaded_policy_never_incomplete [OF sample_coerces])
  show "load_routing_policy Inr sample_coerce (Some (utf8_encode ''policy''))
      = Inr (uc_policy rag_use_case)"
    using sample_policy_loads by (simp add: rag_use_case_def)
  show "declares_workload rag_use_case (rr_workload rag_request)"
    by (simp add: declares_workload_def dict_has_def rag_use_case_def rag_request_def
        to_domain_def sample_policy_config_def)
qed

text \<open>
  A file that is not UTF-8 does not raise \<open>RoutingPolicyLoadError\<close>: \<open>read_text\<close> raises
  \<open>UnicodeDecodeError\<close>, which no clause of the loader catches.
\<close>

theorem non_utf8_policy_escapes:
  "load_routing_policy yaml_load coerce (Some [255]) = Inl (LoadException ''UnicodeDecodeError'')"
  by (simp add: load_routing_policy_def read_text_def wide_lead_def Let_def)

text \<open>A mapping with a key that cannot be hashed raises \<open>TypeError\<close>, not a \<open>YAMLError\<close>.\<close>

theorem unhashable_key_escapes:
  assumes "construct_object n = Inr None"
  shows "construct_mapping construct_object base [(n, v)] = Inl (YamlOther ''TypeError'')"
  using assms by (simp add: construct_mapping_def)

text \<open>The loader builds a mapping exactly when every key can be hashed and no two are equal.\<close>

theorem construct_mapping_unique:
  "returns (construct_mapping construct_object base nodes) \<longleftrightarrow>
    (\<exists>keys. map (construct_object \<circ> fst) nodes = map (Inr \<circ> Some) keys \<and> distinct keys)
    \<and> returns (base nodes)"
  by (auto simp: construct_mapping_def rbind_Inr_iff unique_keys_Inr_iff)

end
