(* ===== verification/Authorization_Contract.thy ===== *)
theory Authorization_Contract
  imports Domain Authorization_Domain Json "HOL-Library.Monad_Syntax"
begin

text \<open>
  The signed contract (\<open>application/runtime_authorization_contract.py\<close>): its records, every
  field constraint and validator, and the canonical bytes Governance signs.

  Pydantic coerces the wire document to the fields' types; a record of this theory holds the
  coerced values, and \<open>validate_...\<close> is what the model class does with them: the constraints of
  \<open>Field\<close>, \<open>str_strip_whitespace\<close> on every plain string, the field validators and the model
  validators. \<open>None\<close> is a \<open>ValidationError\<close>. Pydantic's JSON text of an instant is a parameter
  (\<open>dump_time\<close>).
\<close>

section \<open>Constrained strings\<close>

definition is_alnum :: "char \<Rightarrow> bool" where
  "is_alnum c \<longleftrightarrow> is_lower c \<or> is_upper c \<or> is_digit c"

definition str_field :: "nat \<Rightarrow> nat \<Rightarrow> (string \<Rightarrow> bool) \<Rightarrow> string \<Rightarrow> string option" where
  "str_field lo hi pattern text =
    (let s = trim text in if lo \<le> length s \<and> length s \<le> hi \<and> pattern s then Some s else None)"

definition Digest :: "string \<Rightarrow> string option" where
  "Digest = str_field 64 64 (list_all is_hex)"

definition Identifier :: "string \<Rightarrow> string option" where
  "Identifier = str_field 1 200 (\<lambda>s. s \<noteq> [] \<and> is_alnum (hd s)
     \<and> list_all (\<lambda>c. is_alnum c \<or> c \<in> set ''._:/-'') (tl s))"

definition RoutingGroup :: "string \<Rightarrow> string option" where
  "RoutingGroup = str_field 2 100 (\<lambda>s. s \<noteq> [] \<and> (is_lower (hd s) \<or> is_digit (hd s))
     \<and> list_all (\<lambda>c. is_lower c \<or> is_digit c \<or> c \<in> set ''._-'') (tl s))"

definition ShortText :: "string \<Rightarrow> string option" where
  "ShortText = str_field 1 300 (\<lambda>s. True)"

definition int_field :: "int \<Rightarrow> int \<Rightarrow> int \<Rightarrow> int option" where
  "int_field lo hi n = (if lo \<le> n \<and> n \<le> hi then Some n else None)"

definition int_ge :: "int \<Rightarrow> int \<Rightarrow> int option" where
  "int_ge lo n = (if lo \<le> n then Some n else None)"

text \<open>Every element of a tuple, or none.\<close>

fun all_some :: "('a \<Rightarrow> 'b option) \<Rightarrow> 'a list \<Rightarrow> 'b list option" where
  "all_some f [] = Some []"
| "all_some f (x # xs) =
    Option.bind (f x) (\<lambda>y. Option.bind (all_some f xs) (\<lambda>ys. Some (y # ys)))"

definition require :: "bool \<Rightarrow> unit option" where
  "require c = (if c then Some () else None)"

section \<open>Records\<close>

datatype risk_tier = TIER_LOW | TIER_MEDIUM | TIER_HIGH | TIER_CRITICAL

fun tier_value :: "risk_tier \<Rightarrow> string" where
  "tier_value TIER_LOW = ''low''"
| "tier_value TIER_MEDIUM = ''medium''"
| "tier_value TIER_HIGH = ''high''"
| "tier_value TIER_CRITICAL = ''critical''"

datatype autonomy_level =
    A0_INFORMATION | A1_RECOMMENDATION | A2_PREPARE_FOR_APPROVAL
  | A3_REVERSIBLE_ACTIONS | A4_HIGH_IMPACT_ACTIONS | A5_HIGH_AUTONOMY

fun autonomy_value :: "autonomy_level \<Rightarrow> string" where
  "autonomy_value A0_INFORMATION = ''a0_information''"
| "autonomy_value A1_RECOMMENDATION = ''a1_recommendation''"
| "autonomy_value A2_PREPARE_FOR_APPROVAL = ''a2_prepare_for_approval''"
| "autonomy_value A3_REVERSIBLE_ACTIONS = ''a3_reversible_actions''"
| "autonomy_value A4_HIGH_IMPACT_ACTIONS = ''a4_high_impact_actions''"
| "autonomy_value A5_HIGH_AUTONOMY = ''a5_high_autonomy''"

record protected_header =
  ph_typ :: string
  ph_alg :: string
  ph_kid :: string

record policy_provenance =
  pv_policy_id :: string
  pv_policy_version :: string
  pv_policy_digest :: string
  pv_control_catalog_id :: string
  pv_control_catalog_version :: string
  pv_control_catalog_digest :: string

record subject =
  sj_initiative_id :: uuid
  sj_ai_system_id :: uuid
  sj_ai_system_version :: int
  sj_agent_id :: uuid
  sj_agent_version :: int
  sj_agent_review_digest :: string

record authorized_model =
  am_model_id :: uuid
  am_entity_version :: int
  am_model_version :: string
  am_routing_group :: string
  am_review_digest :: string
  am_allowed_data_classes :: "data_classification list"

record request_binding =
  rb_workflow_id :: string
  rb_task_id :: string
  rb_workload :: string
  rb_context_tokens_estimated :: int
  rb_max_output_tokens_estimated :: int
  rb_structured_output_required :: bool
  rb_max_latency_ms :: int
  rb_max_cost_usd_micros :: int

record auth_scope =
  sc_risk_tier :: risk_tier
  sc_data_classification :: data_classification
  sc_autonomy_level :: autonomy_level
  sc_models :: "authorized_model list"
  sc_allowed_tools :: "string list"
  sc_permissions :: "string list"
  sc_max_runtime_seconds :: int
  sc_human_approval_points :: "string list"
  sc_kill_switch_enabled :: bool

text \<open>\<open>'t\<close> is \<open>datetime\<close> before validation and \<open>instant\<close> after it.\<close>

record 't claims =
  cl_schema_version :: string
  cl_authorization_id :: uuid
  cl_issuer :: string
  cl_audience :: "string list"
  cl_issued_at :: 't
  cl_not_before :: 't
  cl_expires_at :: 't
  cl_subject :: subject
  cl_request :: request_binding
  cl_scope :: auth_scope
  cl_scope_digest :: string
  cl_policy :: policy_provenance

record 't envelope =
  ev_protected :: protected_header
  ev_claims :: "'t claims"
  ev_signature :: string

definition media_type :: string where
  "media_type = ''application/vnd.verifiable-ai-governance.runtime-authorization+json''"

definition max_lifetime_seconds :: int where
  "max_lifetime_seconds = 600"

section \<open>Validation\<close>

definition validate_header :: "protected_header \<Rightarrow> protected_header option" where
  "validate_header h = do {
     require (ph_typ h = media_type);
     require (ph_alg h = ''Ed25519'');
     kid \<leftarrow> Identifier (ph_kid h);
     Some (h\<lparr>ph_kid := kid\<rparr>)
   }"

definition validate_provenance :: "policy_provenance \<Rightarrow> policy_provenance option" where
  "validate_provenance p = do {
     i \<leftarrow> Identifier (pv_policy_id p);
     v \<leftarrow> Identifier (pv_policy_version p);
     d \<leftarrow> Digest (pv_policy_digest p);
     ci \<leftarrow> Identifier (pv_control_catalog_id p);
     cv \<leftarrow> Identifier (pv_control_catalog_version p);
     cd \<leftarrow> Digest (pv_control_catalog_digest p);
     Some \<lparr>pv_policy_id = i, pv_policy_version = v, pv_policy_digest = d,
           pv_control_catalog_id = ci, pv_control_catalog_version = cv, pv_control_catalog_digest = cd\<rparr>
   }"

definition validate_subject :: "subject \<Rightarrow> subject option" where
  "validate_subject s = do {
     int_ge 1 (sj_ai_system_version s);
     int_ge 1 (sj_agent_version s);
     d \<leftarrow> Digest (sj_agent_review_digest s);
     Some (s\<lparr>sj_agent_review_digest := d\<rparr>)
   }"

definition normalize_data_classes :: "data_classification list \<Rightarrow> data_classification list" where
  "normalize_data_classes values = sort (remdups values)"

definition validate_model :: "authorized_model \<Rightarrow> authorized_model option" where
  "validate_model m = do {
     int_ge 1 (am_entity_version m);
     v \<leftarrow> Identifier (am_model_version m);
     g \<leftarrow> RoutingGroup (am_routing_group m);
     d \<leftarrow> Digest (am_review_digest m);
     require (am_allowed_data_classes m \<noteq> []);
     Some (m\<lparr>am_model_version := v, am_routing_group := g, am_review_digest := d,
       am_allowed_data_classes := normalize_data_classes (am_allowed_data_classes m)\<rparr>)
   }"

definition validate_binding :: "request_binding \<Rightarrow> request_binding option" where
  "validate_binding b = do {
     w \<leftarrow> Identifier (rb_workflow_id b);
     t \<leftarrow> Identifier (rb_task_id b);
     l \<leftarrow> Identifier (rb_workload b);
     int_field 0 10000000 (rb_context_tokens_estimated b);
     int_field 0 1000000 (rb_max_output_tokens_estimated b);
     int_field 1 3600000 (rb_max_latency_ms b);
     int_field 0 1000000000000 (rb_max_cost_usd_micros b);
     Some (b\<lparr>rb_workflow_id := w, rb_task_id := t, rb_workload := l\<rparr>)
   }"

definition normalize_strings :: "string list \<Rightarrow> string list" where
  "normalize_strings values = sorted_strs values"

definition normalize_models :: "authorized_model list \<Rightarrow> authorized_model list option" where
  "normalize_models values = do {
     require (distinct (map (\<lambda>m. uuid_str (am_model_id m)) values));
     Some (sort_key (\<lambda>m. uuid_str (am_model_id m)) values)
   }"

definition material_autonomy :: "autonomy_level set" where
  "material_autonomy =
    {A2_PREPARE_FOR_APPROVAL, A3_REVERSIBLE_ACTIONS, A4_HIGH_IMPACT_ACTIONS, A5_HIGH_AUTONOMY}"

definition validate_capability_boundary :: "auth_scope \<Rightarrow> auth_scope option" where
  "validate_capability_boundary s = do {
     require (\<not> (sc_allowed_tools s \<noteq> [] \<and> sc_permissions s = []));
     require (\<not> (sc_autonomy_level s \<in> material_autonomy \<and> sc_human_approval_points s = []));
     require (list_ex (\<lambda>m. sc_data_classification s \<in> set (am_allowed_data_classes m)) (sc_models s));
     Some s
   }"

definition validate_scope :: "auth_scope \<Rightarrow> auth_scope option" where
  "validate_scope s = do {
     require (sc_models s \<noteq> []);
     ms \<leftarrow> all_some validate_model (sc_models s);
     ms \<leftarrow> normalize_models ms;
     tools \<leftarrow> all_some Identifier (sc_allowed_tools s);
     perms \<leftarrow> all_some Identifier (sc_permissions s);
     int_field 1 86400 (sc_max_runtime_seconds s);
     points \<leftarrow> all_some ShortText (sc_human_approval_points s);
     require (sc_kill_switch_enabled s);
     validate_capability_boundary (s\<lparr>sc_models := ms, sc_allowed_tools := normalize_strings tools,
       sc_permissions := normalize_strings perms,
       sc_human_approval_points := normalize_strings points\<rparr>)
   }"

text \<open>The validator of the three timestamps: aware, and expressed in UTC.\<close>

definition utc_field :: "datetime \<Rightarrow> instant option" where
  "utc_field value = (case dt_offset value of
     None \<Rightarrow> None
   | Some offset \<Rightarrow> if offset \<noteq> 0 then None else Some (dt_wall value - offset))"

definition validate_time_window :: "instant claims \<Rightarrow> instant claims option" where
  "validate_time_window c = do {
     require (\<not> cl_not_before c < cl_issued_at c);
     require (\<not> cl_expires_at c \<le> cl_not_before c);
     require (\<not> seconds max_lifetime_seconds < cl_expires_at c - cl_issued_at c);
     Some c
   }"

definition validate_claims :: "datetime claims \<Rightarrow> instant claims option" where
  "validate_claims c = do {
     require (cl_schema_version c = ''1.0'');
     issuer \<leftarrow> Identifier (cl_issuer c);
     require (cl_audience c \<noteq> []);
     audience \<leftarrow> all_some Identifier (cl_audience c);
     issued \<leftarrow> utc_field (cl_issued_at c);
     nbf \<leftarrow> utc_field (cl_not_before c);
     expires \<leftarrow> utc_field (cl_expires_at c);
     subj \<leftarrow> validate_subject (cl_subject c);
     req \<leftarrow> validate_binding (cl_request c);
     scope \<leftarrow> validate_scope (cl_scope c);
     sd \<leftarrow> Digest (cl_scope_digest c);
     pol \<leftarrow> validate_provenance (cl_policy c);
     validate_time_window
       \<lparr>cl_schema_version = cl_schema_version c, cl_authorization_id = cl_authorization_id c,
        cl_issuer = issuer, cl_audience = normalize_strings audience,
        cl_issued_at = issued, cl_not_before = nbf, cl_expires_at = expires,
        cl_subject = subj, cl_request = req, cl_scope = scope, cl_scope_digest = sd,
        cl_policy = pol\<rparr>
   }"

definition signature_pattern :: "string \<Rightarrow> bool" where
  "signature_pattern s \<longleftrightarrow> length s = 86 \<and> list_all b64url_char s"

text \<open>
  \<open>base64.urlsafe_b64decode\<close> is not strict: it drops characters outside the alphabet. On text that
  passed the pattern there are none, so the strict decoder gives the same result.
\<close>

definition validate_signature_encoding :: "string \<Rightarrow> string option" where
  "validate_signature_encoding value = do {
     decoded \<leftarrow> a2b_base64_strict (map altchars (value @ ''==''));
     require (length decoded = 64);
     Some value
   }"

definition validate_envelope :: "datetime envelope \<Rightarrow> instant envelope option" where
  "validate_envelope e = do {
     h \<leftarrow> validate_header (ev_protected e);
     c \<leftarrow> validate_claims (ev_claims e);
     sg \<leftarrow> str_field 86 86 signature_pattern (ev_signature e);
     sg \<leftarrow> validate_signature_encoding sg;
     Some \<lparr>ev_protected = h, ev_claims = c, ev_signature = sg\<rparr>
   }"

section \<open>Canonical bytes\<close>

text \<open>
  \<open>json.dumps\<close> with \<open>allow_nan=False\<close> raises on a float that is no number, and on an integer beyond
  the conversion limit.
\<close>

fun serializable :: "json \<Rightarrow> bool" where
  "serializable (JInt i) \<longleftrightarrow> length (nat_str (nat \<bar>i\<bar>)) \<le> int_limit"
| "serializable (JFloat x) \<longleftrightarrow> x \<notin> {''NaN'', ''Infinity'', ''-Infinity''}"
| "serializable (JArr xs) \<longleftrightarrow> (\<forall>x \<in> set xs. serializable x)"
| "serializable (JObj kvs) \<longleftrightarrow> (\<forall>kv \<in> set kvs. serializable (snd kv))"
| "serializable v \<longleftrightarrow> True"

definition canonical_json_bytes :: "json \<Rightarrow> (auth_error, bytes) result" where
  "canonical_json_bytes value =
    rbind (raise_if (\<not> serializable value) value_error) (\<lambda>_.
    Inr (utf8_encode (json_dumps value)))"

text \<open>\<open>model_dump(mode="json")\<close> of each record, its fields in declaration order.\<close>

abbreviation jstrs :: "string list \<Rightarrow> json" where
  "jstrs xs \<equiv> JArr (map JStr xs)"

definition header_json :: "protected_header \<Rightarrow> json" where
  "header_json h = JObj
    [(''typ'', JStr (ph_typ h)), (''alg'', JStr (ph_alg h)), (''kid'', JStr (ph_kid h))]"

definition provenance_json :: "policy_provenance \<Rightarrow> json" where
  "provenance_json p = JObj
    [(''policy_id'', JStr (pv_policy_id p)),
     (''policy_version'', JStr (pv_policy_version p)),
     (''policy_digest'', JStr (pv_policy_digest p)),
     (''control_catalog_id'', JStr (pv_control_catalog_id p)),
     (''control_catalog_version'', JStr (pv_control_catalog_version p)),
     (''control_catalog_digest'', JStr (pv_control_catalog_digest p))]"

definition subject_json :: "subject \<Rightarrow> json" where
  "subject_json s = JObj
    [(''initiative_id'', JStr (uuid_str (sj_initiative_id s))),
     (''ai_system_id'', JStr (uuid_str (sj_ai_system_id s))),
     (''ai_system_version'', JInt (sj_ai_system_version s)),
     (''agent_id'', JStr (uuid_str (sj_agent_id s))),
     (''agent_version'', JInt (sj_agent_version s)),
     (''agent_review_digest'', JStr (sj_agent_review_digest s))]"

definition model_json :: "authorized_model \<Rightarrow> json" where
  "model_json m = JObj
    [(''model_id'', JStr (uuid_str (am_model_id m))),
     (''entity_version'', JInt (am_entity_version m)),
     (''model_version'', JStr (am_model_version m)),
     (''routing_group'', JStr (am_routing_group m)),
     (''review_digest'', JStr (am_review_digest m)),
     (''allowed_data_classes'', jstrs (map dc_value (am_allowed_data_classes m)))]"

definition binding_json :: "request_binding \<Rightarrow> json" where
  "binding_json b = JObj
    [(''workflow_id'', JStr (rb_workflow_id b)),
     (''task_id'', JStr (rb_task_id b)),
     (''workload'', JStr (rb_workload b)),
     (''context_tokens_estimated'', JInt (rb_context_tokens_estimated b)),
     (''max_output_tokens_estimated'', JInt (rb_max_output_tokens_estimated b)),
     (''structured_output_required'', JBool (rb_structured_output_required b)),
     (''max_latency_ms'', JInt (rb_max_latency_ms b)),
     (''max_cost_usd_micros'', JInt (rb_max_cost_usd_micros b))]"

definition scope_json :: "auth_scope \<Rightarrow> json" where
  "scope_json s = JObj
    [(''risk_tier'', JStr (tier_value (sc_risk_tier s))),
     (''data_classification'', JStr (dc_value (sc_data_classification s))),
     (''autonomy_level'', JStr (autonomy_value (sc_autonomy_level s))),
     (''models'', JArr (map model_json (sc_models s))),
     (''allowed_tools'', jstrs (sc_allowed_tools s)),
     (''permissions'', jstrs (sc_permissions s)),
     (''max_runtime_seconds'', JInt (sc_max_runtime_seconds s)),
     (''human_approval_points'', jstrs (sc_human_approval_points s)),
     (''kill_switch_enabled'', JBool (sc_kill_switch_enabled s))]"

definition claims_json :: "(instant \<Rightarrow> string) \<Rightarrow> instant claims \<Rightarrow> json" where
  "claims_json dump_time c = JObj
    [(''schema_version'', JStr (cl_schema_version c)),
     (''authorization_id'', JStr (uuid_str (cl_authorization_id c))),
     (''issuer'', JStr (cl_issuer c)),
     (''audience'', jstrs (cl_audience c)),
     (''issued_at'', JStr (dump_time (cl_issued_at c))),
     (''not_before'', JStr (dump_time (cl_not_before c))),
     (''expires_at'', JStr (dump_time (cl_expires_at c))),
     (''subject'', subject_json (cl_subject c)),
     (''request'', binding_json (cl_request c)),
     (''scope'', scope_json (cl_scope c)),
     (''scope_digest'', JStr (cl_scope_digest c)),
     (''policy'', provenance_json (cl_policy c))]"

definition signing_bytes :: "(instant \<Rightarrow> string) \<Rightarrow> instant envelope \<Rightarrow> (auth_error, bytes) result" where
  "signing_bytes dump_time e = canonical_json_bytes (JObj
    [(''protected'', header_json (ev_protected e)),
     (''claims'', claims_json dump_time (ev_claims e))])"

definition signing_digest :: "(instant \<Rightarrow> string) \<Rightarrow> instant envelope \<Rightarrow> (auth_error, string) result" where
  "signing_digest dump_time e = rbind (signing_bytes dump_time e) (\<lambda>b. Inr (sha256_hex b))"

end
