(* ===== verification/Wire_Contract.thy ===== *)
theory Wire_Contract
  imports Policy_Loader Authorization_Contract
begin

text \<open>
  The external wire contract (\<open>entrypoints/contracts.py\<close>): the request body, the decision and the
  rejection, their field constraints, and the mappings to and from the domain.

  As in the signed contract, pydantic's coercion comes first: a record holds the coerced values,
  and \<open>validate_...\<close> or \<open>from_domain_...\<close> applies the constraints the classes declare. An error
  names the field; the service never shows more than that the body is invalid.
\<close>

section \<open>The request\<close>

record wire_request =
  wq_schema_version :: string
  wq_requested_at :: datetime
  wq_workflow_id :: string
  wq_task_id :: string
  wq_agent_name :: string
  wq_workload :: string
  wq_risk_level :: risk_level
  wq_data_classification :: data_classification
  wq_context_tokens_estimated :: int
  wq_max_output_tokens_estimated :: int
  wq_structured_output_required :: bool
  wq_max_latency_ms :: int
  wq_max_cost_usd :: price
  wq_include_rejected_candidates :: bool

text \<open>\<open>_require_utc\<close>: the instant of a datetime expressed in UTC.\<close>

definition wire_utc :: "datetime \<Rightarrow> (config_error, instant) result" where
  "wire_utc v =
    (if dt_offset v = None \<or> dt_offset v \<noteq> Some 0
     then Inl (ConfigValueError ''timestamp must be timezone-aware and expressed in UTC'')
     else Inr (dt_wall v))"

definition non_empty_str :: "string \<Rightarrow> string \<Rightarrow> (config_error, unit) result" where
  "non_empty_str name s = require_field name (1 \<le> length s)"

definition bounded_identifier :: "string \<Rightarrow> string \<Rightarrow> (config_error, unit) result" where
  "bounded_identifier name s = require_field name (1 \<le> length s \<and> length s \<le> 200)"

definition bounded_int :: "string \<Rightarrow> int \<Rightarrow> int \<Rightarrow> int \<Rightarrow> (config_error, unit) result" where
  "bounded_int name lo hi n = require_field name (lo \<le> n \<and> n \<le> hi)"

fun price_gt_zero :: "price \<Rightarrow> bool" where
  "price_gt_zero (Price d) \<longleftrightarrow> 0 < coeff d"
| "price_gt_zero NegativePrice \<longleftrightarrow> False"

definition validate_request :: "wire_request \<Rightarrow> (config_error, wire_request) result" where
  "validate_request r =
    rbind (require_field ''schema_version'' (wq_schema_version r = ''1.0'')) (\<lambda>_.
    rbind (wire_utc (wq_requested_at r)) (\<lambda>_.
    rbind (bounded_identifier ''workflow_id'' (wq_workflow_id r)) (\<lambda>_.
    rbind (bounded_identifier ''task_id'' (wq_task_id r)) (\<lambda>_.
    rbind (bounded_identifier ''agent_name'' (wq_agent_name r)) (\<lambda>_.
    rbind (workload_field (wq_workload r)) (\<lambda>_.
    rbind (bounded_int ''context_tokens_estimated'' 0 10000000 (wq_context_tokens_estimated r)) (\<lambda>_.
    rbind (bounded_int ''max_output_tokens_estimated'' 0 10000000 (wq_max_output_tokens_estimated r)) (\<lambda>_.
    rbind (require_field ''max_latency_ms'' (0 < wq_max_latency_ms r)) (\<lambda>_.
    rbind (require_field ''max_cost_usd'' (price_gt_zero (wq_max_cost_usd r))) (\<lambda>_.
    Inr r))))))))))"

definition to_domain_request :: "wire_request \<Rightarrow> route_request" where
  "to_domain_request r =
    \<lparr>rr_schema_version = wq_schema_version r,
     rr_requested_at = dt_wall (wq_requested_at r),
     rr_workflow_id = wq_workflow_id r,
     rr_task_id = wq_task_id r,
     rr_agent_name = wq_agent_name r,
     rr_workload = wq_workload r,
     rr_risk_level = wq_risk_level r,
     rr_data_classification = wq_data_classification r,
     rr_context_tokens_estimated = nat (wq_context_tokens_estimated r),
     rr_max_output_tokens_estimated = nat (wq_max_output_tokens_estimated r),
     rr_structured_output_required = wq_structured_output_required r,
     rr_max_latency_ms = nat (wq_max_latency_ms r),
     rr_max_cost_usd = price_value (wq_max_cost_usd r)\<rparr>"

text \<open>The body: a bare request, or a request with its signed authorization.\<close>

datatype 't route_envelope =
    BareRequest wire_request
  | AuthorizedRequest wire_request "'t envelope"

definition validate_body :: "datetime route_envelope \<Rightarrow> instant route_envelope option" where
  "validate_body body =
    (case body of
       BareRequest r \<Rightarrow> (case validate_request r of Inl e \<Rightarrow> None | Inr r' \<Rightarrow> Some (BareRequest r'))
     | AuthorizedRequest r a \<Rightarrow>
         (case validate_request r of
            Inl e \<Rightarrow> None
          | Inr r' \<Rightarrow> map_option (AuthorizedRequest r') (validate_envelope a)))"

section \<open>The responses\<close>

record wire_candidate =
  wc_model_group :: string
  wc_reason :: string
  wc_reason_code :: reason_code
  wc_observed_value :: string
  wc_required_value :: string

record wire_decision =
  wd_schema_version :: string
  wd_routing_decision_id :: string
  wd_decided_at :: instant
  wd_workflow_id :: string
  wd_task_id :: string
  wd_selected_model_group :: string
  wd_reason :: string
  wd_rejected_candidates :: "wire_candidate list"
  wd_policy_id :: string
  wd_policy_version :: string
  wd_policy_digest :: string
  wd_service_version :: string
  wd_environment :: string

record wire_rejection =
  wx_schema_version :: string
  wx_routing_decision_id :: string
  wx_decided_at :: instant
  wx_workflow_id :: string
  wx_task_id :: string
  wx_workload :: string
  wx_rejected_model_group :: string
  wx_reason :: string
  wx_reason_code :: reason_code
  wx_observed_value :: string
  wx_required_value :: string
  wx_policy_id :: string
  wx_policy_version :: string
  wx_policy_digest :: string
  wx_service_version :: string
  wx_environment :: string

definition from_domain_candidate :: "rejected_candidate \<Rightarrow> (config_error, wire_candidate) result" where
  "from_domain_candidate c =
    rbind (model_group_field (rc_model_group c)) (\<lambda>g.
    rbind (non_empty_str ''reason'' (rc_reason c)) (\<lambda>_.
    rbind (non_empty_str ''observed_value'' (rc_observed_value c)) (\<lambda>_.
    rbind (non_empty_str ''required_value'' (rc_required_value c)) (\<lambda>_.
    Inr \<lparr>wc_model_group = g, wc_reason = rc_reason c, wc_reason_code = rc_reason_code c,
         wc_observed_value = rc_observed_value c, wc_required_value = rc_required_value c\<rparr>))))"

definition from_domain_decision :: "route_decision \<Rightarrow> (config_error, wire_decision) result" where
  "from_domain_decision d =
    rbind (rmap from_domain_candidate (rd_rejected_candidates d)) (\<lambda>candidates.
    rbind (require_field ''schema_version'' (rd_schema_version d = ''1.0'')) (\<lambda>_.
    rbind (non_empty_str ''routing_decision_id'' (rd_routing_decision_id d)) (\<lambda>_.
    rbind (non_empty_str ''workflow_id'' (rd_workflow_id d)) (\<lambda>_.
    rbind (non_empty_str ''task_id'' (rd_task_id d)) (\<lambda>_.
    rbind (model_group_field (rd_selected_model_group d)) (\<lambda>selected.
    rbind (non_empty_str ''reason'' (rd_reason d)) (\<lambda>_.
    rbind (non_empty_str ''policy_id'' (rd_policy_id d)) (\<lambda>_.
    rbind (non_empty_str ''policy_version'' (rd_policy_version d)) (\<lambda>_.
    rbind (non_empty_str ''policy_digest'' (rd_policy_digest d)) (\<lambda>_.
    rbind (non_empty_str ''service_version'' (rd_service_version d)) (\<lambda>_.
    rbind (non_empty_str ''environment'' (rd_environment d)) (\<lambda>_.
    Inr \<lparr>wd_schema_version = rd_schema_version d, wd_routing_decision_id = rd_routing_decision_id d,
         wd_decided_at = rd_decided_at d, wd_workflow_id = rd_workflow_id d,
         wd_task_id = rd_task_id d, wd_selected_model_group = selected,
         wd_reason = rd_reason d, wd_rejected_candidates = candidates,
         wd_policy_id = rd_policy_id d, wd_policy_version = rd_policy_version d,
         wd_policy_digest = rd_policy_digest d, wd_service_version = rd_service_version d,
         wd_environment = rd_environment d\<rparr>))))))))))))"

definition from_domain_rejection :: "rejected_decision \<Rightarrow> (config_error, wire_rejection) result" where
  "from_domain_rejection d =
    rbind (require_field ''schema_version'' (xd_schema_version d = ''1.0'')) (\<lambda>_.
    rbind (non_empty_str ''routing_decision_id'' (xd_routing_decision_id d)) (\<lambda>_.
    rbind (non_empty_str ''workflow_id'' (xd_workflow_id d)) (\<lambda>_.
    rbind (non_empty_str ''task_id'' (xd_task_id d)) (\<lambda>_.
    rbind (workload_field (xd_workload d)) (\<lambda>workload.
    rbind (model_group_field (xd_rejected_model_group d)) (\<lambda>rejected.
    rbind (non_empty_str ''reason'' (xd_reason d)) (\<lambda>_.
    rbind (non_empty_str ''observed_value'' (xd_observed_value d)) (\<lambda>_.
    rbind (non_empty_str ''required_value'' (xd_required_value d)) (\<lambda>_.
    rbind (non_empty_str ''policy_id'' (xd_policy_id d)) (\<lambda>_.
    rbind (non_empty_str ''policy_version'' (xd_policy_version d)) (\<lambda>_.
    rbind (non_empty_str ''policy_digest'' (xd_policy_digest d)) (\<lambda>_.
    rbind (non_empty_str ''service_version'' (xd_service_version d)) (\<lambda>_.
    rbind (non_empty_str ''environment'' (xd_environment d)) (\<lambda>_.
    Inr \<lparr>wx_schema_version = xd_schema_version d, wx_routing_decision_id = xd_routing_decision_id d,
         wx_decided_at = xd_decided_at d, wx_workflow_id = xd_workflow_id d,
         wx_task_id = xd_task_id d, wx_workload = workload, wx_rejected_model_group = rejected,
         wx_reason = xd_reason d, wx_reason_code = xd_reason_code d,
         wx_observed_value = xd_observed_value d, wx_required_value = xd_required_value d,
         wx_policy_id = xd_policy_id d, wx_policy_version = xd_policy_version d,
         wx_policy_digest = xd_policy_digest d, wx_service_version = xd_service_version d,
         wx_environment = xd_environment d\<rparr>))))))))))))))"

section \<open>Requests that are accepted\<close>

definition request_ok :: "wire_request \<Rightarrow> bool" where
  "request_ok r \<longleftrightarrow> wq_schema_version r = ''1.0'' \<and> dt_offset (wq_requested_at r) = Some 0
     \<and> wq_workflow_id r \<noteq> [] \<and> length (wq_workflow_id r) \<le> 200
     \<and> wq_task_id r \<noteq> [] \<and> length (wq_task_id r) \<le> 200
     \<and> wq_agent_name r \<noteq> [] \<and> length (wq_agent_name r) \<le> 200
     \<and> valid_workload (wq_workload r)
     \<and> 0 \<le> wq_context_tokens_estimated r \<and> wq_context_tokens_estimated r \<le> 10000000
     \<and> 0 \<le> wq_max_output_tokens_estimated r \<and> wq_max_output_tokens_estimated r \<le> 10000000
     \<and> 0 < wq_max_latency_ms r
     \<and> (\<exists>d. wq_max_cost_usd r = Price d \<and> 0 < coeff d)"

lemma workload_field_iff: "workload_field w = Inr v \<longleftrightarrow> v = w \<and> valid_workload w"
proof
  assume "workload_field w = Inr v"
  then have "WorkloadId w = Inr v" unfolding workload_field_def by (rule identifier_field_Inr)
  then show "v = w \<and> valid_workload w" using identifiers_same(2) by auto
qed (simp add: valid_fields)

lemma model_group_field_iff: "model_group_field g = Inr v \<longleftrightarrow> v = g \<and> valid_model_group g"
proof
  assume "model_group_field g = Inr v"
  then have "ModelGroupId g = Inr v" unfolding model_group_field_def by (rule identifier_field_Inr)
  then show "v = g \<and> valid_model_group g" using identifiers_same(1) by auto
qed (simp add: valid_fields)

lemma price_gt_zero_iff: "price_gt_zero x \<longleftrightarrow> (\<exists>d. x = Price d \<and> 0 < coeff d)"
  by (cases x) simp_all

lemma wire_utc_iff: "wire_utc v = Inr t \<longleftrightarrow> dt_offset v = Some 0 \<and> t = dt_wall v"
  by (auto simp: wire_utc_def)

lemma validate_request_iff: "validate_request r = Inr r' \<longleftrightarrow> r' = r \<and> request_ok r"
  by (auto simp: validate_request_def rbind_Inr_iff require_field_def raise_if_Inr_iff
      bounded_identifier_def bounded_int_def workload_field_iff price_gt_zero_iff wire_utc_iff
      request_ok_def Suc_le_eq)

lemma to_domain_request_bounds: "request_ok r \<Longrightarrow> token_bounds (to_domain_request r)"
  by (auto simp: request_ok_def to_domain_request_def token_bounds_def)

section \<open>Responses that fit\<close>

definition decision_ok :: "route_decision \<Rightarrow> bool" where
  "decision_ok d \<longleftrightarrow> rd_schema_version d = ''1.0'' \<and> rd_routing_decision_id d \<noteq> []
     \<and> rd_workflow_id d \<noteq> [] \<and> rd_task_id d \<noteq> [] \<and> valid_model_group (rd_selected_model_group d)
     \<and> rd_reason d \<noteq> [] \<and> rd_policy_id d \<noteq> [] \<and> rd_policy_version d \<noteq> [] \<and> rd_policy_digest d \<noteq> []
     \<and> rd_service_version d \<noteq> [] \<and> rd_environment d \<noteq> []
     \<and> (\<forall>c \<in> set (rd_rejected_candidates d). valid_model_group (rc_model_group c) \<and>
          rc_reason c \<noteq> [] \<and> rc_observed_value c \<noteq> [] \<and> rc_required_value c \<noteq> [])"

definition wire_candidate_of :: "rejected_candidate \<Rightarrow> wire_candidate" where
  "wire_candidate_of c =
    \<lparr>wc_model_group = rc_model_group c, wc_reason = rc_reason c, wc_reason_code = rc_reason_code c,
     wc_observed_value = rc_observed_value c, wc_required_value = rc_required_value c\<rparr>"

lemma from_domain_candidate_Inr:
  "valid_model_group (rc_model_group c) \<Longrightarrow> rc_reason c \<noteq> [] \<Longrightarrow> rc_observed_value c \<noteq> [] \<Longrightarrow>
    rc_required_value c \<noteq> [] \<Longrightarrow> from_domain_candidate c = Inr (wire_candidate_of c)"
  by (simp add: from_domain_candidate_def non_empty_str_def require_field_def valid_fields
      Suc_le_eq wire_candidate_of_def)

lemma rmap_map: "\<forall>x \<in> set xs. f x = Inr (g x) \<Longrightarrow> rmap f xs = Inr (map g xs)"
  by (induction xs) simp_all

definition wire_decision_of :: "route_decision \<Rightarrow> wire_decision" where
  "wire_decision_of d =
    \<lparr>wd_schema_version = rd_schema_version d, wd_routing_decision_id = rd_routing_decision_id d,
     wd_decided_at = rd_decided_at d, wd_workflow_id = rd_workflow_id d,
     wd_task_id = rd_task_id d, wd_selected_model_group = rd_selected_model_group d,
     wd_reason = rd_reason d, wd_rejected_candidates = map wire_candidate_of (rd_rejected_candidates d),
     wd_policy_id = rd_policy_id d, wd_policy_version = rd_policy_version d,
     wd_policy_digest = rd_policy_digest d, wd_service_version = rd_service_version d,
     wd_environment = rd_environment d\<rparr>"

lemma from_domain_decision_Inr:
  "decision_ok d \<Longrightarrow> from_domain_decision d = Inr (wire_decision_of d)"
  using rmap_map [of "rd_rejected_candidates d" from_domain_candidate wire_candidate_of]
  by (simp add: decision_ok_def from_domain_candidate_Inr from_domain_decision_def non_empty_str_def
      require_field_def valid_fields Suc_le_eq wire_decision_of_def)

definition rejection_ok :: "rejected_decision \<Rightarrow> bool" where
  "rejection_ok d \<longleftrightarrow> xd_schema_version d = ''1.0'' \<and> xd_routing_decision_id d \<noteq> []
     \<and> xd_workflow_id d \<noteq> [] \<and> xd_task_id d \<noteq> [] \<and> valid_workload (xd_workload d)
     \<and> valid_model_group (xd_rejected_model_group d) \<and> xd_reason d \<noteq> []
     \<and> xd_observed_value d \<noteq> [] \<and> xd_required_value d \<noteq> []
     \<and> xd_policy_id d \<noteq> [] \<and> xd_policy_version d \<noteq> [] \<and> xd_policy_digest d \<noteq> []
     \<and> xd_service_version d \<noteq> [] \<and> xd_environment d \<noteq> []"

lemma from_domain_rejection_returns: "rejection_ok d \<Longrightarrow> returns (from_domain_rejection d)"
  by (simp add: rejection_ok_def from_domain_rejection_def non_empty_str_def require_field_def
      valid_fields Suc_le_eq)

subsection \<open>The texts of a failure\<close>

lemma str_join_Nil_iff: "str_join sep xs = [] \<Longrightarrow> \<forall>x \<in> set xs. x \<noteq> [] \<Longrightarrow> xs = []"
  by (induction sep xs rule: str_join.induct) auto

definition failure_ok :: "constraint_failure \<Rightarrow> bool" where
  "failure_ok f \<longleftrightarrow> cf_message f \<noteq> [] \<and> cf_observed_value f \<noteq> [] \<and> cf_required_value f \<noteq> []"

lemma enum_values_nonempty: "dc_value c \<noteq> []" "risk_value k \<noteq> []"
  by (cases c; simp) (cases k; simp)

lemma joined_nonempty:
  "finite X \<Longrightarrow> X \<noteq> {} \<Longrightarrow> [] \<notin> X \<Longrightarrow> str_join sep (sorted_list_of_set X) \<noteq> []"
proof
  assume fin: "finite X" and ne: "X \<noteq> {}" "[] \<notin> X" and "str_join sep (sorted_list_of_set X) = []"
  moreover have "\<forall>x \<in> set (sorted_list_of_set X). x \<noteq> []" using fin ne by auto
  ultimately have "sorted_list_of_set X = []" using str_join_Nil_iff by blast
  with fin ne show False by simp
qed

lemma finite_enums: "finite (A :: data_classification set)" "finite (B :: risk_level set)"
proof -
  have "A \<subseteq> {PUBLIC, INTERNAL, CONFIDENTIAL, RESTRICTED}" using data_classification.exhaust by blast
  then show "finite A" by (rule finite_subset) simp
  have "B \<subseteq> {LOW, MEDIUM, HIGH, CRITICAL}" using risk_level.exhaust by blast
  then show "finite B" by (rule finite_subset) simp
qed

lemma authorized_texts:
  "A \<noteq> {} \<Longrightarrow> str_join sep (sorted_list_of_set (dc_value ` A)) \<noteq> []"
  "B \<noteq> {} \<Longrightarrow> str_join sep (sorted_list_of_set (risk_value ` B)) \<noteq> []"
proof -
  have "[] \<notin> dc_value ` A" "[] \<notin> risk_value ` B"
    using enum_values_nonempty by (metis imageE)+
  then show "A \<noteq> {} \<Longrightarrow> str_join sep (sorted_list_of_set (dc_value ` A)) \<noteq> []"
    "B \<noteq> {} \<Longrightarrow> str_join sep (sorted_list_of_set (risk_value ` B)) \<noteq> []"
    by (simp_all add: joined_nonempty finite_enums)
qed

lemma failure_okI:
  "cf_message f \<noteq> [] \<Longrightarrow> cf_observed_value f \<noteq> [] \<Longrightarrow> cf_required_value f \<noteq> [] \<Longrightarrow> failure_ok f"
  by (simp add: failure_ok_def)

lemma check_failure_ok:
  assumes "rr_agent_name r \<noteq> []"
    and "mp_authorized_data_classifications p \<noteq> {}" "mp_authorized_risk_levels p \<noteq> {}"
  shows "list_all (\<lambda>c. \<forall>f. c r p w = Inr (Some f) \<longrightarrow> failure_ok f) CONSTRAINTS"
proof -
  have "check_data_classification r p w = Inr (Some f) \<Longrightarrow> failure_ok f" for f
    using authorized_texts(1) [OF assms(2)]
    by (auto simp: check_data_classification_def Let_def enum_values_nonempty intro!: failure_okI
        split: if_splits)
  moreover have "check_risk_level r p w = Inr (Some f) \<Longrightarrow> failure_ok f" for f
    using authorized_texts(2) [OF assms(3)]
    by (auto simp: check_risk_level_def Let_def enum_values_nonempty intro!: failure_okI
        split: if_splits)
  moreover have "check_structured_output r p w = Inr (Some f) \<Longrightarrow> failure_ok f"
    "check_tool_calling r p w = Inr (Some f) \<Longrightarrow> failure_ok f"
    "check_context_window r p w = Inr (Some f) \<Longrightarrow> failure_ok f"
    "check_max_cost r p w = Inr (Some f) \<Longrightarrow> failure_ok f" for f
    by (auto simp: check_structured_output_def check_tool_calling_def check_context_window_def
        check_max_cost_def rbind_Inr_iff Let_def intro!: failure_okI split: if_splits)
  moreover have "check_max_latency r p w = Inr (Some f) \<Longrightarrow> failure_ok f"
    "check_availability r p w = Inr (Some f) \<Longrightarrow> failure_ok f"
    "check_agent_allowlist r p w = Inr (Some f) \<Longrightarrow> failure_ok f" for f
    using assms(1)
    by (auto simp: check_max_latency_def check_availability_def check_agent_allowlist_def
        intro!: failure_okI split: if_splits)
  ultimately show ?thesis unfolding CONSTRAINTS_def list.pred_inject by simp
qed

lemma first_failure_all:
  "list_all (\<lambda>c. \<forall>f. c r p w = Inr (Some f) \<longrightarrow> P f) cs \<Longrightarrow>
    first_failure cs r p w = Inr (Some f) \<Longrightarrow> P f"
  by (induction cs) (auto simp: rbind_Inr_iff split: option.splits)

lemma first_failure_ok:
  assumes "first_failure CONSTRAINTS r p w = Inr (Some f)" "rr_agent_name r \<noteq> []" "fit_profile p"
  shows "failure_ok f"
  using assms(3) by (intro first_failure_all [OF check_failure_ok assms(1)] assms(2))
    (simp_all add: fit_profile_def)

section \<open>Properties\<close>

text \<open>What the service adds to a policy: its own version and environment are not empty.\<close>

definition deployed :: "route_use_case \<Rightarrow> bool" where
  "deployed self \<longleftrightarrow> uc_service_version self \<noteq> [] \<and> uc_environment self \<noteq> []"

definition policy_fit :: "routing_policy \<Rightarrow> bool" where
  "policy_fit p \<longleftrightarrow> policy_closed p \<and> rp_policy_id p \<noteq> [] \<and> rp_policy_version p \<noteq> []
     \<and> rp_policy_digest p \<noteq> []
     \<and> (\<forall>(g, profile) \<in> set (rp_model_groups p). valid_model_group g \<and> fit_profile profile)"

lemma loaded_policy_fit:
  assumes "coerces_dicts coerce" "load_routing_policy yaml_load coerce content = Inr p"
  shows "policy_fit p"
proof -
  obtain src raw c where c: "coerce raw = Some c" "config_ok c" "p = to_domain c (config_digest src)"
    using assms(2) load_routing_policy_iff by metis
  have wf: "wf_dict (cf_model_groups c)" "wf_dict (cf_workloads c)"
    using assms(1) c(1) by (auto simp: coerces_dicts_def)
  have "valid_model_group g \<and> fit_profile profile" if g: "(g, profile) \<in> set (rp_model_groups p)"
    for g profile
  proof -
    from g obtain q where q: "(g, q) \<in> set (cf_model_groups c)" "profile = to_profile q"
      by (auto simp: c(3) to_domain_def)
    with c(2) have "valid_model_group g" "profile_ok q" by (auto simp: config_ok_def)
    with q(2) show ?thesis by (simp add: profile_ok_def fit_profile_def to_profile_def)
  qed
  moreover have "policy_closed p" unfolding c(3) using c(2) wf by (rule to_domain_closed)
  moreover have "rp_policy_id p \<noteq> [] \<and> rp_policy_version p \<noteq> [] \<and> rp_policy_digest p \<noteq> []"
    using c(2) by (simp add: c(3) to_domain_def config_ok_def config_digest_def)
  ultimately show ?thesis by (auto simp: policy_fit_def)
qed

lemma fit_group:
  "policy_fit p \<Longrightarrow> dict_get (rp_model_groups p) g = Some profile \<Longrightarrow>
    valid_model_group g \<and> fit_profile profile"
  using dict_get_in by (fastforce simp: policy_fit_def)

lemma fit_effective [simp]: "fit_profile (effective_profile eff g p) = fit_profile p"
  by (simp add: fit_profile_def)

lemma request_ok_domain:
  assumes "request_ok r"
  shows "rr_schema_version (to_domain_request r) = ''1.0''" "rr_workflow_id (to_domain_request r) \<noteq> []"
    "rr_task_id (to_domain_request r) \<noteq> []" "rr_agent_name (to_domain_request r) \<noteq> []"
    "valid_workload (rr_workload (to_domain_request r))"
  using assms by (auto simp: request_ok_def to_domain_request_def)

lemma valid_nonempty: "valid_workload w \<Longrightarrow> w \<noteq> []" "valid_model_group g \<Longrightarrow> g \<noteq> []"
  by (auto simp: WorkloadId_def ModelGroupId_def PolicyIdentifier_def)

lemma candidates_subset:
  "candidates_of self include g = Inr cs \<Longrightarrow> set cs \<subseteq> set (rp_model_groups (uc_policy self))"
  by (auto simp: candidates_of_def rbind_Inr_iff some_or_Inr_iff dict_get_in split: if_splits)

lemma reasons_ok:
  assumes "rejection_reasons request rule eff cs [] = Inr reasons" "wf_dict cs"
    and "set cs \<subseteq> set (rp_model_groups p)" "policy_fit p" "rr_agent_name request \<noteq> []"
    and "dict_get reasons g = Some f"
  shows "failure_ok f"
proof -
  from rejection_reasons_get_empty [OF assms(1,2)] assms(6) obtain q where
    q: "dict_get cs g = Some q" "first_failure CONSTRAINTS request (effective_profile eff g q) rule = Inr (Some f)"
    by blast
  have "(g, q) \<in> set (rp_model_groups p)" using dict_get_in [OF q(1)] assms(3) by blast
  then have "fit_profile q" using assms(4) by (auto simp: policy_fit_def)
  with first_failure_ok [OF q(2) assms(5)] show ?thesis by simp
qed

lemma to_rejected_candidate_ok:
  assumes "\<And>f. dict_get reasons g = Some f \<Longrightarrow> failure_ok f" "valid_workload (rr_workload request)"
    and "valid_model_group selected"
  shows "rc_model_group (to_rejected_candidate request selected reasons g) = g"
    "rc_reason (to_rejected_candidate request selected reasons g) \<noteq> []"
    "rc_observed_value (to_rejected_candidate request selected reasons g) \<noteq> []"
    "rc_required_value (to_rejected_candidate request selected reasons g) \<noteq> []"
  using assms(1) valid_nonempty(1) [OF assms(2)] valid_nonempty(2) [OF assms(3)]
  by (auto simp: to_rejected_candidate_def failure_ok_def split: option.splits)

lemma route_outcome_ok:
  assumes fit: "policy_fit (uc_policy self)" and dep: "deployed self" and ok: "request_ok r"
    and id: "new_id \<noteq> []"
  shows "case route self resolve new_id now (to_domain_request r) include of
      Inr d \<Rightarrow> decision_ok d
    | Inl (NoViableModelGroupError x) \<Rightarrow> rejection_ok x
    | _ \<Rightarrow> True"
proof (cases "dict_get (rp_workloads (uc_policy self)) (rr_workload (to_domain_request r))")
  case None
  then show ?thesis by (simp add: route_def)
next
  case (Some rule)
  let ?q = "to_domain_request r" and ?p = "uc_policy self" and ?g = "wr_model_group rule"
  note req = request_ok_domain [OF ok]
  have closed: "policy_closed ?p" using fit by (simp add: policy_fit_def)
  from policy_closed_group [OF closed Some] obtain prof where
    prof: "dict_get (rp_model_groups ?p) ?g = Some prof" by blast
  have g: "valid_model_group ?g" using fit_group [OF fit prof] by simp
  obtain cs where cs: "candidates_of self include ?g = Inr cs"
    using prof by (cases "include") (auto simp: candidates_of_def)
  have wf: "wf_dict cs" by (rule candidates_of_get(1) [OF cs]) (use closed in \<open>simp add: policy_closed_def\<close>)
  show ?thesis
  proof (cases "rejection_reasons ?q rule (resolve (declared_availability cs)) cs []")
    case (Inl e)
    with rejection_reasons_no_other_error [OF Inl] show ?thesis by (simp add: route_def Some cs Let_def)
  next
    case (Inr reasons)
    have texts: "failure_ok f" if "dict_get reasons h = Some f" for h f
      using reasons_ok [OF Inr wf candidates_subset [OF cs] fit req(4) that] .
    show ?thesis
    proof (cases "dict_get reasons ?g")
      case (Some f)
      with texts [OF Some] \<open>dict_get _ _ = Some rule\<close> show ?thesis
        using req g fit dep id
        by (simp add: route_def cs Inr Let_def rejected_decision_of_def rejection_ok_def failure_ok_def
            policy_fit_def deployed_def)
    next
      case None
      have valid: "valid_model_group h" if "h \<in> set (dict_keys (rp_model_groups ?p))" for h
        using that fit by (auto simp: policy_fit_def)
      let ?tc = "to_rejected_candidate ?q ?g reasons"
      have cand: "valid_model_group (rc_model_group (?tc h)) \<and> rc_reason (?tc h) \<noteq> [] \<and>
          rc_observed_value (?tc h) \<noteq> [] \<and> rc_required_value (?tc h) \<noteq> []"
        if "h \<in> set (dict_keys (rp_model_groups ?p))" for h
        using to_rejected_candidate_ok [OF texts req(5) g] valid [OF that] by simp
      have all: "\<forall>c \<in> set (if include then map ?tc (filter (\<lambda>h. h \<noteq> ?g)
            (sort (dict_keys (rp_model_groups ?p)))) else []).
          valid_model_group (rc_model_group c) \<and> rc_reason c \<noteq> [] \<and>
          rc_observed_value c \<noteq> [] \<and> rc_required_value c \<noteq> []"
      proof
        fix c assume "c \<in> set (if include then map ?tc (filter (\<lambda>h. h \<noteq> ?g)
            (sort (dict_keys (rp_model_groups ?p)))) else [])"
        then obtain h where "c = ?tc h" "h \<in> set (dict_keys (rp_model_groups ?p))"
          by (auto split: if_splits)
        with cand show "valid_model_group (rc_model_group c) \<and> rc_reason c \<noteq> [] \<and>
          rc_observed_value c \<noteq> [] \<and> rc_required_value c \<noteq> []" by blast
      qed
      show ?thesis
        using None \<open>dict_get _ _ = Some rule\<close> req g fit dep id all
        unfolding decision_ok_def
        by (simp add: route_def cs Inr Let_def route_decision_of_def policy_fit_def deployed_def)
    qed
  qed
qed


definition sample_wire_request :: wire_request where
  "sample_wire_request =
    \<lparr>wq_schema_version = ''1.0'', wq_requested_at = Datetime 0 (Some 0), wq_workflow_id = ''w'',
     wq_task_id = ''t'', wq_agent_name = ''planner'', wq_workload = ''rag.answer'',
     wq_risk_level = HIGH, wq_data_classification = PUBLIC, wq_context_tokens_estimated = 10,
     wq_max_output_tokens_estimated = 10, wq_structured_output_required = False,
     wq_max_latency_ms = 5000, wq_max_cost_usd = Price (Dec 1 0),
     wq_include_rejected_candidates = True\<rparr>"

lemma sample_wire_request_ok: "validate_request sample_wire_request = Inr sample_wire_request"
  using sample_identifiers(2) by (simp add: validate_request_iff request_ok_def sample_wire_request_def)


end
