(* ===== verification/Startup_Settings.thy ===== *)
theory Startup_Settings
  imports Key_Set Wire_Contract Redis_Rate_Limiter
begin

text \<open>
  The settings classes: \<open>entrypoints/settings.py\<close>, \<open>runtime_authorization_settings.py\<close> and
  \<open>runtime_control_settings.py\<close>.

  \<open>env_...\<close> holds what pydantic-settings read from the environment, converted to the field's
  type, with \<open>None\<close> for a variable that is not set; the class's defaults, before-validators and
  constraints are applied by \<open>Settings\<close>, \<open>AuthorizationSettings\<close> and \<open>ControlSettings\<close>. Of
  several violations the first is reported.
\<close>

section \<open>Service settings\<close>

record env_settings =
  en_routing_policy_path :: "string option"
  en_app_env :: "string option"
  en_log_level :: "string option"
  en_log_format :: "string option"
  en_max_requests :: "int option"
  en_per_ip_max_requests :: "int option"
  en_window_seconds :: "pyfloat option"
  en_max_tracked_keys :: "int option"
  en_fingerprint_secret :: "string option"
  en_redis_url :: "string option"
  en_enable_api_docs :: "bool option"
  en_max_request_body_bytes :: "int option"

record settings =
  st_routing_policy_path :: string
  st_app_env :: string
  st_log_level :: string
  st_log_format :: string
  st_max_requests :: int
  st_per_ip_max_requests :: int
  st_window_seconds :: pyfloat
  st_max_tracked_keys :: int
  st_fingerprint_secret :: "string option"
  st_redis_url :: "string option"
  st_enable_api_docs :: bool
  st_max_request_body_bytes :: int

definition default_or :: "'a \<Rightarrow> 'a option \<Rightarrow> 'a" where
  "default_or d v = (case v of None \<Rightarrow> d | Some x \<Rightarrow> x)"

definition app_envs :: "string list" where
  "app_envs = [''development'', ''staging'', ''production'', ''test'']"

definition log_levels :: "string list" where
  "log_levels = [''DEBUG'', ''INFO'', ''WARNING'', ''ERROR'', ''CRITICAL'']"

definition log_formats :: "string list" where
  "log_formats = [''json'', ''console'']"

text \<open>\<open>value or None\<close>\<close>

definition blank_env_value_means_unset :: "string option \<Rightarrow> string option" where
  "blank_env_value_means_unset v = (if v = Some [] then None else v)"

text \<open>
  \<open>upper\<close> and \<open>lower\<close> of a stripped string; only ASCII letters matter, as every character they
  change otherwise stays outside ASCII, and the vocabularies are ASCII.
\<close>

definition upper_char :: "char \<Rightarrow> char" where
  "upper_char c = (if is_lower c then char_of ((of_char c :: nat) - 32) else c)"

definition lower_ascii :: "char \<Rightarrow> char" where
  "lower_ascii c = (if is_upper c then char_of ((of_char c :: nat) + 32) else c)"

definition normalize_log_level :: "string \<Rightarrow> string" where
  "normalize_log_level v = map upper_char (py_strip v)"

definition normalize_log_format :: "string \<Rightarrow> string" where
  "normalize_log_format v = map lower_ascii (py_strip v)"

text \<open>\<open>gt=0, le=hi\<close> of a float; no comparison holds of a NaN, and an infinity fails one.\<close>

fun float_in :: "rat \<Rightarrow> pyfloat \<Rightarrow> bool" where
  "float_in hi (Finite w) \<longleftrightarrow> 0 < w \<and> w \<le> hi"
| "float_in hi NonFinite \<longleftrightarrow> False"

definition must_be_finite :: "pyfloat \<Rightarrow> (config_error, unit) result" where
  "must_be_finite v = raise_if (v = NonFinite)
    (ConfigValueError ''rate_limit_window_seconds must be a finite number'')"

definition env_defaults :: "env_settings \<Rightarrow> settings" where
  "env_defaults e =
    \<lparr>st_routing_policy_path = default_or ''config/routing_policy.yaml'' (en_routing_policy_path e),
     st_app_env = default_or ''development'' (en_app_env e),
     st_log_level = default_or ''INFO'' (map_option normalize_log_level (en_log_level e)),
     st_log_format = default_or ''json'' (map_option normalize_log_format (en_log_format e)),
     st_max_requests = default_or 60 (en_max_requests e),
     st_per_ip_max_requests = default_or 600 (en_per_ip_max_requests e),
     st_window_seconds = default_or (Finite 60) (en_window_seconds e),
     st_max_tracked_keys = default_or 100000 (en_max_tracked_keys e),
     st_fingerprint_secret = blank_env_value_means_unset (en_fingerprint_secret e),
     st_redis_url = blank_env_value_means_unset (en_redis_url e),
     st_enable_api_docs = default_or False (en_enable_api_docs e),
     st_max_request_body_bytes = default_or 16384 (en_max_request_body_bytes e)\<rparr>"

definition validate_settings :: "settings \<Rightarrow> (config_error, settings) result" where
  "validate_settings s =
    rbind (require_field ''app_env'' (st_app_env s \<in> set app_envs)) (\<lambda>_.
    rbind (require_field ''log_level'' (st_log_level s \<in> set log_levels)) (\<lambda>_.
    rbind (require_field ''log_format'' (st_log_format s \<in> set log_formats)) (\<lambda>_.
    rbind (require_field ''rate_limit_max_requests'' (0 < st_max_requests s)) (\<lambda>_.
    rbind (require_field ''rate_limit_per_ip_max_requests'' (0 < st_per_ip_max_requests s)) (\<lambda>_.
    rbind (require_field ''rate_limit_window_seconds'' (float_in 86400 (st_window_seconds s))) (\<lambda>_.
    rbind (must_be_finite (st_window_seconds s)) (\<lambda>_.
    rbind (require_field ''rate_limit_max_tracked_keys'' (0 < st_max_tracked_keys s)) (\<lambda>_.
    rbind (require_field ''max_request_body_bytes'' (0 < st_max_request_body_bytes s)) (\<lambda>_.
    Inr s)))))))))"

definition Settings :: "env_settings \<Rightarrow> (config_error, settings) result" where
  "Settings e = validate_settings (env_defaults e)"

section \<open>Runtime authorization settings\<close>

record env_authorization =
  ea_required :: "bool option"
  ea_issuer :: "string option"
  ea_audience :: "string option"
  ea_trusted_key_set_path :: "string option"
  ea_agent_bindings_json :: "string option"
  ea_policy_id :: "string option"
  ea_policy_version :: "string option"
  ea_policy_digest :: "string option"
  ea_catalog_id :: "string option"
  ea_catalog_version :: "string option"
  ea_catalog_digest :: "string option"
  ea_clock_skew_seconds :: "int option"
  ea_max_key_set_bytes :: "int option"
  ea_replay_key_prefix :: "string option"
  ea_replay_max_entries :: "int option"

record authorization_settings =
  as_required :: bool
  as_issuer :: string
  as_audience :: string
  as_trusted_key_set_path :: "string option"
  as_agent_bindings_json :: string
  as_policy_id :: string
  as_policy_version :: string
  as_policy_digest :: string
  as_catalog_id :: string
  as_catalog_version :: string
  as_catalog_digest :: string
  as_clock_skew_seconds :: int
  as_max_key_set_bytes :: int
  as_replay_key_prefix :: string
  as_replay_max_entries :: int

definition require_non_empty :: "string \<Rightarrow> (config_error, string) result" where
  "require_non_empty v = (let stripped = py_strip v in
     rbind (raise_if (stripped = [])
       (ConfigValueError ''runtime authorization trust identifiers must not be empty'')) (\<lambda>_.
     Inr stripped))"

definition AuthorizationSettings :: "env_authorization \<Rightarrow> (config_error, authorization_settings) result" where
  "AuthorizationSettings e =
    rbind (require_non_empty (default_or ''verifiable-ai-governance:production'' (ea_issuer e))) (\<lambda>issuer.
    rbind (require_non_empty (default_or ''policy-model-router'' (ea_audience e))) (\<lambda>audience.
    rbind (require_non_empty (default_or ''baseline-governance-policy'' (ea_policy_id e))) (\<lambda>pid.
    rbind (require_non_empty (default_or ''1.0.0'' (ea_policy_version e))) (\<lambda>pversion.
    rbind (require_non_empty (default_or ''verifiable-ai-governance-baseline'' (ea_catalog_id e))) (\<lambda>cid.
    rbind (require_non_empty (default_or ''1.0.0'' (ea_catalog_version e))) (\<lambda>cversion.
    rbind (bounded_int ''clock_skew_seconds'' 0 60 (default_or 0 (ea_clock_skew_seconds e))) (\<lambda>_.
    rbind (bounded_int ''max_key_set_bytes'' 1024 2097152 (default_or 262144 (ea_max_key_set_bytes e))) (\<lambda>_.
    rbind (require_non_empty (default_or ''policy-model-router:runtime-auth:'' (ea_replay_key_prefix e))) (\<lambda>prefix.
    rbind (bounded_int ''replay_max_entries'' 1 1000000 (default_or 10000 (ea_replay_max_entries e))) (\<lambda>_.
    Inr \<lparr>as_required = default_or False (ea_required e), as_issuer = issuer, as_audience = audience,
         as_trusted_key_set_path = blank_env_value_means_unset (ea_trusted_key_set_path e),
         as_agent_bindings_json = default_or ''{}'' (ea_agent_bindings_json e),
         as_policy_id = pid, as_policy_version = pversion,
         as_policy_digest = default_or [] (ea_policy_digest e),
         as_catalog_id = cid, as_catalog_version = cversion,
         as_catalog_digest = default_or [] (ea_catalog_digest e),
         as_clock_skew_seconds = default_or 0 (ea_clock_skew_seconds e),
         as_max_key_set_bytes = default_or 262144 (ea_max_key_set_bytes e),
         as_replay_key_prefix = prefix,
         as_replay_max_entries = default_or 10000 (ea_replay_max_entries e)\<rparr>))))))))))"

section \<open>Runtime control settings\<close>

record env_control =
  ec_required :: "bool option"
  ec_redis_key_prefix :: "string option"
  ec_max_snapshot_bytes :: "int option"
  ec_timeout_seconds :: "pyfloat option"

record control_settings =
  cs_required :: bool
  cs_redis_key_prefix :: string
  cs_max_snapshot_bytes :: int
  cs_timeout_seconds :: pyfloat

definition require_key_prefix :: "string \<Rightarrow> (config_error, string) result" where
  "require_key_prefix v = (let stripped = py_strip v in
     rbind (raise_if (stripped = [])
       (ConfigValueError ''runtime-control Redis key prefix must not be empty'')) (\<lambda>_.
     Inr stripped))"

definition ControlSettings :: "env_control \<Rightarrow> (config_error, control_settings) result" where
  "ControlSettings e =
    rbind (require_key_prefix (default_or ''verifiable-ai-governance:runtime-control:v1:agent:''
      (ec_redis_key_prefix e))) (\<lambda>prefix.
    rbind (bounded_int ''max_snapshot_bytes'' 512 65536 (default_or 4096 (ec_max_snapshot_bytes e))) (\<lambda>_.
    rbind (require_field ''timeout_seconds'' (float_in 10 (default_or (Finite 2) (ec_timeout_seconds e)))) (\<lambda>_.
    Inr \<lparr>cs_required = default_or False (ec_required e), cs_redis_key_prefix = prefix,
         cs_max_snapshot_bytes = default_or 4096 (ec_max_snapshot_bytes e),
         cs_timeout_seconds = default_or (Finite 2) (ec_timeout_seconds e)\<rparr>)))"

section \<open>What accepted settings guarantee\<close>

lemma require_non_empty_Inr: "require_non_empty v = Inr s \<longleftrightarrow> s = py_strip v \<and> s \<noteq> []"
  by (auto simp: require_non_empty_def Let_def result_iffs)

lemma require_key_prefix_Inr: "require_key_prefix v = Inr s \<longleftrightarrow> s = py_strip v \<and> s \<noteq> []"
  by (auto simp: require_key_prefix_def Let_def result_iffs)

lemma bounded_int_Inr: "bounded_int name lo hi n = Inr u \<longleftrightarrow> lo \<le> n \<and> n \<le> hi"
  by (auto simp: bounded_int_def require_field_def raise_if_Inr_iff)

lemma require_field_Inr: "require_field name ok = Inr u \<longleftrightarrow> ok"
  by (simp add: require_field_def raise_if_Inr_iff)

lemma float_in_Finite: "float_in hi v \<longleftrightarrow> (\<exists>w. v = Finite w \<and> 0 < w \<and> w \<le> hi)"
  by (cases v) simp_all

definition settings_ok :: "settings \<Rightarrow> bool" where
  "settings_ok s \<longleftrightarrow> st_app_env s \<in> set app_envs \<and> st_log_level s \<in> set log_levels
     \<and> st_log_format s \<in> set log_formats \<and> 0 < st_max_requests s \<and> 0 < st_per_ip_max_requests s
     \<and> (\<exists>w. st_window_seconds s = Finite w \<and> 0 < w \<and> w \<le> 86400)
     \<and> 0 < st_max_tracked_keys s \<and> 0 < st_max_request_body_bytes s"

lemma validate_settings_iff: "validate_settings s = Inr s' \<longleftrightarrow> s' = s \<and> settings_ok s"
  by (auto simp: validate_settings_def settings_ok_def rbind_Inr_iff require_field_Inr
      must_be_finite_def raise_if_Inr_iff float_in_Finite)

lemma Settings_iff: "Settings e = Inr s \<longleftrightarrow> s = env_defaults e \<and> settings_ok s"
  by (auto simp: Settings_def validate_settings_iff)

lemma blank_unset: "blank_env_value_means_unset v \<noteq> Some []"
  by (simp add: blank_env_value_means_unset_def)

lemma Settings_no_blank_url: "Settings e = Inr s \<Longrightarrow> st_redis_url s \<noteq> Some []"
  by (auto simp: Settings_iff env_defaults_def blank_unset)

end
