(* ===== verification/Body_Admission.thy ===== *)
theory Body_Admission
  imports Json
begin

text \<open>
  The ASGI boundary of \<open>entrypoints/http.py\<close>: the error envelope, the declared-length check, the
  loop that admits a bounded body, and the middleware that runs the per-IP rate limit before
  them.

  \<^item> Bytes of headers and bodies are \<open>string\<close>s: a \<open>char\<close> is one byte.
  \<^item> The events of the receive channel are the list the server will deliver; at its end the next
    \<open>receive\<close> waits (\<open>Waiting\<close>).
  \<^item> The per-IP limiter is its \<open>allow\<close>, with the limiter's state.
\<close>

section \<open>Error responses\<close>

record http_response =
  hr_status :: nat
  hr_content :: json

definition error_response :: "nat \<Rightarrow> string \<Rightarrow> string \<Rightarrow> http_response" where
  "error_response status_code code message =
    \<lparr>hr_status = status_code,
     hr_content = JObj [(''error'', JObj [(''code'', JStr code), (''message'', JStr message)])]\<rparr>"

definition body_too_large_response :: "int \<Rightarrow> http_response" where
  "body_too_large_response max_body_bytes =
    error_response 413 ''payload_too_large''
      (''request body exceeds the '' @ int_str max_body_bytes @ ''-byte limit'')"

definition invalid_length_response :: http_response where
  "invalid_length_response = error_response 400 ''invalid_request'' ''invalid Content-Length header''"

section \<open>The declared length\<close>

text \<open>\<open>bytes.lower\<close> changes the ASCII capitals only.\<close>

definition lower_char :: "char \<Rightarrow> char" where
  "lower_char c = (if is_upper c then char_of ((of_char c :: nat) + 32) else c)"

definition bytes_lower :: "string \<Rightarrow> string" where
  "bytes_lower s = map lower_char s"

type_synonym headers = "(string \<times> string) list"

text \<open>
  The loop over the headers: the stripped value of the one \<open>Content-Length\<close> field, if any; a
  second one is refused at once.
\<close>

fun content_length :: "headers \<Rightarrow> string option \<Rightarrow> (http_response, string option) result" where
  "content_length [] found = Inr found"
| "content_length ((key, v) # headers) found =
    (if bytes_lower key = ''content-length'' then
       (if found \<noteq> None then Inl invalid_length_response
        else content_length headers
          (Some (strip_both (\<lambda>c. c = CHR '' '' \<or> c = CHR 0x09) v)))
     else content_length headers found)"

definition bytes_isdigit :: "string \<Rightarrow> bool" where
  "bytes_isdigit s \<longleftrightarrow> s \<noteq> [] \<and> list_all is_digit s"

text \<open>Longer, or of the same length and greater in byte order.\<close>

definition exceeds_cap :: "string \<Rightarrow> int \<Rightarrow> bool" where
  "exceeds_cap digits max_body_bytes =
    (let stripped = dropWhile (\<lambda>c. c = CHR ''0'') digits;
         normalized_length = (if stripped = [] then ''0'' else stripped);
         cap = int_str max_body_bytes
     in length cap < length normalized_length \<or>
        (length normalized_length = length cap \<and> cap < normalized_length))"

definition declared_body_size_error :: "headers \<Rightarrow> int \<Rightarrow> http_response option" where
  "declared_body_size_error headers max_body_bytes =
    (case content_length headers None of
       Inl response \<Rightarrow> Some response
     | Inr None \<Rightarrow> None
     | Inr (Some v) \<Rightarrow>
         (if \<not> bytes_isdigit v then Some invalid_length_response
          else if exceeds_cap v max_body_bytes then Some (body_too_large_response max_body_bytes)
          else None))"

section \<open>The received body\<close>

datatype message = Disconnect | Request (chunk: string) (more_body: bool) | OtherMessage

text \<open>
  How the admission loop ends: with a message for the application and the events still to come,
  with a 413, with a \<open>RuntimeError\<close>, or not yet.
\<close>

datatype admission = Admitted message "message list" | TooLarge | Unexpected | Waiting

fun admit :: "int \<Rightarrow> string \<Rightarrow> message list \<Rightarrow> admission" where
  "admit max_body_bytes body [] = Waiting"
| "admit max_body_bytes body (Disconnect # events) = Admitted Disconnect events"
| "admit max_body_bytes body (OtherMessage # events) = Unexpected"
| "admit max_body_bytes body (Request c mb # events) =
    (if max_body_bytes - int (length body) < int (length c) then TooLarge
     else if mb then admit max_body_bytes (body @ c) events
     else Admitted (Request (body @ c) False) events)"

text \<open>
  \<open>receive_admitted\<close>: the admitted message first, then whatever the server delivers.
\<close>

definition receive_admitted :: "message option \<Rightarrow> message list \<Rightarrow> message list" where
  "receive_admitted admitted events = (case admitted of Some m \<Rightarrow> m # events | None \<Rightarrow> events)"

section \<open>The middleware\<close>

record scope =
  sc_type :: string
  sc_path :: string
  sc_method :: string
  sc_client :: "string option"
  sc_headers :: headers

definition is_route_post :: "scope \<Rightarrow> bool" where
  "is_route_post sc \<longleftrightarrow> sc_path sc = ''/route'' \<and> sc_method sc = ''POST''"

definition client_host :: "scope \<Rightarrow> string" where
  "client_host sc = (case sc_client sc of Some h \<Rightarrow> h | None \<Rightarrow> ''unknown'')"

text \<open>
  What the wrapped application sees: nothing because the middleware answered, or its own run with
  the events it will receive. The labels counted on the way are \<open>(tier, outcome)\<close>.
\<close>

datatype handling =
    Answered http_response
  | Forwarded "message list"
  | Failed string
  | Pending

definition rate_limited_response :: http_response where
  "rate_limited_response =
    error_response 429 ''rate_limit_exceeded'' ''too many requests, try again later''"

definition outcome_label :: "bool \<Rightarrow> string" where
  "outcome_label ok = (if ok then ''allowed'' else ''blocked'')"

definition admission_handling :: "int \<Rightarrow> message list \<Rightarrow> handling" where
  "admission_handling max_body_bytes events =
    (case admit max_body_bytes [] events of
       Admitted m rest \<Rightarrow> Forwarded (receive_admitted (Some m) rest)
     | TooLarge \<Rightarrow> Answered (body_too_large_response max_body_bytes)
     | Unexpected \<Rightarrow> Failed ''unexpected ASGI event during request body admission''
     | Waiting \<Rightarrow> Pending)"

definition middleware ::
  "('s \<Rightarrow> string \<Rightarrow> 's \<times> bool) \<Rightarrow> 's \<Rightarrow> int \<Rightarrow> scope \<Rightarrow> message list \<Rightarrow>
     's \<times> (string \<times> string) list \<times> handling" where
  "middleware ip_allow limiter max_body_bytes sc events =
    (if sc_type sc \<noteq> ''http'' then (limiter, [], Forwarded events)
     else
       let checked = (case declared_body_size_error (sc_headers sc) max_body_bytes of
             Some response \<Rightarrow> Answered response
           | None \<Rightarrow> (if is_route_post sc then admission_handling max_body_bytes events
                      else Forwarded events))
       in if is_route_post sc then
            (let (limiter, ip_allowed) = ip_allow limiter (''ip:'' @ client_host sc);
                 labels = [(''per_ip'', outcome_label ip_allowed)]
             in if \<not> ip_allowed then (limiter, labels, Answered rate_limited_response)
                else (limiter, labels, checked))
          else (limiter, [], checked))"

section \<open>The order of numerals\<close>

lemma digit_value_bound: "is_digit c \<Longrightarrow> digit_value c < 10"
proof -
  have "list_all (\<lambda>c. digit_value c < 10) ''0123456789''" by code_simp
  then show "is_digit c \<Longrightarrow> digit_value c < 10" by (auto simp: is_digit_def list_all_iff)
qed

lemma digit_less_iff: "is_digit a \<Longrightarrow> is_digit b \<Longrightarrow> a < b \<longleftrightarrow> digit_value a < digit_value b"
proof -
  have "list_all (\<lambda>a. list_all (\<lambda>b. a < b \<longleftrightarrow> digit_value a < digit_value b) ''0123456789'') ''0123456789''"
    by code_simp
  then show "is_digit a \<Longrightarrow> is_digit b \<Longrightarrow> a < b \<longleftrightarrow> digit_value a < digit_value b"
    unfolding is_digit_def list_all_iff by blast
qed

lemma digits_value_snoc: "digits_value (ds @ [c]) = 10 * digits_value ds + digit_value c"
  by (simp add: digits_value_def)

lemma digits_value_append:
  "digits_value (xs @ ys) = digits_value xs * 10 ^ length ys + digits_value ys"
proof (induction ys rule: rev_induct)
  case Nil
  then show ?case by (simp add: digits_value_def)
next
  case (snoc y ys)
  have "digits_value (xs @ ys @ [y]) = 10 * digits_value (xs @ ys) + digit_value y"
    using digits_value_snoc [of "xs @ ys" y] by simp
  with snoc show ?case by (simp add: digits_value_snoc algebra_simps)
qed

lemma digits_value_Cons: "digits_value (c # ds) = digit_value c * 10 ^ length ds + digits_value ds"
  using digits_value_append [of "[c]" ds] by (simp add: digits_value_def)

lemma digits_value_bound: "list_all is_digit ds \<Longrightarrow> digits_value ds < 10 ^ length ds"
proof (induction ds)
  case Nil
  then show ?case by (simp add: digits_value_def)
next
  case (Cons c ds)
  then have "digits_value ds < 10 ^ length ds" and c: "digit_value c \<le> 9"
    using digit_value_bound [of c] by auto
  moreover have "digit_value c * 10 ^ length ds \<le> 9 * 10 ^ length ds"
    using c by (rule mult_le_mono1)
  moreover have "(10 :: nat) ^ length (c # ds) = 10 * 10 ^ length ds" by simp
  ultimately show ?case unfolding digits_value_Cons by linarith
qed

text \<open>Numerals of one length are ordered as their values.\<close>

lemma digits_less_iff:
  assumes "length xs = length ys" "list_all is_digit xs" "list_all is_digit ys"
  shows "xs < ys \<longleftrightarrow> digits_value xs < digits_value ys"
  using assms
proof (induction xs ys rule: list_induct2)
  case Nil
  then show ?case by (simp add: digits_value_def)
next
  case (Cons x xs y ys)
  then have IH: "xs < ys \<longleftrightarrow> digits_value xs < digits_value ys"
    and xy: "is_digit x" "is_digit y" and len: "length xs = length ys"
    and bx: "digits_value xs < 10 ^ length ys" and bys: "digits_value ys < 10 ^ length ys"
    using digits_value_bound [of xs] digits_value_bound [of ys] by auto
  have lt: "a * 10 ^ n + u < b * 10 ^ n + v" if "a < b" "u < 10 ^ n" for a b u v n :: nat
  proof -
    have "a * 10 ^ n + u < (a + 1) * 10 ^ n" using that(2) by simp
    also have "\<dots> \<le> b * 10 ^ n" using that(1) by (intro mult_le_mono1) simp
    finally show ?thesis by simp
  qed
  consider "digit_value x < digit_value y" | "digit_value y < digit_value x"
    | "digit_value x = digit_value y" by linarith
  then show ?case
  proof cases
    case 1
    with lt [OF 1 bx] digit_less_iff [OF xy] len show ?thesis by (simp add: digits_value_Cons)
  next
    case 2
    then have "y < x" using digit_less_iff [OF xy(2,1)] by simp
    then have "\<not> x # xs < y # ys" by auto
    moreover have "\<not> digits_value (x # xs) < digits_value (y # ys)"
      using lt [OF 2 bys, of "digits_value xs"] len by (simp add: digits_value_Cons)
    ultimately show ?thesis by blast
  next
    case 3
    then have "x = y" using digit_less_iff [OF xy] digit_less_iff [OF xy(2,1)] by (metis neqE less_irrefl)
    with IH len show ?thesis by (simp add: digits_value_Cons)
  qed
qed

text \<open>A longer numeral without leading zero is greater.\<close>

lemma longer_numeral:
  assumes "list_all is_digit xs" "list_all is_digit ys" "length ys < length xs" "hd xs \<noteq> CHR ''0''"
  shows "digits_value ys < digits_value xs"
proof -
  obtain c ds where xs: "xs = c # ds" using assms(3) by (cases xs) auto
  have "is_digit c" "c \<noteq> CHR ''0''" using assms(1,4) xs by auto
  moreover have "list_all (\<lambda>c. c \<noteq> CHR ''0'' \<longrightarrow> 1 \<le> digit_value c) ''0123456789''" by code_simp
  ultimately have "1 \<le> digit_value c" by (auto simp: is_digit_def list_all_iff)
  then have "1 * 10 ^ length ds \<le> digit_value c * 10 ^ length ds" by (rule mult_le_mono1)
  then have "10 ^ length ds \<le> digits_value xs" unfolding xs digits_value_Cons by linarith
  moreover have "digits_value ys < 10 ^ length ys" using assms(2) by (rule digits_value_bound)
  moreover have "(10 :: nat) ^ length ys \<le> 10 ^ length ds"
    using assms(3) xs by (intro power_increasing) auto
  ultimately show ?thesis by linarith
qed

lemma digits_value_lstrip:
  "digits_value (dropWhile (\<lambda>c. c = CHR ''0'') ds) = digits_value ds"
proof (induction ds)
  case Nil
  then show ?case by simp
next
  case (Cons c ds)
  have "digit_value (CHR ''0'') = 0" by code_simp
  with Cons show ?case by (simp add: digits_value_Cons)
qed

lemma numeral_zero: "digits_value ''0'' = 0"
  by code_simp

lemma exceeds_cap_iff:
  assumes "list_all is_digit ds" "0 < m"
  shows "exceeds_cap ds m \<longleftrightarrow> m < int (digits_value ds)"
proof -
  let ?st = "dropWhile (\<lambda>c. c = CHR ''0'') ds" and ?cap = "nat_str (nat m)"
  have cap: "int_str m = ?cap" using assms(2) by (simp add: int_str_def)
  have capd: "list_all is_digit ?cap" "digits_value ?cap = nat m" "hd ?cap \<noteq> CHR ''0''" "1 \<le> length ?cap"
    using nat_str_digits digits_value_nat_str nat_str_hd_zero assms(2)
    by (auto simp: Suc_le_eq)
  show ?thesis
  proof (cases "?st = []")
    case True
    then have "digits_value [] = digits_value ds"
      using digits_value_lstrip [of ds] by (simp only:)
    then have "digits_value ds = 0" by (simp add: digits_value_def)
    then have right: "\<not> m < int (digits_value ds)" using assms(2) by simp
    have below: "\<not> ?cap < ''0''" if "length ?cap = 1"
      using digits_less_iff [of ?cap "''0''"] capd(1,2) that numeral_zero by (simp add: is_digit_def)
    have ex: "exceeds_cap ds m \<longleftrightarrow>
        length ?cap < length ''0'' \<or> (length ''0'' = length ?cap \<and> ?cap < ''0'')"
      unfolding exceeds_cap_def cap Let_def True by (simp only: if_True simp_thms)
    have "\<not> exceeds_cap ds m"
    proof
      assume "exceeds_cap ds m"
      then consider "length ?cap < 1" | "length ?cap = 1" "?cap < ''0''" unfolding ex by fastforce
      then show False using below capd(4) by cases simp_all
    qed
    with right show ?thesis by simp
  next
    case False
    from hd_dropWhile [OF False] have hd: "hd ?st \<noteq> CHR ''0''" .
    have dig: "list_all is_digit ?st"
      using assms(1) by (auto simp: list_all_iff dest: set_dropWhileD)
    have v: "digits_value ?st = digits_value ds" by (rule digits_value_lstrip)
    have ex: "exceeds_cap ds m \<longleftrightarrow> length ?cap < length ?st \<or> (length ?st = length ?cap \<and> ?cap < ?st)"
      unfolding exceeds_cap_def cap Let_def by (simp only: False if_False)
    consider "length ?cap < length ?st" | "length ?st = length ?cap" | "length ?st < length ?cap"
      by linarith
    then show ?thesis
    proof cases
      case 1
      then have "nat m < digits_value ds"
        using longer_numeral [OF dig capd(1) _ hd] v capd(2) by simp
      with 1 ex assms(2) show ?thesis by (simp add: nat_less_iff)
    next
      case 2
      with digits_less_iff [OF 2 [symmetric] capd(1) dig] v capd(2) ex assms(2) show ?thesis by (simp add: zless_nat_eq_int_zless nat_less_iff)
    next
      case 3
      with longer_numeral [OF capd(1) dig 3 capd(3)] v capd(2) ex assms(2) show ?thesis by (auto simp: zless_nat_eq_int_zless)
    qed
  qed
qed

section \<open>The declared length, characterised\<close>

definition length_fields :: "headers \<Rightarrow> string list" where
  "length_fields headers =
    map (\<lambda>(k, v). strip_both (\<lambda>c. c = CHR '' '' \<or> c = CHR 0x09) v)
      (filter (\<lambda>(k, v). bytes_lower k = ''content-length'') headers)"

lemma content_length_Some:
  "content_length headers (Some v) =
    (if length_fields headers = [] then Inr (Some v) else Inl invalid_length_response)"
  by (induction headers) (auto simp: length_fields_def)

lemma content_length_None:
  "content_length headers None =
    (case length_fields headers of
       [] \<Rightarrow> Inr None
     | [v] \<Rightarrow> Inr (Some v)
     | _ \<Rightarrow> Inl invalid_length_response)"
  by (induction headers) (auto simp: length_fields_def content_length_Some split: list.splits)

section \<open>What the loop admits\<close>

fun chunks_of :: "message list \<Rightarrow> string" where
  "chunks_of [] = []"
| "chunks_of (Request c mb # ms) = c @ chunks_of ms"
| "chunks_of (m # ms) = chunks_of ms"

text \<open>A body in progress: more-body messages only, within the cap.\<close>

definition in_progress :: "int \<Rightarrow> message list \<Rightarrow> bool" where
  "in_progress m ms \<longleftrightarrow> list_all (\<lambda>e. \<exists>c. e = Request c True) ms \<and> int (length (chunks_of ms)) \<le> m"

lemma chunks_of_append: "chunks_of (xs @ ys) = chunks_of xs @ chunks_of ys"
  by (induction xs rule: chunks_of.induct) simp_all

lemma admit_progress:
  "list_all (\<lambda>e. \<exists>c. e = Request c True) ms \<Longrightarrow> int (length body + length (chunks_of ms)) \<le> m \<Longrightarrow>
    admit m body (ms @ rest) = admit m (body @ chunks_of ms) rest"
proof (induction ms arbitrary: body)
  case Nil
  then show ?case by simp
next
  case (Cons e ms)
  then obtain c where e: "e = Request c True" by auto
  with Cons.prems have "admit m (body @ c) (ms @ rest) = admit m ((body @ c) @ chunks_of ms) rest"
    by (intro Cons.IH) auto
  with e Cons.prems show ?case by simp
qed

text \<open>Every run of the loop is a body in progress, and then the event that ends it.\<close>

lemma admit_cases:
  assumes "int (length body) \<le> m"
  obtains ms where "list_all (\<lambda>e. \<exists>c. e = Request c True) ms" "events = ms"
      "int (length body + length (chunks_of ms)) \<le> m" "admit m body events = Waiting"
  | ms rest where "list_all (\<lambda>e. \<exists>c. e = Request c True) ms" "events = ms @ Disconnect # rest"
      "int (length body + length (chunks_of ms)) \<le> m" "admit m body events = Admitted Disconnect rest"
  | ms rest where "list_all (\<lambda>e. \<exists>c. e = Request c True) ms" "events = ms @ OtherMessage # rest"
      "int (length body + length (chunks_of ms)) \<le> m" "admit m body events = Unexpected"
  | ms c mb rest where "list_all (\<lambda>e. \<exists>c. e = Request c True) ms" "events = ms @ Request c mb # rest"
      "int (length body + length (chunks_of ms)) \<le> m"
      "m < int (length body + length (chunks_of ms) + length c)" "admit m body events = TooLarge"
  | ms c rest where "list_all (\<lambda>e. \<exists>c. e = Request c True) ms" "events = ms @ Request c False # rest"
      "int (length body + length (chunks_of ms) + length c) \<le> m"
      "admit m body events = Admitted (Request (body @ chunks_of ms @ c) False) rest"
proof -
  have "\<exists>ms rest. events = ms @ rest \<and> list_all (\<lambda>e. \<exists>c. e = Request c True) ms \<and>
      int (length body + length (chunks_of ms)) \<le> m \<and>
      (case rest of
         [] \<Rightarrow> True
       | Request c mb # _ \<Rightarrow> \<not> mb \<or> m < int (length body + length (chunks_of ms) + length c)
       | _ \<Rightarrow> True)"
    using assms
  proof (induction events arbitrary: body)
    case Nil
    then show ?case by simp
  next
    case (Cons e events)
    show ?case
    proof (cases "\<exists>c. e = Request c True \<and> int (length body + length c) \<le> m")
      case True
      then obtain c where e: "e = Request c True" "int (length (body @ c)) \<le> m" by auto
      from Cons.IH [OF e(2)] obtain ms rest where ms: "events = ms @ rest"
        "list_all (\<lambda>e. \<exists>c. e = Request c True) ms"
        "int (length (body @ c) + length (chunks_of ms)) \<le> m"
        "case rest of [] \<Rightarrow> True
         | Request d mb # _ \<Rightarrow> \<not> mb \<or> m < int (length (body @ c) + length (chunks_of ms) + length d)
         | _ \<Rightarrow> True" by blast
      show ?thesis
        by (rule exI [of _ "e # ms"], rule exI [of _ rest])
          (use ms e in \<open>auto simp: add.assoc split: list.splits message.splits\<close>)
    next
      case False
      show ?thesis
        by (rule exI [of _ "[]"], rule exI [of _ "e # events"])
          (use False Cons.prems in \<open>auto split: message.splits\<close>)
    qed
  qed
  then obtain ms rest where ms: "events = ms @ rest" "list_all (\<lambda>e. \<exists>c. e = Request c True) ms"
    "int (length body + length (chunks_of ms)) \<le> m"
    and stop: "case rest of [] \<Rightarrow> True
       | Request c mb # _ \<Rightarrow> \<not> mb \<or> m < int (length body + length (chunks_of ms) + length c)
       | _ \<Rightarrow> True" by blast
  note run = admit_progress [OF ms(2,3), of rest]
  show thesis
  proof (cases rest)
    case Nil
    with ms run that(1) show thesis by simp
  next
    case (Cons e rest')
    show thesis
    proof (cases e)
      case Disconnect
      with Cons ms run that(2) show thesis by simp
    next
      case OtherMessage
      with Cons ms run that(3) show thesis by simp
    next
      case (Request c mb)
      show thesis
      proof (cases "m < int (length body + length (chunks_of ms) + length c)")
        case True
        then have "admit m body events = TooLarge" using run ms(1) Cons Request by simp
        with that(4) [of ms c mb rest'] ms Cons Request True show thesis by simp
      next
        case False
        with stop Cons Request have "\<not> mb" by simp
        with False run ms(1) Cons Request
        have "admit m body events = Admitted (Request (body @ chunks_of ms @ c) False) rest'" by simp
        with that(5) [of ms c rest'] ms Cons Request False \<open>\<not> mb\<close> show thesis by simp
      qed
    qed
  qed
qed

section \<open>Properties\<close>

text \<open>
  C26. The textual length check is the numeric one: a request with one \<open>Content-Length\<close> field of
  decimal digits is refused with 413 exactly when its value exceeds the cap, however many digits
  or leading zeros it has; without the field the check passes; a repeated field and any other
  text are refused with 400.
\<close>

theorem declared_length_exact:
  assumes "0 < m"
  shows "declared_body_size_error headers m =
    (case length_fields headers of
       [] \<Rightarrow> None
     | [v] \<Rightarrow>
         if \<not> bytes_isdigit v then Some invalid_length_response
         else if m < int (digits_value v) then Some (body_too_large_response m) else None
     | _ \<Rightarrow> Some invalid_length_response)"
proof -
  have "exceeds_cap v m \<longleftrightarrow> m < int (digits_value v)" if "bytes_isdigit v" for v
    using exceeds_cap_iff [OF _ assms] that by (simp add: bytes_isdigit_def)
  then show ?thesis
    unfolding declared_body_size_error_def content_length_None
    by (cases "length_fields headers" rule: list.exhaust [case_product list.exhaust])
      (auto split: list.splits)
qed

theorem declared_length_exact_witness:
  "declared_body_size_error [(''Content-Length'', '' 0016385 '')] 16384
     = Some (body_too_large_response 16384)"
proof -
  have "length_fields [(''Content-Length'', '' 0016385 '')] = [''0016385'']" by code_simp
  moreover have "bytes_isdigit ''0016385''" by code_simp
  moreover have "digits_value ''0016385'' = 16385" by code_simp
  ultimately show ?thesis
    using declared_length_exact [of 16384 "[(''Content-Length'', '' 0016385 '')]"] by simp
qed

text \<open>
  C27. Admission ends as soon as it can: the loop is still waiting exactly when every event so
  far is a chunk that announces another one and the chunks together fit under the cap. The last
  chunk, a disconnect, a foreign event and the first byte over the cap each end it.
\<close>

theorem admission_waits_iff:
  assumes "0 \<le> m"
  shows "admit m [] events = Waiting \<longleftrightarrow> in_progress m events"
proof
  assume w: "admit m [] events = Waiting"
  from assms have "int (length ([] :: string)) \<le> m" by simp
  then show "in_progress m events"
    by (cases rule: admit_cases [of "[]" m events]) (use w in \<open>auto simp: in_progress_def\<close>)
next
  assume "in_progress m events"
  then show "admit m [] events = Waiting"
    using admit_progress [of events "[]" m "[]"] by (simp add: in_progress_def)
qed

theorem admission_waits_iff_witness:
  "admit 4 [] [Request ''ab'' True, Request ''cd'' True] = Waiting \<and>
   admit 4 [] [Request ''ab'' True, Request ''cde'' True] \<noteq> Waiting"
  using admission_waits_iff [of 4 "[Request ''ab'' True, Request ''cd'' True]"]
    admission_waits_iff [of 4 "[Request ''ab'' True, Request ''cde'' True]"]
  by (simp add: in_progress_def)

text \<open>
  C28. The application behind the boundary only ever sees a bounded, complete body: whenever the
  middleware forwards \<open>POST /route\<close>, the client's address was within its limit, the declared
  length was acceptable, and the first message is either a disconnect or one final chunk, the
  exact concatenation of the chunks received, of at most \<open>max_request_body_bytes\<close> bytes; the
  events after it are left untouched.
\<close>

theorem forwarded_body_bounded:
  assumes "0 \<le> m" "sc_type sc = ''http''" "is_route_post sc"
    and "middleware ip_allow limiter m sc events = (limiter', labels, Forwarded received)"
  shows "snd (ip_allow limiter (''ip:'' @ client_host sc)) \<and>
    declared_body_size_error (sc_headers sc) m = None \<and>
    ((\<exists>ms rest. events = ms @ Disconnect # rest \<and> received = Disconnect # rest) \<or>
     (\<exists>ms c rest. events = ms @ Request c False # rest \<and>
        received = Request (chunks_of (ms @ [Request c False])) False # rest \<and>
        int (length (chunks_of (ms @ [Request c False]))) \<le> m))"
proof -
  from assms(2-4) have ok: "snd (ip_allow limiter (''ip:'' @ client_host sc))"
    and len: "declared_body_size_error (sc_headers sc) m = None"
    and adm: "admission_handling m events = Forwarded received"
    by (auto simp: middleware_def Let_def split: prod.splits option.splits if_splits)
  from assms(1) have "int (length ([] :: string)) \<le> m" by simp
  then have "(\<exists>ms rest. events = ms @ Disconnect # rest \<and> received = Disconnect # rest) \<or>
     (\<exists>ms c rest. events = ms @ Request c False # rest \<and>
        received = Request (chunks_of (ms @ [Request c False])) False # rest \<and>
        int (length (chunks_of (ms @ [Request c False]))) \<le> m)"
  proof (cases rule: admit_cases [of "[]" m events])
    case (2 ms rest)
    with adm show ?thesis by (auto simp: admission_handling_def receive_admitted_def)
  next
    case (5 ms c rest)
    with adm show ?thesis
      by (auto simp: admission_handling_def receive_admitted_def chunks_of_append)
  qed (use adm in \<open>auto simp: admission_handling_def\<close>)
  with ok len show ?thesis by blast
qed

definition sample_http_scope :: scope where
  "sample_http_scope = \<lparr>sc_type = ''http'', sc_path = ''/route'', sc_method = ''POST'',
     sc_client = Some ''10.0.0.1'', sc_headers = []\<rparr>"

theorem forwarded_body_bounded_witness:
  "middleware (\<lambda>s k. (s, True)) () 4 sample_http_scope [Request ''ab'' True, Request ''c'' False, Disconnect]
     = ((), [(''per_ip'', ''allowed'')], Forwarded [Request ''abc'' False, Disconnect])
   \<and> declared_body_size_error (sc_headers sample_http_scope) 4 = None"
proof -
  have run: "middleware (\<lambda>s k. (s, True)) () 4 sample_http_scope
      [Request ''ab'' True, Request ''c'' False, Disconnect] =
    ((), [(''per_ip'', ''allowed'')], Forwarded [Request ''abc'' False, Disconnect])"
    by (simp add: middleware_def sample_http_scope_def is_route_post_def declared_body_size_error_def
        admission_handling_def receive_admitted_def outcome_label_def)
  show ?thesis
    using forwarded_body_bounded [OF _ _ _ run] run by (simp add: sample_http_scope_def is_route_post_def)
qed

text \<open>
  The per-IP tier comes first: a blocked address is answered with 429 before its headers or
  body are looked at; no other path, and no other scope, ever consumes rate-limit budget.
\<close>

theorem ip_tier_first:
  "(\<not> (sc_type sc = ''http'' \<and> is_route_post sc) \<longrightarrow>
      fst (middleware ip_allow limiter m sc events) = limiter) \<and>
   (sc_type sc = ''http'' \<longrightarrow> is_route_post sc \<longrightarrow>
      \<not> snd (ip_allow limiter (''ip:'' @ client_host sc)) \<longrightarrow>
      middleware ip_allow limiter m sc events =
        (fst (ip_allow limiter (''ip:'' @ client_host sc)), [(''per_ip'', ''blocked'')],
         Answered rate_limited_response))"
  by (auto simp: middleware_def Let_def outcome_label_def split: prod.splits)

end
