(* ===== verification/Contract_Properties.thy ===== *)
theory Contract_Properties
  imports Authorization_Contract
begin

text \<open>
  What the contract guarantees: its canonical bytes determine every protected field, a validated
  document is in normal form and satisfies the contract's invariants, and every accepted
  signature field decodes.
\<close>

section \<open>The canonical bytes bind every field\<close>

lemma pairs_eq:
  assumes "map fst a = map fst b" "distinct (map fst a)" "set a = set b"
  shows "a = b"
proof (rule nth_equalityI)
  show len: "length a = length b" using assms(1) by (metis length_map)
  fix i assume i: "i < length a"
  have "fst (a ! i) = fst (b ! i)" using assms(1) i len by (metis nth_map)
  moreover have "a ! i \<in> set b" using nth_mem [OF i] by (simp only: assms(3))
  moreover have "b ! i \<in> set b" using i len by simp
  moreover have "distinct (map fst b)" using assms(1,2) by simp
  ultimately show "a ! i = b ! i" by (metis eq_key_imp_eq_value prod.collapse)
qed

lemma sort_keys_obj_inject:
  assumes "map fst kvs = map fst kvs'" "distinct (map fst kvs)"
    and "sort_keys (JObj kvs) = sort_keys (JObj kvs')"
  shows "map (sort_keys \<circ> snd) kvs = map (sort_keys \<circ> snd) kvs'"
proof -
  let ?f = "map (map_prod id sort_keys)"
  have keys: "map fst (?f xs) = map fst xs" for xs by (induction xs) auto
  from assms(3) have "sort_key fst (?f kvs) = sort_key fst (?f kvs')" by simp
  then have "set (?f kvs) = set (?f kvs')" by (metis set_sort)
  with assms keys have "?f kvs = ?f kvs'" by (intro pairs_eq) simp_all
  then have "map snd (?f kvs) = map snd (?f kvs')" by simp
  then show ?thesis by (simp add: comp_def)
qed

lemma jstrs_sort [simp]: "sort_keys (jstrs xs) = jstrs xs"
  by (simp add: comp_def)

lemma map_JStr_inject: "map JStr xs = map JStr ys \<longleftrightarrow> xs = ys"
  by (simp add: inj_map_eq_map inj_def)

lemma map_dc_inject: "map dc_value xs = map dc_value ys \<longleftrightarrow> xs = ys"
  by (simp add: inj_map_eq_map inj_def)

lemma map_JStr_dc: "map (\<lambda>c. JStr (dc_value c)) xs = map (\<lambda>c. JStr (dc_value c)) ys \<longleftrightarrow> xs = ys"
  by (simp add: inj_map_eq_map inj_def)

lemma tier_inject: "tier_value a = tier_value b \<longleftrightarrow> a = b"
  by (cases a; cases b) simp_all

lemma autonomy_inject: "autonomy_value a = autonomy_value b \<longleftrightarrow> a = b"
  by (cases a; cases b) simp_all

lemmas json_injects = map_JStr_inject map_dc_inject tier_inject autonomy_inject uuid_str_inject

lemma header_inject: "sort_keys (header_json a) = sort_keys (header_json b) \<Longrightarrow> a = b"
  unfolding header_json_def by (drule sort_keys_obj_inject [rotated 2]) (simp_all add: json_injects)

lemma provenance_inject: "sort_keys (provenance_json a) = sort_keys (provenance_json b) \<Longrightarrow> a = b"
  unfolding provenance_json_def
  by (drule sort_keys_obj_inject [rotated 2]) (simp_all add: json_injects)

lemma subject_inject: "sort_keys (subject_json a) = sort_keys (subject_json b) \<Longrightarrow> a = b"
  unfolding subject_json_def
  by (drule sort_keys_obj_inject [rotated 2]) (simp_all add: json_injects)

lemma binding_inject: "sort_keys (binding_json a) = sort_keys (binding_json b) \<Longrightarrow> a = b"
  unfolding binding_json_def
  by (drule sort_keys_obj_inject [rotated 2]) (simp_all add: json_injects)

lemma model_inject: "sort_keys (model_json a) = sort_keys (model_json b) \<Longrightarrow> a = b"
  unfolding model_json_def
  by (drule sort_keys_obj_inject [rotated 2])
    (simp_all add: json_injects comp_def map_JStr_dc)

lemma models_inject: "map (sort_keys \<circ> model_json) a = map (sort_keys \<circ> model_json) b \<longleftrightarrow> a = b"
proof -
  have "inj (sort_keys \<circ> model_json)" by (auto simp: inj_def dest: model_inject)
  then show ?thesis by (simp add: inj_map_eq_map)
qed

lemma scope_inject: "sort_keys (scope_json a) = sort_keys (scope_json b) \<Longrightarrow> a = b"
  unfolding scope_json_def
  by (drule sort_keys_obj_inject [rotated 2])
    (simp_all add: json_injects models_inject [unfolded comp_def] comp_def)

lemma claims_inject:
  "inj dump_time \<Longrightarrow> sort_keys (claims_json dump_time a) = sort_keys (claims_json dump_time b) \<Longrightarrow> a = b"
  unfolding claims_json_def
  by (drule sort_keys_obj_inject [rotated 2])
    (simp_all add: json_injects comp_def inj_eq subject_inject binding_inject scope_inject
      provenance_inject)

text \<open>Without floats and repeated keys, what \<open>json.dumps\<close> accepts can be read back.\<close>

lemma contract_json_wf:
  "serializable (header_json h) \<Longrightarrow> json_wf (header_json h)"
  "serializable (provenance_json p) \<Longrightarrow> json_wf (provenance_json p)"
  "serializable (subject_json s) \<Longrightarrow> json_wf (subject_json s)"
  "serializable (model_json m) \<Longrightarrow> json_wf (model_json m)"
  "serializable (binding_json b) \<Longrightarrow> json_wf (binding_json b)"
  by (simp_all add: header_json_def provenance_json_def subject_json_def model_json_def
      binding_json_def)

lemma scope_json_wf: "serializable (scope_json sc) \<Longrightarrow> json_wf (scope_json sc)"
  by (simp add: scope_json_def contract_json_wf)

lemma claims_json_wf: "serializable (claims_json dump_time c) \<Longrightarrow> json_wf (claims_json dump_time c)"
  by (simp add: claims_json_def contract_json_wf scope_json_wf)

lemma signing_bytes_inject:
  assumes "inj dump_time" "signing_bytes dump_time e = Inr b" "signing_bytes dump_time e' = Inr b"
  shows "ev_protected e = ev_protected e' \<and> ev_claims e = ev_claims e'"
proof -
  define doc where "doc e = JObj [(''protected'', header_json (ev_protected e)),
     (''claims'', claims_json dump_time (ev_claims e))]" for e :: "instant envelope"
  have ok: "serializable (doc e)" "serializable (doc e')"
    and bytes: "utf8_encode (json_dumps (doc e)) = utf8_encode (json_dumps (doc e'))"
    using assms(2,3)
    by (simp_all add: signing_bytes_def canonical_json_bytes_def doc_def [symmetric] result_iffs)
  have "json_wf (doc x)" if "serializable (doc x)" for x
    using that by (simp add: doc_def contract_json_wf claims_json_wf)
  with ok bytes have "sort_keys (doc e) = sort_keys (doc e')"
    by (intro dumps_inject) (simp_all add: utf8_inject)
  then show ?thesis
    unfolding doc_def
    by (drule_tac sort_keys_obj_inject [rotated 2])
      (use assms(1) in \<open>simp_all add: header_inject claims_inject\<close>)
qed

section \<open>Normal forms\<close>

lemma strip_both_idem: "strip_both p (strip_both p s) = strip_both p s"
proof (cases "strip_both p s = []")
  case True
  have "strip_both p [] = []" by (simp add: strip_both_def)
  with True show ?thesis by simp
next
  case False
  define t where "t = dropWhile p s"
  have s: "strip_both p s = rev (dropWhile p (rev t))" by (simp add: strip_both_def t_def)
  with False have ne: "dropWhile p (rev t) \<noteq> []" by simp
  then have "\<not> p (hd (dropWhile p (rev t)))" by (rule hd_dropWhile)
  then have last: "\<not> p (last (strip_both p s))" using ne by (simp add: s last_rev)
  have "t \<noteq> []" using ne by auto
  then have hd_t: "\<not> p (hd t)" unfolding t_def by (rule hd_dropWhile)
  obtain u where "rev t = u @ dropWhile p (rev t)" by (metis takeWhile_dropWhile_id)
  then have "t = strip_both p s @ rev u" by (metis s rev_append rev_rev_ident)
  with hd_t False have "\<not> p (hd (strip_both p s))" by (metis hd_append2)
  with False last show ?thesis by (rule_tac strip_both_id)
qed

lemma str_field_idem: "str_field lo hi p t = Some s \<Longrightarrow> str_field lo hi p s = Some s"
  by (auto simp: str_field_def Let_def trim_def strip_both_idem split: if_splits)

lemma Identifier_idem: "Identifier t = Some s \<Longrightarrow> Identifier s = Some s"
  unfolding Identifier_def by (rule str_field_idem)

lemma Digest_idem: "Digest t = Some s \<Longrightarrow> Digest s = Some s"
  unfolding Digest_def by (rule str_field_idem)

lemma RoutingGroup_idem: "RoutingGroup t = Some s \<Longrightarrow> RoutingGroup s = Some s"
  unfolding RoutingGroup_def by (rule str_field_idem)

lemma ShortText_idem: "ShortText t = Some s \<Longrightarrow> ShortText s = Some s"
  unfolding ShortText_def by (rule str_field_idem)

lemmas field_idem = Identifier_idem Digest_idem RoutingGroup_idem ShortText_idem

lemma require_Some [simp]: "require c = Some u \<longleftrightarrow> c"
  by (simp add: require_def)

lemma int_field_Some: "int_field lo hi n = Some m \<longleftrightarrow> lo \<le> n \<and> n \<le> hi \<and> m = n"
  by (auto simp: int_field_def)

lemma int_ge_Some: "int_ge lo n = Some m \<longleftrightarrow> lo \<le> n \<and> m = n"
  by (auto simp: int_ge_def)

lemma all_some_Some: "all_some f xs = Some ys \<longleftrightarrow> list_all2 (\<lambda>x y. f x = Some y) xs ys"
  by (induction xs arbitrary: ys) (auto simp: bind_eq_Some_conv list_all2_Cons1)

lemma all_some_id: "\<forall>x \<in> set xs. f x = Some x \<Longrightarrow> all_some f xs = Some xs"
  by (induction xs) auto

lemma all_some_None: "all_some f xs = None \<longleftrightarrow> (\<exists>x \<in> set xs. f x = None)"
  by (induction xs) (auto simp: bind_eq_None_conv)

lemma all_some_set: "all_some f xs = Some ys \<Longrightarrow> set ys = {y. \<exists>x \<in> set xs. f x = Some y}"
proof (induction xs arbitrary: ys)
  case Nil
  then show ?case by simp
next
  case (Cons x xs)
  then show ?case by (auto simp: bind_eq_Some_conv)
qed

lemma all_some_mset:
  "all_some f xs = Some ys \<Longrightarrow> mset ys = image_mset (\<lambda>x. the (f x)) (mset xs)"
  by (induction xs arbitrary: ys) (auto simp: bind_eq_Some_conv)

lemma all_some_normal:
  assumes "\<And>x y. f x = Some y \<Longrightarrow> f y = Some y" "all_some f xs = Some ys" "set zs \<subseteq> set ys"
  shows "all_some f zs = Some zs"
proof (rule all_some_id, rule ballI)
  fix z assume "z \<in> set zs"
  with assms(3) all_some_set [OF assms(2)] obtain x where "f x = Some z" by auto
  then show "f z = Some z" by (rule assms(1))
qed

section \<open>Validated records\<close>

lemma normalize_strings_set [simp]: "set (normalize_strings xs) = set xs"
  by (simp add: normalize_strings_def)

lemma normalize_strings_cong: "set xs = set ys \<Longrightarrow> normalize_strings xs = normalize_strings ys"
  unfolding normalize_strings_def by (rule sorted_strs_unique) simp_all

lemma normalize_strings_idem [simp]: "normalize_strings (normalize_strings xs) = normalize_strings xs"
  by (rule normalize_strings_cong) simp

lemma normalize_data_classes_idem [simp]:
  "normalize_data_classes (normalize_data_classes xs) = normalize_data_classes xs"
  by (simp add: normalize_data_classes_def distinct_remdups_id sorted_sort_id)

lemma validate_header_normal: "validate_header h = Some v \<Longrightarrow> validate_header v = Some v"
  by (auto simp: validate_header_def bind_eq_Some_conv field_idem)

lemma validate_provenance_normal: "validate_provenance p = Some v \<Longrightarrow> validate_provenance v = Some v"
  by (auto simp: validate_provenance_def bind_eq_Some_conv field_idem)

lemma validate_subject_normal: "validate_subject p = Some v \<Longrightarrow> validate_subject v = Some v"
  by (auto simp: validate_subject_def bind_eq_Some_conv int_ge_Some field_idem)

lemma validate_binding_normal: "validate_binding p = Some v \<Longrightarrow> validate_binding v = Some v"
  by (auto simp: validate_binding_def bind_eq_Some_conv int_field_Some field_idem)

lemma normalize_data_classes_Nil [simp]: "normalize_data_classes xs = [] \<longleftrightarrow> xs = []"
  by (metis normalize_data_classes_def remdups_eq_nil_iff set_empty set_sort)

lemma validate_model_normal: "validate_model p = Some v \<Longrightarrow> validate_model v = Some v"
  by (auto simp: validate_model_def bind_eq_Some_conv int_ge_Some field_idem)

lemma normalize_models_Some:
  "normalize_models ms = Some ns \<longleftrightarrow>
    distinct (map am_model_id ms) \<and> ns = sort_key (\<lambda>m. uuid_str (am_model_id m)) ms"
proof -
  have "distinct (map (\<lambda>m. uuid_str (am_model_id m)) ms) \<longleftrightarrow> distinct (map am_model_id ms)"
    by (simp add: distinct_map inj_on_def uuid_str_inject)
  then show ?thesis by (auto simp: normalize_models_def bind_eq_Some_conv)
qed

lemma sort_key_sorted: "sorted (map f xs) \<Longrightarrow> sort_key f xs = xs"
  by (induction xs) (simp_all add: insort_is_Cons)

lemma sort_key_idem [simp]: "sort_key f (sort_key f xs) = sort_key f xs"
  by (rule sort_key_sorted) simp

lemma sort_key_mset_unique:
  assumes "mset xs = mset ys" "distinct (map f xs)"
  shows "sort_key f xs = sort_key f ys"
proof (rule map_sorted_distinct_set_unique [where f = f])
  have set: "set xs = set ys" using assms(1) by (rule mset_eq_setD)
  have "distinct (map f ys)" using assms by (metis mset_eq_imp_distinct_iff mset_map)
  then show "distinct (map f (sort_key f ys))" by (simp add: distinct_sort_key)
  show "distinct (map f (sort_key f xs))" using assms(2) by (simp add: distinct_sort_key)
  show "inj_on f (set (sort_key f xs) \<union> set (sort_key f ys))"
    using assms(2) set by (simp add: distinct_map)
  show "set (sort_key f xs) = set (sort_key f ys)" using set by simp
qed simp_all

lemma normalize_models_normal: "normalize_models ms = Some ns \<Longrightarrow> normalize_models ns = Some ns"
  by (auto simp: normalize_models_Some distinct_sort_key)

lemma normalize_models_mset:
  assumes "mset ms = mset ms'"
  shows "normalize_models ms = normalize_models ms'"
proof (cases "distinct (map am_model_id ms)")
  case True
  then have "distinct (map (\<lambda>m. uuid_str (am_model_id m)) ms)"
    by (simp add: distinct_map inj_on_def uuid_str_inject)
  then have "sort_key (\<lambda>m. uuid_str (am_model_id m)) ms = sort_key (\<lambda>m. uuid_str (am_model_id m)) ms'"
    by (rule sort_key_mset_unique [OF assms])
  moreover have "distinct (map am_model_id ms')"
    using True assms by (metis mset_eq_imp_distinct_iff mset_map)
  ultimately show ?thesis using True normalize_models_Some by metis
next
  case False
  then have "\<not> distinct (map am_model_id ms')"
    using assms by (metis mset_eq_imp_distinct_iff mset_map)
  with False have "normalize_models ms \<noteq> Some ns" "normalize_models ms' \<noteq> Some ns" for ns
    by (simp_all add: normalize_models_Some)
  then show ?thesis by (metis not_None_eq)
qed

lemma capability_boundary_Some:
  "validate_capability_boundary s = Some v \<longleftrightarrow> v = s
    \<and> (sc_allowed_tools s \<noteq> [] \<longrightarrow> sc_permissions s \<noteq> [])
    \<and> (sc_autonomy_level s \<in> material_autonomy \<longrightarrow> sc_human_approval_points s \<noteq> [])
    \<and> (\<exists>m \<in> set (sc_models s). sc_data_classification s \<in> set (am_allowed_data_classes m))"
  by (auto simp: validate_capability_boundary_def bind_eq_Some_conv list_ex_iff)

lemma validate_scope_Some:
  "validate_scope s = Some v \<longleftrightarrow>
    (\<exists>ms ns ts ps hs. sc_models s \<noteq> [] \<and> all_some validate_model (sc_models s) = Some ms
      \<and> normalize_models ms = Some ns \<and> all_some Identifier (sc_allowed_tools s) = Some ts
      \<and> all_some Identifier (sc_permissions s) = Some ps
      \<and> 1 \<le> sc_max_runtime_seconds s \<and> sc_max_runtime_seconds s \<le> 86400
      \<and> all_some ShortText (sc_human_approval_points s) = Some hs
      \<and> sc_kill_switch_enabled s
      \<and> validate_capability_boundary (s\<lparr>sc_models := ns, sc_allowed_tools := normalize_strings ts,
         sc_permissions := normalize_strings ps,
         sc_human_approval_points := normalize_strings hs\<rparr>) = Some v)"
  by (simp add: validate_scope_def bind_eq_Some_conv int_field_Some)

lemma normalize_models_mset_id: "normalize_models ms = Some ns \<Longrightarrow> mset ns = mset ms"
  by (auto simp: normalize_models_Some)

lemma validate_scope_normal:
  assumes "validate_scope s = Some v"
  shows "validate_scope v = Some v"
proof -
  from assms obtain ms ns ts ps hs where raw:
    "sc_models s \<noteq> []" "all_some validate_model (sc_models s) = Some ms"
    "normalize_models ms = Some ns" "all_some Identifier (sc_allowed_tools s) = Some ts"
    "all_some Identifier (sc_permissions s) = Some ps"
    "1 \<le> sc_max_runtime_seconds s" "sc_max_runtime_seconds s \<le> 86400"
    "all_some ShortText (sc_human_approval_points s) = Some hs" "sc_kill_switch_enabled s"
    "validate_capability_boundary (s\<lparr>sc_models := ns, sc_allowed_tools := normalize_strings ts,
         sc_permissions := normalize_strings ps,
         sc_human_approval_points := normalize_strings hs\<rparr>) = Some v"
    unfolding validate_scope_Some by blast
  have v: "v = s\<lparr>sc_models := ns, sc_allowed_tools := normalize_strings ts,
      sc_permissions := normalize_strings ps, sc_human_approval_points := normalize_strings hs\<rparr>"
    using raw(10) by (simp add: capability_boundary_Some)
  have ns: "set ns = set ms" using normalize_models_mset_id [OF raw(3)] by (rule mset_eq_setD)
  have "ms \<noteq> []" using raw(1,2) by (auto simp: all_some_Some)
  then have "ns \<noteq> []" using ns by auto
  moreover have "all_some validate_model ns = Some ns"
    using all_some_normal [OF validate_model_normal raw(2)] ns by simp
  moreover have "normalize_models ns = Some ns" using raw(3) by (rule normalize_models_normal)
  moreover have "all_some Identifier (normalize_strings ts) = Some (normalize_strings ts)"
    using all_some_normal [OF Identifier_idem raw(4)] by simp
  moreover have "all_some Identifier (normalize_strings ps) = Some (normalize_strings ps)"
    using all_some_normal [OF Identifier_idem raw(5)] by simp
  moreover have "all_some ShortText (normalize_strings hs) = Some (normalize_strings hs)"
    using all_some_normal [OF ShortText_idem raw(8)] by simp
  ultimately show ?thesis
    using raw unfolding validate_scope_Some by (simp add: v capability_boundary_Some)
qed

section \<open>Collections are sets\<close>

lemma all_some_set_cong:
  assumes "set xs = set ys" "all_some f xs = Some zs"
  shows "\<exists>zs'. all_some f ys = Some zs' \<and> set zs' = set zs"
proof -
  have "all_some f ys \<noteq> None" using assms by (metis all_some_None option.distinct(1))
  then obtain zs' where "all_some f ys = Some zs'" by blast
  with all_some_set [OF this] all_some_set [OF assms(2)] assms(1) show ?thesis by simp
qed

lemma all_some_mset_cong:
  assumes "mset xs = mset ys" "all_some f xs = Some zs"
  shows "\<exists>zs'. all_some f ys = Some zs' \<and> mset zs' = mset zs"
proof -
  from assms all_some_set_cong [OF mset_eq_setD] obtain zs' where "all_some f ys = Some zs'" by blast
  with all_some_mset [OF this] all_some_mset [OF assms(2)] assms(1) show ?thesis by simp
qed

text \<open>Two scopes that list the same models, tools, permissions and approval points.\<close>

definition same_scope :: "auth_scope \<Rightarrow> auth_scope \<Rightarrow> bool" where
  "same_scope s s' \<longleftrightarrow> mset (sc_models s) = mset (sc_models s')
    \<and> set (sc_allowed_tools s) = set (sc_allowed_tools s')
    \<and> set (sc_permissions s) = set (sc_permissions s')
    \<and> set (sc_human_approval_points s) = set (sc_human_approval_points s')
    \<and> s' = s\<lparr>sc_models := sc_models s', sc_allowed_tools := sc_allowed_tools s',
         sc_permissions := sc_permissions s', sc_human_approval_points := sc_human_approval_points s'\<rparr>"

lemma same_scope_sym: "same_scope s s' \<Longrightarrow> same_scope s' s"
  by (cases s; cases s') (simp add: same_scope_def)

lemma same_scope_Some:
  assumes "same_scope s s'" "validate_scope s = Some v"
  shows "validate_scope s' = Some v"
proof -
  from assms(2) obtain ms ns ts ps hs where raw:
    "sc_models s \<noteq> []" "all_some validate_model (sc_models s) = Some ms"
    "normalize_models ms = Some ns" "all_some Identifier (sc_allowed_tools s) = Some ts"
    "all_some Identifier (sc_permissions s) = Some ps"
    "1 \<le> sc_max_runtime_seconds s" "sc_max_runtime_seconds s \<le> 86400"
    "all_some ShortText (sc_human_approval_points s) = Some hs" "sc_kill_switch_enabled s"
    "validate_capability_boundary (s\<lparr>sc_models := ns, sc_allowed_tools := normalize_strings ts,
         sc_permissions := normalize_strings ps,
         sc_human_approval_points := normalize_strings hs\<rparr>) = Some v"
    unfolding validate_scope_Some by blast
  from assms(1) have same: "mset (sc_models s) = mset (sc_models s')"
    "set (sc_allowed_tools s) = set (sc_allowed_tools s')"
    "set (sc_permissions s) = set (sc_permissions s')"
    "set (sc_human_approval_points s) = set (sc_human_approval_points s')"
    and s': "s' = s\<lparr>sc_models := sc_models s', sc_allowed_tools := sc_allowed_tools s',
         sc_permissions := sc_permissions s', sc_human_approval_points := sc_human_approval_points s'\<rparr>"
    unfolding same_scope_def by blast+
  obtain ms' where ms': "all_some validate_model (sc_models s') = Some ms'" "mset ms' = mset ms"
    using all_some_mset_cong [OF same(1) raw(2)] by blast
  obtain ts' where ts': "all_some Identifier (sc_allowed_tools s') = Some ts'" "set ts' = set ts"
    using all_some_set_cong [OF same(2) raw(4)] by blast
  obtain ps' where ps': "all_some Identifier (sc_permissions s') = Some ps'" "set ps' = set ps"
    using all_some_set_cong [OF same(3) raw(5)] by blast
  obtain hs' where hs': "all_some ShortText (sc_human_approval_points s') = Some hs'" "set hs' = set hs"
    using all_some_set_cong [OF same(4) raw(8)] by blast
  have "normalize_models ms' = Some ns" using normalize_models_mset [OF ms'(2)] raw(3) by simp
  moreover have "normalize_strings ts' = normalize_strings ts"
    "normalize_strings ps' = normalize_strings ps" "normalize_strings hs' = normalize_strings hs"
    by (rule normalize_strings_cong, rule ts'(2) ps'(2) hs'(2))+
  moreover have "sc_models s' \<noteq> []" using same(1) raw(1) by auto
  moreover have "sc_max_runtime_seconds s' = sc_max_runtime_seconds s"
    "sc_kill_switch_enabled s' = sc_kill_switch_enabled s"
    "s'\<lparr>sc_models := a, sc_allowed_tools := b, sc_permissions := c, sc_human_approval_points := d\<rparr> =
     s\<lparr>sc_models := a, sc_allowed_tools := b, sc_permissions := c, sc_human_approval_points := d\<rparr>"
    for a b c d by (subst s'; simp)+
  ultimately show ?thesis
    using raw ms'(1) ts'(1) ps'(1) hs'(1) unfolding validate_scope_Some by simp
qed

lemma same_scope_eq: "same_scope s s' \<Longrightarrow> validate_scope s = validate_scope s'"
proof (cases "validate_scope s")
  case (Some v)
  assume "same_scope s s'"
  with Some same_scope_Some show ?thesis by simp
next
  case None
  assume "same_scope s s'"
  then have "same_scope s' s" by (rule same_scope_sym)
  with None same_scope_Some show ?thesis by (cases "validate_scope s'") auto
qed

definition same_claims :: "datetime claims \<Rightarrow> datetime claims \<Rightarrow> bool" where
  "same_claims c c' \<longleftrightarrow> set (cl_audience c) = set (cl_audience c')
    \<and> same_scope (cl_scope c) (cl_scope c')
    \<and> c' = c\<lparr>cl_audience := cl_audience c', cl_scope := cl_scope c'\<rparr>"

lemma validate_claims_SomeI:
  assumes "cl_schema_version c = ''1.0''" "Identifier (cl_issuer c) = Some issuer" "cl_audience c \<noteq> []"
    "all_some Identifier (cl_audience c) = Some audience"
    "utc_field (cl_issued_at c) = Some issued" "utc_field (cl_not_before c) = Some nbf"
    "utc_field (cl_expires_at c) = Some expires" "validate_subject (cl_subject c) = Some subj"
    "validate_binding (cl_request c) = Some req" "validate_scope (cl_scope c) = Some scope"
    "Digest (cl_scope_digest c) = Some sd" "validate_provenance (cl_policy c) = Some pol"
    "issued \<le> nbf" "nbf < expires" "expires - issued \<le> seconds max_lifetime_seconds"
  shows "validate_claims c = Some \<lparr>cl_schema_version = cl_schema_version c, cl_authorization_id = cl_authorization_id c,
      cl_issuer = issuer, cl_audience = normalize_strings audience,
      cl_issued_at = issued, cl_not_before = nbf, cl_expires_at = expires,
      cl_subject = subj, cl_request = req, cl_scope = scope, cl_scope_digest = sd,
      cl_policy = pol\<rparr>"
  using assms by (simp add: validate_claims_def validate_time_window_def require_def)

lemma validate_claims_SomeE:
  assumes "validate_claims c = Some v"
  obtains issuer audience issued nbf expires subj req scope sd pol where
    "cl_schema_version c = ''1.0''" "Identifier (cl_issuer c) = Some issuer" "cl_audience c \<noteq> []"
    "all_some Identifier (cl_audience c) = Some audience"
    "utc_field (cl_issued_at c) = Some issued" "utc_field (cl_not_before c) = Some nbf"
    "utc_field (cl_expires_at c) = Some expires" "validate_subject (cl_subject c) = Some subj"
    "validate_binding (cl_request c) = Some req" "validate_scope (cl_scope c) = Some scope"
    "Digest (cl_scope_digest c) = Some sd" "validate_provenance (cl_policy c) = Some pol"
    "issued \<le> nbf" "nbf < expires" "expires - issued \<le> seconds max_lifetime_seconds"
    "v = \<lparr>cl_schema_version = cl_schema_version c, cl_authorization_id = cl_authorization_id c,
      cl_issuer = issuer, cl_audience = normalize_strings audience,
      cl_issued_at = issued, cl_not_before = nbf, cl_expires_at = expires,
      cl_subject = subj, cl_request = req, cl_scope = scope, cl_scope_digest = sd,
      cl_policy = pol\<rparr>"
proof -
  show thesis
    using assms unfolding validate_claims_def validate_time_window_def bind_eq_Some_conv
    by (elim exE conjE) (rule that; auto simp: not_less not_le)
qed

text \<open>A validated document, its instants read again as UTC datetimes.\<close>

definition utc :: "instant \<Rightarrow> datetime" where
  "utc t = Datetime t (Some 0)"

definition reread :: "instant claims \<Rightarrow> datetime claims" where
  "reread c = \<lparr>cl_schema_version = cl_schema_version c, cl_authorization_id = cl_authorization_id c,
     cl_issuer = cl_issuer c, cl_audience = cl_audience c, cl_issued_at = utc (cl_issued_at c),
     cl_not_before = utc (cl_not_before c), cl_expires_at = utc (cl_expires_at c),
     cl_subject = cl_subject c, cl_request = cl_request c, cl_scope = cl_scope c,
     cl_scope_digest = cl_scope_digest c, cl_policy = cl_policy c\<rparr>"

lemma utc_field_utc [simp]: "utc_field (utc t) = Some t"
  by (simp add: utc_field_def utc_def)

lemma claims_normal:
  assumes "validate_claims c = Some v"
  shows "validate_claims (reread v) = Some v"
  using assms
proof (rule validate_claims_SomeE)
  fix issuer audience issued nbf expires subj req scope sd pol
  assume raw: "cl_schema_version c = ''1.0''" "Identifier (cl_issuer c) = Some issuer"
    "cl_audience c \<noteq> []" "all_some Identifier (cl_audience c) = Some audience"
    "validate_subject (cl_subject c) = Some subj" "validate_binding (cl_request c) = Some req"
    "validate_scope (cl_scope c) = Some scope" "Digest (cl_scope_digest c) = Some sd"
    "validate_provenance (cl_policy c) = Some pol"
    and times: "issued \<le> nbf" "nbf < expires" "expires - issued \<le> seconds max_lifetime_seconds"
    and v: "v = \<lparr>cl_schema_version = cl_schema_version c, cl_authorization_id = cl_authorization_id c,
      cl_issuer = issuer, cl_audience = normalize_strings audience, cl_issued_at = issued,
      cl_not_before = nbf, cl_expires_at = expires, cl_subject = subj, cl_request = req,
      cl_scope = scope, cl_scope_digest = sd, cl_policy = pol\<rparr>"
  have aud: "all_some Identifier (normalize_strings audience) = Some (normalize_strings audience)"
    using all_some_normal [OF Identifier_idem raw(4)] by simp
  have "audience \<noteq> []" using raw(3,4) by (auto simp: all_some_Some)
  then have "normalize_strings audience \<noteq> []" by (metis normalize_strings_set set_empty)
  then show ?thesis
    using validate_claims_SomeI [of "reread v" issuer "normalize_strings audience" issued nbf expires
        subj req scope sd pol] raw times aud
    by (simp add: v reread_def field_idem validate_subject_normal validate_binding_normal
        validate_scope_normal validate_provenance_normal)
qed

lemma same_claims_Some:
  assumes "same_claims c c'" "validate_claims c = Some v"
  shows "validate_claims c' = Some v"
  using assms(2)
proof (rule validate_claims_SomeE)
  fix issuer audience issued nbf expires subj req scope sd pol
  assume raw: "cl_schema_version c = ''1.0''" "Identifier (cl_issuer c) = Some issuer"
    "cl_audience c \<noteq> []" "all_some Identifier (cl_audience c) = Some audience"
    "utc_field (cl_issued_at c) = Some issued" "utc_field (cl_not_before c) = Some nbf"
    "utc_field (cl_expires_at c) = Some expires"
    "validate_subject (cl_subject c) = Some subj" "validate_binding (cl_request c) = Some req"
    "validate_scope (cl_scope c) = Some scope" "Digest (cl_scope_digest c) = Some sd"
    "validate_provenance (cl_policy c) = Some pol"
    and times: "issued \<le> nbf" "nbf < expires" "expires - issued \<le> seconds max_lifetime_seconds"
    and v: "v = \<lparr>cl_schema_version = cl_schema_version c, cl_authorization_id = cl_authorization_id c,
      cl_issuer = issuer, cl_audience = normalize_strings audience, cl_issued_at = issued,
      cl_not_before = nbf, cl_expires_at = expires, cl_subject = subj, cl_request = req,
      cl_scope = scope, cl_scope_digest = sd, cl_policy = pol\<rparr>"
  from assms(1) have aud: "set (cl_audience c) = set (cl_audience c')"
    and sc: "same_scope (cl_scope c) (cl_scope c')"
    and c': "c' = c\<lparr>cl_audience := cl_audience c', cl_scope := cl_scope c'\<rparr>"
    unfolding same_claims_def by blast+
  obtain audience' where aud': "all_some Identifier (cl_audience c') = Some audience'"
    "set audience' = set audience" using all_some_set_cong [OF aud raw(4)] by blast
  have norm: "normalize_strings audience' = normalize_strings audience"
    using aud'(2) by (rule normalize_strings_cong)
  have ne: "cl_audience c' \<noteq> []" using aud raw(3) by auto
  have scope: "validate_scope (cl_scope c') = Some scope" using same_scope_eq [OF sc] raw(10) by simp
  obtain a b where ab: "a = cl_audience c'" "b = cl_scope c'" by blast
  have c'': "c' = c\<lparr>cl_audience := a, cl_scope := b\<rparr>" using c' ab by simp
  have eqs: "cl_schema_version c' = cl_schema_version c" "cl_issuer c' = cl_issuer c"
    "cl_authorization_id c' = cl_authorization_id c" "cl_issued_at c' = cl_issued_at c"
    "cl_not_before c' = cl_not_before c" "cl_expires_at c' = cl_expires_at c"
    "cl_subject c' = cl_subject c" "cl_request c' = cl_request c"
    "cl_scope_digest c' = cl_scope_digest c" "cl_policy c' = cl_policy c"
    by (simp_all add: c'')
  show ?thesis
    unfolding v
    by (rule validate_claims_SomeI [of c' issuer audience' issued nbf expires subj req scope sd pol,
          unfolded eqs norm]) (fact raw times aud'(1) ne scope)+
qed

lemma same_claims_sym: "same_claims c c' \<Longrightarrow> same_claims c' c"
  by (cases c; cases c') (auto simp: same_claims_def same_scope_sym)

section \<open>Signature text\<close>

lemma accepted_signature:
  assumes "str_field 86 86 signature_pattern t = Some sg"
  shows "\<exists>bs. decode_signature sg = Inr bs \<and> length bs = 64 \<and> validate_signature_encoding sg = Some sg"
proof -
  from assms have sg: "length sg = 86" "list_all b64url_char sg"
    by (auto simp: str_field_def Let_def signature_pattern_def split: if_splits)
  obtain bs where bs: "decode_base64url sg = Inr bs" "length bs = 64"
    using decode_base64url_length [OF sg(2)] sg(1) by auto
  have pad: "replicate ((4 - length sg mod 4) mod 4) (CHR ''='') = ''==''"
    by (simp add: sg(1) numeral_2_eq_2)
  from bs(1) have "a2b_base64_strict (map altchars (sg @ ''=='')) = Some bs"
    by (simp only: decode_base64url_def pad Let_def rbind_Inr_iff some_or_Inr_iff) blast
  with bs show ?thesis
    by (auto simp: decode_signature_def validate_signature_encoding_def require_def)
qed

section \<open>A sample authorization\<close>

definition sample_digest :: string where
  "sample_digest = replicate 64 (CHR ''a'')"

definition sample_model :: authorized_model where
  "sample_model = \<lparr>am_model_id = 9, am_entity_version = 1, am_model_version = ''v1'',
     am_routing_group = ''reasoning-strong'', am_review_digest = sample_digest,
     am_allowed_data_classes = [RESTRICTED]\<rparr>"

definition sample_scope :: auth_scope where
  "sample_scope = \<lparr>sc_risk_tier = TIER_HIGH, sc_data_classification = RESTRICTED,
     sc_autonomy_level = A1_RECOMMENDATION, sc_models = [sample_model],
     sc_allowed_tools = [], sc_permissions = [], sc_max_runtime_seconds = 60,
     sc_human_approval_points = [], sc_kill_switch_enabled = True\<rparr>"

definition sample_claims :: "instant claims" where
  "sample_claims = \<lparr>cl_schema_version = ''1.0'', cl_authorization_id = 1, cl_issuer = ''governance'',
     cl_audience = [''policy-model-router''], cl_issued_at = 1784721600000000,
     cl_not_before = 1784721600000000, cl_expires_at = 1784721900000000,
     cl_subject = \<lparr>sj_initiative_id = 2, sj_ai_system_id = 3, sj_ai_system_version = 1,
       sj_agent_id = 7, sj_agent_version = 5, sj_agent_review_digest = sample_digest\<rparr>,
     cl_request = \<lparr>rb_workflow_id = ''credit-review-42'', rb_task_id = ''correlate-findings-7'',
       rb_workload = ''findings_correlation'', rb_context_tokens_estimated = 100000,
       rb_max_output_tokens_estimated = 2000, rb_structured_output_required = False,
       rb_max_latency_ms = 60000, rb_max_cost_usd_micros = 1000000\<rparr>,
     cl_scope = sample_scope, cl_scope_digest = sample_digest,
     cl_policy = \<lparr>pv_policy_id = ''policy'', pv_policy_version = ''1'', pv_policy_digest = sample_digest,
       pv_control_catalog_id = ''catalog'', pv_control_catalog_version = ''1'',
       pv_control_catalog_digest = sample_digest\<rparr>\<rparr>"

lemmas sample_claims_defs = sample_digest_def sample_model_def sample_scope_def sample_claims_def

lemma sample_fields:
  "Identifier ''governance'' = Some ''governance''"
  "Identifier ''policy-model-router'' = Some ''policy-model-router''"
  "validate_subject (cl_subject sample_claims) = Some (cl_subject sample_claims)"
  "validate_binding (cl_request sample_claims) = Some (cl_request sample_claims)"
  "Digest sample_digest = Some sample_digest"
  "validate_provenance (cl_policy sample_claims) = Some (cl_policy sample_claims)"
  "normalize_strings [''policy-model-router''] = [''policy-model-router'']"
  by code_simp+

lemma sample_model_valid: "validate_model sample_model = Some sample_model"
  by code_simp

lemma sample_scope_valid: "validate_scope sample_scope = Some sample_scope"
  by (simp add: validate_scope_Some sample_scope_def sample_model_valid normalize_models_Some
      capability_boundary_Some material_autonomy_def normalize_strings_def sorted_strs_def)
    (simp add: sample_model_def)

lemma sample_claims_valid: "validate_claims (reread sample_claims) = Some sample_claims"
proof -
  have "all_some Identifier (cl_audience (reread sample_claims)) = Some [''policy-model-router'']"
    by (simp add: reread_def sample_claims_def sample_fields)
  then show ?thesis
    using validate_claims_SomeI [of "reread sample_claims" "''governance''"
        "[''policy-model-router'']" "cl_issued_at sample_claims" "cl_not_before sample_claims"
        "cl_expires_at sample_claims" "cl_subject sample_claims" "cl_request sample_claims"
        sample_scope sample_digest "cl_policy sample_claims"] sample_fields sample_scope_valid
    by (simp add: reread_def sample_claims_def max_lifetime_seconds_def)
qed

section \<open>Properties\<close>

text \<open>The invariants of a validated scope and of validated claims.\<close>

definition scope_inv :: "auth_scope \<Rightarrow> bool" where
  "scope_inv s \<longleftrightarrow> sc_models s \<noteq> [] \<and> distinct (map am_model_id (sc_models s))
    \<and> sc_kill_switch_enabled s \<and> 1 \<le> sc_max_runtime_seconds s \<and> sc_max_runtime_seconds s \<le> 86400
    \<and> (sc_allowed_tools s \<noteq> [] \<longrightarrow> sc_permissions s \<noteq> [])
    \<and> (sc_autonomy_level s \<in> material_autonomy \<longrightarrow> sc_human_approval_points s \<noteq> [])
    \<and> (\<exists>m \<in> set (sc_models s). sc_data_classification s \<in> set (am_allowed_data_classes m))
    \<and> sorted (sc_allowed_tools s) \<and> distinct (sc_allowed_tools s)
    \<and> sorted (sc_permissions s) \<and> distinct (sc_permissions s)"

definition claims_inv :: "instant claims \<Rightarrow> bool" where
  "claims_inv c \<longleftrightarrow> cl_issued_at c \<le> cl_not_before c \<and> cl_not_before c < cl_expires_at c
    \<and> cl_expires_at c - cl_issued_at c \<le> seconds 600
    \<and> cl_audience c \<noteq> [] \<and> sorted (cl_audience c) \<and> distinct (cl_audience c)
    \<and> scope_inv (cl_scope c)"

lemma normalize_strings_props [simp]:
  "sorted (normalize_strings xs)" "distinct (normalize_strings xs)"
  by (simp_all add: normalize_strings_def)

lemma validated_scope_inv: "validate_scope s = Some v \<Longrightarrow> scope_inv v"
proof -
  assume "validate_scope s = Some v"
  then obtain ms ns ts ps hs where raw:
    "sc_models s \<noteq> []" "all_some validate_model (sc_models s) = Some ms"
    "normalize_models ms = Some ns" "1 \<le> sc_max_runtime_seconds s" "sc_max_runtime_seconds s \<le> 86400"
    "sc_kill_switch_enabled s"
    "validate_capability_boundary (s\<lparr>sc_models := ns, sc_allowed_tools := normalize_strings ts,
         sc_permissions := normalize_strings ps,
         sc_human_approval_points := normalize_strings hs\<rparr>) = Some v"
    unfolding validate_scope_Some by blast
  have "distinct (map am_model_id ns)" using raw(3) by (simp add: normalize_models_Some distinct_sort_key)
  moreover have "ms \<noteq> []" using raw(1,2) by (auto simp: all_some_Some)
  then have "ns \<noteq> []" using normalize_models_mset_id [OF raw(3)] by auto
  ultimately show ?thesis using raw by (simp add: capability_boundary_Some scope_inv_def)
qed

text \<open>
  C15. Every document the contract accepts satisfies its invariants: a lifetime of at most 600
  seconds with issue, start and expiry in order, a non-empty sorted audience without repetitions,
  distinct models one of which allows the runtime data class, permissions behind every tool list,
  an approval point behind every material autonomy level, and the kill switch on.
\<close>

theorem validated_claims_sound:
  assumes "validate_claims c = Some v"
  shows "claims_inv v"
  using assms
proof (rule validate_claims_SomeE)
  fix issuer audience issued nbf expires subj req scope sd pol
  assume raw: "cl_audience c \<noteq> []" "all_some Identifier (cl_audience c) = Some audience"
    "validate_scope (cl_scope c) = Some scope" "issued \<le> nbf" "nbf < expires"
    "expires - issued \<le> seconds max_lifetime_seconds"
    and v: "v = \<lparr>cl_schema_version = cl_schema_version c, cl_authorization_id = cl_authorization_id c,
      cl_issuer = issuer, cl_audience = normalize_strings audience, cl_issued_at = issued,
      cl_not_before = nbf, cl_expires_at = expires, cl_subject = subj, cl_request = req,
      cl_scope = scope, cl_scope_digest = sd, cl_policy = pol\<rparr>"
  have "audience \<noteq> []" using raw(1,2) by (auto simp: all_some_Some)
  then have "normalize_strings audience \<noteq> []" by (metis normalize_strings_set set_empty)
  with raw validated_scope_inv show ?thesis by (simp add: claims_inv_def v max_lifetime_seconds_def)
qed

theorem validated_claims_sound_witness: "claims_inv sample_claims"
  by (rule validated_claims_sound [OF sample_claims_valid])

text \<open>
  Validation yields a normal form: validating a validated document again changes nothing.
\<close>

theorem validated_claims_normal_form:
  assumes "validate_claims c = Some v"
  shows "validate_claims (reread v) = Some v"
  using assms by (rule claims_normal)

theorem validated_claims_normal_form_witness:
  "validate_claims (reread sample_claims) = Some sample_claims"
  by (rule validated_claims_normal_form [OF sample_claims_valid])

text \<open>
  The collections of the contract are sets: two documents that differ only in the order or
  repetition of audience, tools, permissions and approval points, and in the order of models,
  are accepted or rejected alike, and validate to the same claims, hence the same signed bytes.
\<close>

theorem collections_are_sets:
  assumes "same_claims c c'"
  shows "validate_claims c = validate_claims c'"
proof (cases "validate_claims c")
  case (Some v)
  with same_claims_Some [OF assms] show ?thesis by simp
next
  case None
  with same_claims_Some [OF same_claims_sym [OF assms]] show ?thesis
    by (cases "validate_claims c'") simp_all
qed

theorem collections_are_sets_witness:
  "validate_claims (reread sample_claims) =
    validate_claims (reread sample_claims\<lparr>cl_audience := [''policy-model-router'', ''policy-model-router'']\<rparr>)"
  by (rule collections_are_sets) (simp add: same_claims_def same_scope_def reread_def sample_claims_def)

text \<open>
  C16. The signature covers everything: two envelopes with the same signing bytes have the same
  protected header and the same claims, field by field, as long as pydantic writes different
  instants differently. No field of the contract can be changed without changing the bytes.
\<close>

theorem signing_bytes_bind_claims:
  assumes "inj dump_time" "signing_bytes dump_time e = Inr b" "signing_bytes dump_time e' = Inr b"
  shows "ev_protected e = ev_protected e' \<and> ev_claims e = ev_claims e'"
  using assms by (rule signing_bytes_inject)

definition sample_dump :: "instant \<Rightarrow> string" where
  "sample_dump t = nat_str (nat (2 * \<bar>t\<bar> + (if t < 0 then 1 else 0)))"

lemma inj_sample_dump: "inj sample_dump"
proof (rule injI)
  fix s t assume "sample_dump s = sample_dump t"
  then have "nat (2 * \<bar>s\<bar> + (if s < 0 then 1 else 0)) = nat (2 * \<bar>t\<bar> + (if t < 0 then 1 else 0))"
    unfolding sample_dump_def by (metis digits_value_nat_str)
  then have eq: "2 * \<bar>s\<bar> + (if s < 0 then 1 else 0) = 2 * \<bar>t\<bar> + (if t < 0 then 1 else 0)"
    by (subst (asm) eq_nat_nat_iff) simp_all
  show "s = t"
    using eq by (cases "s < 0"; cases "t < 0"; simp; presburger)
qed

definition sample_envelope :: "instant envelope" where
  "sample_envelope = \<lparr>ev_protected = \<lparr>ph_typ = media_type, ph_alg = ''Ed25519'', ph_kid = ''k1''\<rparr>,
     ev_claims = sample_claims, ev_signature = replicate 86 (CHR ''A'')\<rparr>"

lemma length_nat_str: "n < 10 ^ Suc k \<Longrightarrow> length (nat_str n) \<le> Suc k"
proof (induction k arbitrary: n)
  case 0
  then show ?case by (subst nat_str.simps) simp
next
  case (Suc k)
  then have "n div 10 < 10 ^ Suc k" by (simp add: less_mult_imp_div_less)
  with Suc.IH show ?case by (subst nat_str.simps) simp
qed

lemma int_small: "\<bar>i\<bar> \<le> 10000000 \<Longrightarrow> length (nat_str (nat \<bar>i\<bar>)) \<le> int_limit"
proof -
  assume "\<bar>i\<bar> \<le> 10000000"
  then have "nat \<bar>i\<bar> < 10 ^ Suc 7" by simp
  then have "length (nat_str (nat \<bar>i\<bar>)) \<le> Suc 7" by (rule length_nat_str)
  then show ?thesis by (simp add: int_limit_def)
qed

lemma sample_serializable:
  "serializable (header_json h)" "serializable (provenance_json p)"
  "serializable (subject_json (cl_subject sample_claims))"
  "serializable (binding_json (cl_request sample_claims))"
  "serializable (scope_json sample_scope)"
  by (simp_all add: header_json_def provenance_json_def subject_json_def binding_json_def
      scope_json_def model_json_def sample_claims_def sample_scope_def sample_model_def
      int_small [of 1, simplified] int_small [of 5, simplified] int_small [of 60, simplified]
      int_small [of 100000, simplified] int_small [of 2000, simplified]
      int_small [of 60000, simplified] int_small [of 1000000, simplified])

lemma sample_signing: "\<exists>b. signing_bytes sample_dump sample_envelope = Inr b"
proof -
  have "serializable (claims_json sample_dump (ev_claims sample_envelope))"
    using sample_serializable
    by (simp add: claims_json_def sample_envelope_def) (simp add: sample_claims_def)
  then show ?thesis
    by (simp add: signing_bytes_def canonical_json_bytes_def sample_serializable raise_if_def)
qed

theorem signing_bytes_bind_claims_witness:
  "signing_bytes sample_dump sample_envelope
    \<noteq> signing_bytes sample_dump (sample_envelope\<lparr>ev_claims := sample_claims\<lparr>cl_issuer := ''other''\<rparr>\<rparr>)"
proof
  assume same: "signing_bytes sample_dump sample_envelope =
    signing_bytes sample_dump (sample_envelope\<lparr>ev_claims := sample_claims\<lparr>cl_issuer := ''other''\<rparr>\<rparr>)"
  obtain b where b: "signing_bytes sample_dump sample_envelope = Inr b" using sample_signing by blast
  from signing_bytes_bind_claims [OF inj_sample_dump b, OF trans [OF same [symmetric] b]]
  have "sample_claims = sample_claims\<lparr>cl_issuer := ''other''\<rparr>"
    by (simp add: sample_envelope_def)
  then have "cl_issuer sample_claims = ''other''" by (metis claims.select_convs(3) claims.surjective claims.update_convs(3))
  then show False by (simp add: sample_claims_def)
qed

text \<open>
  A signature the envelope accepts always decodes: its 86 characters of the URL-safe alphabet
  give exactly 64 bytes, so the encoding check of the contract cannot fail after the pattern and
  the verifier's \<open>decode_signature\<close> never raises on a validated envelope.
\<close>

theorem accepted_signature_decodes:
  assumes "validate_envelope e = Some v"
  shows "\<exists>bs. decode_signature (ev_signature v) = Inr bs \<and> length bs = 64"
proof -
  from assms obtain sg where "str_field 86 86 signature_pattern (ev_signature e) = Some sg"
    "validate_signature_encoding sg = Some (ev_signature v)"
    by (auto simp: validate_envelope_def bind_eq_Some_conv)
  with accepted_signature show ?thesis by fastforce
qed

definition sample_wire :: "datetime envelope" where
  "sample_wire = \<lparr>ev_protected = ev_protected sample_envelope, ev_claims = reread sample_claims,
     ev_signature = replicate 86 (CHR ''A'')\<rparr>"

lemma sample_wire_valid: "validate_envelope sample_wire = Some sample_envelope"
proof -
  have h: "validate_header (ev_protected sample_envelope) = Some (ev_protected sample_envelope)"
    by code_simp
  have sg: "str_field 86 86 signature_pattern (replicate 86 (CHR ''A'')) = Some (replicate 86 (CHR ''A''))"
    by code_simp
  with accepted_signature have "validate_signature_encoding (replicate 86 (CHR ''A'')) = Some (replicate 86 (CHR ''A''))"
    by blast
  with h sg show ?thesis
    by (simp add: validate_envelope_def sample_wire_def sample_claims_valid sample_envelope_def)
qed

theorem accepted_signature_decodes_witness:
  "\<exists>bs. decode_signature (ev_signature sample_envelope) = Inr bs \<and> length bs = 64"
  by (rule accepted_signature_decodes [OF sample_wire_valid])

end
