(* ===== verification/Violation.thy ===== *)
theory Violation
  imports Contract_Properties Routing_Properties
begin

text \<open>
  Violation evidence (\<open>entrypoints/runtime_violation_contract.py\<close> and
  \<open>entrypoints/runtime_violation.py\<close>): the categories, the event with its constraints, the digest
  over its canonical bytes, and how the service builds one from a denied request.

  As in the signed contract \<open>None\<close> is a \<open>ValidationError\<close>, strings are stripped before they are
  measured, and pydantic's text of an instant is the parameter \<open>dump_time\<close>. The identifier and the
  timestamp of the event are arguments (\<open>uuid4\<close>, the clock).
\<close>

section \<open>The contract\<close>

datatype violation_category =
    CAT_AUTHORIZATION | CAT_REPLAY | CAT_REQUEST_BINDING | CAT_GOVERNANCE_PROVENANCE
  | CAT_MODEL_SCOPE

fun category_value :: "violation_category \<Rightarrow> string" where
  "category_value CAT_AUTHORIZATION = ''authorization''"
| "category_value CAT_REPLAY = ''replay''"
| "category_value CAT_REQUEST_BINDING = ''request_binding''"
| "category_value CAT_GOVERNANCE_PROVENANCE = ''governance_provenance''"
| "category_value CAT_MODEL_SCOPE = ''model_scope''"

datatype authorization_state = STATE_ABSENT | STATE_PRESENT | STATE_VERIFIED

fun state_value :: "authorization_state \<Rightarrow> string" where
  "state_value STATE_ABSENT = ''absent''"
| "state_value STATE_PRESENT = ''present''"
| "state_value STATE_VERIFIED = ''verified''"

definition violation_identifier :: "string \<Rightarrow> string option" where
  "violation_identifier = str_field 1 200 (\<lambda>s. True)"

definition violation_code :: "string \<Rightarrow> string option" where
  "violation_code = str_field 1 100 (\<lambda>s. s \<noteq> [] \<and> (is_lower (hd s) \<or> is_digit (hd s))
     \<and> list_all (\<lambda>c. is_lower c \<or> is_digit c \<or> c = CHR ''_'') (tl s))"

definition violation_group :: "string \<Rightarrow> string option" where
  "violation_group = str_field 1 100 (\<lambda>s. s \<noteq> [] \<and> (is_lower (hd s) \<or> is_digit (hd s))
     \<and> list_all (\<lambda>c. is_lower c \<or> is_digit c \<or> c \<in> set ''._-'') (tl s))"

text \<open>An optional field: \<open>None\<close> stays, a value is validated.\<close>

definition opt_field :: "('a \<Rightarrow> 'a option) \<Rightarrow> 'a option \<Rightarrow> 'a option option" where
  "opt_field f v = (case v of None \<Rightarrow> Some None | Some x \<Rightarrow> map_option Some (f x))"

record request_context =
  qc_workflow_id :: string
  qc_task_id :: string
  qc_agent_name :: string
  qc_workload :: string

definition validate_request_context :: "request_context \<Rightarrow> request_context option" where
  "validate_request_context q = do {
     w \<leftarrow> violation_identifier (qc_workflow_id q);
     t \<leftarrow> violation_identifier (qc_task_id q);
     a \<leftarrow> violation_identifier (qc_agent_name q);
     l \<leftarrow> violation_identifier (qc_workload q);
     Some \<lparr>qc_workflow_id = w, qc_task_id = t, qc_agent_name = a, qc_workload = l\<rparr>
   }"

record authorization_context =
  ac_state :: authorization_state
  ac_authorization_id :: "uuid option"
  ac_key_id :: "string option"
  ac_signing_digest :: "string option"
  ac_scope_digest :: "string option"

definition validate_state :: "authorization_context \<Rightarrow> authorization_context option" where
  "validate_state a =
    (let missing = [ac_authorization_id a = None, ac_key_id a = None, ac_signing_digest a = None,
           ac_scope_digest a = None]
     in if ac_state a = STATE_ABSENT then (if list_all id missing then Some a else None)
        else (if list_ex id missing then None else Some a))"

definition validate_authorization_context ::
  "authorization_context \<Rightarrow> authorization_context option" where
  "validate_authorization_context a = do {
     k \<leftarrow> opt_field violation_identifier (ac_key_id a);
     sd \<leftarrow> opt_field Digest (ac_signing_digest a);
     cd \<leftarrow> opt_field Digest (ac_scope_digest a);
     validate_state (a\<lparr>ac_key_id := k, ac_signing_digest := sd, ac_scope_digest := cd\<rparr>)
   }"

record violation_event =
  ve_event_id :: uuid
  ve_occurred_at :: instant
  ve_service_version :: string
  ve_environment :: string
  ve_correlation_id :: string
  ve_category :: violation_category
  ve_code :: string
  ve_request :: request_context
  ve_authorization :: authorization_context
  ve_selected_model_group :: "string option"

definition validate_semantics :: "violation_event \<Rightarrow> violation_event option" where
  "validate_semantics e = do {
     require (\<not> (ve_category e \<noteq> CAT_AUTHORIZATION \<and> ac_state (ve_authorization e) = STATE_ABSENT));
     if ve_category e = CAT_MODEL_SCOPE then do {
       require (ac_state (ve_authorization e) = STATE_VERIFIED);
       require (ve_selected_model_group e \<noteq> None);
       Some e
     } else do {
       require (ve_selected_model_group e = None);
       Some e
     }
   }"

text \<open>The request and authorization contexts are validated when they are built, before the event.\<close>

definition validate_event :: "violation_event \<Rightarrow> violation_event option" where
  "validate_event e = do {
     sv \<leftarrow> violation_identifier (ve_service_version e);
     env \<leftarrow> violation_identifier (ve_environment e);
     cid \<leftarrow> violation_identifier (ve_correlation_id e);
     code \<leftarrow> violation_code (ve_code e);
     g \<leftarrow> opt_field violation_group (ve_selected_model_group e);
     validate_semantics (e\<lparr>ve_service_version := sv, ve_environment := env,
       ve_correlation_id := cid, ve_code := code, ve_selected_model_group := g\<rparr>)
   }"

subsection \<open>Canonical bytes and digest\<close>

fun json_opt :: "string option \<Rightarrow> json" where
  "json_opt None = JNull"
| "json_opt (Some s) = JStr s"

definition event_json :: "(instant \<Rightarrow> string) \<Rightarrow> violation_event \<Rightarrow> json" where
  "event_json dump_time e = JObj
    [(''schema_version'', JStr ''1.0''),
     (''event_id'', JStr (uuid_str (ve_event_id e))),
     (''occurred_at'', JStr (dump_time (ve_occurred_at e))),
     (''source_service'', JStr ''policy-model-router''),
     (''service_version'', JStr (ve_service_version e)),
     (''environment'', JStr (ve_environment e)),
     (''correlation_id'', JStr (ve_correlation_id e)),
     (''category'', JStr (category_value (ve_category e))),
     (''code'', JStr (ve_code e)),
     (''enforcement_action'', JStr ''blocked''),
     (''request'', JObj
       [(''workflow_id'', JStr (qc_workflow_id (ve_request e))),
        (''task_id'', JStr (qc_task_id (ve_request e))),
        (''agent_name'', JStr (qc_agent_name (ve_request e))),
        (''workload'', JStr (qc_workload (ve_request e)))]),
     (''authorization'', JObj
       [(''state'', JStr (state_value (ac_state (ve_authorization e)))),
        (''authorization_id'', json_opt (map_option uuid_str (ac_authorization_id (ve_authorization e)))),
        (''key_id'', json_opt (ac_key_id (ve_authorization e))),
        (''signing_digest'', json_opt (ac_signing_digest (ve_authorization e))),
        (''scope_digest'', json_opt (ac_scope_digest (ve_authorization e)))]),
     (''selected_model_group'', json_opt (ve_selected_model_group e))]"

definition event_bytes :: "(instant \<Rightarrow> string) \<Rightarrow> violation_event \<Rightarrow> bytes" where
  "event_bytes dump_time e = utf8_encode (json_dumps (event_json dump_time e))"

definition event_digest :: "(instant \<Rightarrow> string) \<Rightarrow> violation_event \<Rightarrow> string" where
  "event_digest dump_time e = sha256_hex (event_bytes dump_time e)"

record violation_envelope =
  vn_event :: violation_event
  vn_event_digest :: string

definition validate_violation ::
  "(instant \<Rightarrow> string) \<Rightarrow> violation_envelope \<Rightarrow> violation_envelope option" where
  "validate_violation dump_time v = do {
     d \<leftarrow> Digest (vn_event_digest v);
     require (event_digest dump_time (vn_event v) = d);
     Some (v\<lparr>vn_event_digest := d\<rparr>)
   }"

definition from_event :: "(instant \<Rightarrow> string) \<Rightarrow> violation_event \<Rightarrow> violation_envelope option" where
  "from_event dump_time e =
    validate_violation dump_time \<lparr>vn_event = e, vn_event_digest = event_digest dump_time e\<rparr>"

section \<open>Building the evidence\<close>

definition replay_codes :: "string list" where
  "replay_codes = [''replay_detected'', ''replay_store_full'', ''replay_store_unavailable'']"

definition request_binding_codes :: "string list" where
  "request_binding_codes =
    [''request_cost_precision_unsupported'', ''request_binding_mismatch'', ''agent_binding_mismatch'']"

definition provenance_codes :: "string list" where
  "provenance_codes = [''governance_policy_mismatch'']"

definition model_scope_codes :: "string list" where
  "model_scope_codes =
    [''selected_model_group_not_authorized'', ''selected_model_data_class_not_authorized'']"

definition violation_category :: "string \<Rightarrow> violation_category" where
  "violation_category code =
    (if code \<in> set replay_codes then CAT_REPLAY
     else if code \<in> set request_binding_codes then CAT_REQUEST_BINDING
     else if code \<in> set provenance_codes then CAT_GOVERNANCE_PROVENANCE
     else if code \<in> set model_scope_codes then CAT_MODEL_SCOPE
     else CAT_AUTHORIZATION)"

abbreviation validation_error :: auth_error where
  "validation_error \<equiv> OtherException ''ValidationError''"

text \<open>\<open>_authorization_context\<close>; computing the signing digest may raise.\<close>

definition authorization_context_of ::
  "(instant \<Rightarrow> string) \<Rightarrow> instant envelope option \<Rightarrow> bool \<Rightarrow>
     (auth_error, authorization_context) result" where
  "authorization_context_of dump_time authorization verified =
    (case authorization of
       None \<Rightarrow> some_or (validate_authorization_context
         \<lparr>ac_state = STATE_ABSENT, ac_authorization_id = None, ac_key_id = None,
          ac_signing_digest = None, ac_scope_digest = None\<rparr>) validation_error
     | Some a \<Rightarrow>
         rbind (signing_digest dump_time a) (\<lambda>digest.
         some_or (validate_authorization_context
           \<lparr>ac_state = (if verified then STATE_VERIFIED else STATE_PRESENT),
            ac_authorization_id = Some (cl_authorization_id (ev_claims a)),
            ac_key_id = Some (ph_kid (ev_protected a)),
            ac_signing_digest = Some digest,
            ac_scope_digest = Some (cl_scope_digest (ev_claims a))\<rparr>) validation_error))"

definition build_runtime_violation ::
  "(instant \<Rightarrow> string) \<Rightarrow> uuid \<Rightarrow> instant \<Rightarrow> string \<Rightarrow> route_request \<Rightarrow> instant envelope option \<Rightarrow>
     bool \<Rightarrow> string \<Rightarrow> string \<Rightarrow> string \<Rightarrow> string option \<Rightarrow> (auth_error, violation_envelope) result" where
  "build_runtime_violation dump_time event_id timestamp code request authorization
     authorization_verified correlation_id service_version environment selected_model_group =
    rbind (authorization_context_of dump_time authorization authorization_verified) (\<lambda>auth_context.
    rbind (some_or (validate_request_context
      \<lparr>qc_workflow_id = rr_workflow_id request, qc_task_id = rr_task_id request,
       qc_agent_name = rr_agent_name request, qc_workload = rr_workload request\<rparr>)
      validation_error) (\<lambda>context.
    rbind (some_or (validate_event
      \<lparr>ve_event_id = event_id, ve_occurred_at = timestamp, ve_service_version = service_version,
       ve_environment = environment, ve_correlation_id = correlation_id,
       ve_category = violation_category code, ve_code = code, ve_request = context,
       ve_authorization = auth_context, ve_selected_model_group = selected_model_group\<rparr>)
      validation_error) (\<lambda>event.
    some_or (from_event dump_time event) validation_error)))"

section \<open>The digest binds the event\<close>

lemma category_inject: "category_value a = category_value b \<longleftrightarrow> a = b"
  by (cases a; cases b) simp_all

lemma state_inject: "state_value a = state_value b \<longleftrightarrow> a = b"
  by (cases a; cases b) simp_all

lemma json_opt_inject: "json_opt a = json_opt b \<longleftrightarrow> a = b"
  by (cases a; cases b) simp_all

lemma json_opt_sort [simp]: "sort_keys (json_opt a) = json_opt a"
  by (cases a) simp_all

lemma json_opt_wf [simp]: "json_wf (json_opt a)"
  by (cases a) simp_all

lemma map_uuid_inject: "map_option uuid_str a = map_option uuid_str b \<longleftrightarrow> a = b"
  by (rule inj_eq [OF option.inj_map]) (simp add: inj_def uuid_str_inject)

lemmas event_injects = category_inject state_inject json_opt_inject map_uuid_inject uuid_str_inject

definition request_json :: "request_context \<Rightarrow> json" where
  "request_json q = JObj
    [(''workflow_id'', JStr (qc_workflow_id q)), (''task_id'', JStr (qc_task_id q)),
     (''agent_name'', JStr (qc_agent_name q)), (''workload'', JStr (qc_workload q))]"

definition authorization_json :: "authorization_context \<Rightarrow> json" where
  "authorization_json a = JObj
    [(''state'', JStr (state_value (ac_state a))),
     (''authorization_id'', json_opt (map_option uuid_str (ac_authorization_id a))),
     (''key_id'', json_opt (ac_key_id a)),
     (''signing_digest'', json_opt (ac_signing_digest a)),
     (''scope_digest'', json_opt (ac_scope_digest a))]"

lemma request_json_inject: "sort_keys (request_json a) = sort_keys (request_json b) \<Longrightarrow> a = b"
  unfolding request_json_def by (drule sort_keys_obj_inject [rotated 2]) simp_all

lemma authorization_json_inject:
  "sort_keys (authorization_json a) = sort_keys (authorization_json b) \<Longrightarrow> a = b"
  unfolding authorization_json_def
  by (drule sort_keys_obj_inject [rotated 2]) (simp_all add: event_injects)

lemma event_json_inject:
  "inj dump_time \<Longrightarrow> sort_keys (event_json dump_time a) = sort_keys (event_json dump_time b) \<Longrightarrow> a = b"
  unfolding event_json_def request_json_def [symmetric] authorization_json_def [symmetric]
  by (drule sort_keys_obj_inject [rotated 2])
    (simp_all add: event_injects comp_def inj_eq request_json_inject authorization_json_inject)

lemma event_json_wf: "json_wf (event_json dump_time e)"
  by (simp add: event_json_def)

lemma event_bytes_inject:
  assumes "inj dump_time" "event_bytes dump_time a = event_bytes dump_time b"
  shows "a = b"
  using assms(2) unfolding event_bytes_def utf8_inject
  by (intro event_json_inject [OF assms(1)] dumps_inject event_json_wf)

section \<open>What is built\<close>

lemma hex_not_white: "is_hex c \<Longrightarrow> \<not> unicode_white c"
proof -
  have "list_all (\<lambda>c. \<not> unicode_white c) ''0123456789abcdef''" by code_simp
  then show "is_hex c \<Longrightarrow> \<not> unicode_white c" by (auto simp: is_hex_def list_all_iff)
qed

lemma Digest_sha256: "Digest (sha256_hex m) = Some (sha256_hex m)"
proof -
  have "trim (sha256_hex m) = sha256_hex m"
    unfolding trim_def using sha256_hex_shape(2) [of m] hex_not_white
    by (intro strip_both_none) (auto simp: list_all_iff)
  then show ?thesis
    using sha256_hex_shape [of m] by (simp add: Digest_def str_field_def Let_def)
qed

lemma from_event_Some:
  "from_event dump_time e = Some \<lparr>vn_event = e, vn_event_digest = event_digest dump_time e\<rparr>"
  by (simp add: from_event_def validate_violation_def event_digest_def Digest_sha256 require_def)

text \<open>The identifiers of an accepted request survive stripping exactly when they are not blank.\<close>

definition blank :: "string \<Rightarrow> bool" where
  "blank s \<longleftrightarrow> trim s = []"

lemma length_trim: "length (trim s) \<le> length s"
  by (simp add: trim_def length_strip_both)

lemma violation_identifier_returns:
  "length s \<le> 200 \<Longrightarrow> (\<exists>t. violation_identifier s = Some t) \<longleftrightarrow> \<not> blank s"
  using length_trim [of s]
  by (auto simp: violation_identifier_def str_field_def Let_def blank_def Suc_le_eq)

lemma violation_identifier_Some:
  "violation_identifier s = Some t \<Longrightarrow> t = trim s"
  by (auto simp: violation_identifier_def str_field_def Let_def split: if_splits)

definition coherent :: "string \<Rightarrow> instant envelope option \<Rightarrow> bool \<Rightarrow> string option \<Rightarrow> bool" where
  "coherent code authorization verified sel \<longleftrightarrow>
    (violation_category code \<noteq> CAT_AUTHORIZATION \<longrightarrow> authorization \<noteq> None) \<and>
    (if violation_category code = CAT_MODEL_SCOPE then verified \<and> sel \<noteq> None else sel = None)"

lemma id_char_not_white: "id_char c \<Longrightarrow> \<not> unicode_white c"
  by (rule id_chars_all [where P = "\<lambda>c. \<not> unicode_white c"]) code_simp

lemma id_char_group: "id_char c \<Longrightarrow> is_lower c \<or> is_digit c \<or> c \<in> set ''._-''"
  by (rule id_chars_all [where P = "\<lambda>c. is_lower c \<or> is_digit c \<or> c \<in> set ''._-''"]) code_simp

lemma id_alnum_char: "id_alnum c \<Longrightarrow> id_char c"
  by (auto simp: id_alnum_def is_lower_def is_digit_def id_char_def id_chars_def)

lemma fullmatch_id_chars: "policy_identifier_fullmatch s \<Longrightarrow> list_all id_char s"
proof (cases s)
  case (Cons c rest)
  assume m: "policy_identifier_fullmatch s"
  show ?thesis
  proof (cases "rest = []")
    case True
    with m Cons show ?thesis by (simp add: id_alnum_char)
  next
    case False
    have "list_all id_char (butlast rest)" "id_char (last rest)"
      using m Cons False by (simp_all add: id_alnum_char)
    then have "list_all id_char (butlast rest @ [last rest])" by simp
    then have "list_all id_char rest" unfolding append_butlast_last_id [OF False] .
    with m Cons show ?thesis by (simp add: id_alnum_char)
  qed
qed simp

lemma fullmatch_trim: "policy_identifier_fullmatch s \<Longrightarrow> trim s = s"
  unfolding trim_def
  by (rule strip_both_none) (auto simp: list_all_iff id_char_not_white dest!: fullmatch_id_chars)

lemma fullmatch_length: "policy_identifier_fullmatch s \<Longrightarrow> s \<noteq> [] \<and> length s \<le> 128"
  by (cases s) auto

lemma valid_fullmatch:
  "valid_workload w \<Longrightarrow> policy_identifier_fullmatch w"
  "valid_model_group g \<Longrightarrow> policy_identifier_fullmatch g"
  by (auto simp: WorkloadId_def ModelGroupId_def PolicyIdentifier_def rbind_Inr_iff split: if_splits)

lemma violation_identifier_workload: "valid_workload w \<Longrightarrow> violation_identifier w = Some w"
  using fullmatch_trim [OF valid_fullmatch(1), of w] fullmatch_length [OF valid_fullmatch(1), of w]
  by (auto simp: violation_identifier_def str_field_def Let_def Suc_le_eq)

text \<open>A routing policy may name groups of up to 128 characters; the evidence takes 100.\<close>

lemma violation_group_returns:
  assumes "valid_model_group g"
  shows "violation_group g = (if length g \<le> 100 then Some g else None)"
proof -
  note m = valid_fullmatch(2) [OF assms]
  obtain c rest where g: "g = c # rest" using fullmatch_length [OF m] by (cases g) auto
  have "list_all (\<lambda>c. is_lower c \<or> is_digit c \<or> c \<in> set ''._-'') rest"
    using fullmatch_id_chars [OF m] id_char_group unfolding g list_all_iff by simp
  moreover have "is_lower c \<or> is_digit c" using m g by (simp add: id_alnum_def)
  ultimately show ?thesis
    using fullmatch_trim [OF m] g by (simp add: violation_group_def str_field_def Let_def)
qed

lemma Identifier_violation: "Identifier s = Some t \<Longrightarrow> violation_identifier t = Some t"
  by (auto simp: Identifier_def violation_identifier_def str_field_def Let_def trim_def
      strip_both_idem split: if_splits)

lemma envelope_identifiers:
  assumes "validate_envelope a0 = Some a"
  shows "violation_identifier (ph_kid (ev_protected a)) = Some (ph_kid (ev_protected a))"
    "Digest (cl_scope_digest (ev_claims a)) = Some (cl_scope_digest (ev_claims a))"
proof -
  from assms obtain h c where h: "validate_header (ev_protected a0) = Some h" "ev_protected a = h"
    and c: "validate_claims (ev_claims a0) = Some c" "ev_claims a = c"
    by (auto simp: validate_envelope_def bind_eq_Some_conv)
  show "violation_identifier (ph_kid (ev_protected a)) = Some (ph_kid (ev_protected a))"
  proof -
    from h(1) obtain kid where kid: "Identifier (ph_kid (ev_protected a0)) = Some kid"
      and "h = (ev_protected a0)\<lparr>ph_kid := kid\<rparr>"
      by (auto simp: validate_header_def bind_eq_Some_conv)
    then show ?thesis using h(2) Identifier_violation [OF kid] by simp
  qed
  show "Digest (cl_scope_digest (ev_claims a)) = Some (cl_scope_digest (ev_claims a))"
  proof -
    from c(1) obtain d where d: "Digest (cl_scope_digest (ev_claims a0)) = Some d"
      and "cl_scope_digest c = d"
      by (auto simp: validate_claims_def validate_time_window_def bind_eq_Some_conv)
    then show ?thesis using c(2) Digest_idem [OF d] by simp
  qed
qed

definition authentic :: "(instant \<Rightarrow> string) \<Rightarrow> instant envelope option \<Rightarrow> bool" where
  "authentic dump_time authorization \<longleftrightarrow> (case authorization of None \<Rightarrow> True
     | Some a \<Rightarrow> (\<exists>a0. validate_envelope a0 = Some a) \<and> returns (signing_digest dump_time a))"

lemma authorization_context_Inr:
  assumes "authentic dump_time authorization"
  shows "\<exists>c. authorization_context_of dump_time authorization verified = Inr c \<and>
    ac_state c = (if authorization = None then STATE_ABSENT
                  else if verified then STATE_VERIFIED else STATE_PRESENT)"
proof (cases authorization)
  case None
  then show ?thesis
    by (simp add: authorization_context_of_def validate_authorization_context_def opt_field_def
        validate_state_def)
next
  case (Some a)
  with assms obtain a0 b where a0: "validate_envelope a0 = Some a"
    and b: "signing_digest dump_time a = Inr (sha256_hex b)"
    by (auto simp: authentic_def signing_digest_def rbind_Inr_iff)
  show ?thesis
    using Some b envelope_identifiers [OF a0]
    by (simp add: authorization_context_of_def validate_authorization_context_def opt_field_def
        validate_state_def Digest_sha256)
qed

lemma validate_semantics_iff:
  "(\<exists>e'. validate_semantics e = Some e') \<longleftrightarrow>
    (ve_category e \<noteq> CAT_AUTHORIZATION \<longrightarrow> ac_state (ve_authorization e) \<noteq> STATE_ABSENT) \<and>
    (if ve_category e = CAT_MODEL_SCOPE
     then ac_state (ve_authorization e) = STATE_VERIFIED \<and> ve_selected_model_group e \<noteq> None
     else ve_selected_model_group e = None)"
  by (auto simp: validate_semantics_def require_def)

lemma opt_group_returns:
  assumes "\<And>g. sel = Some g \<Longrightarrow> valid_model_group g"
  shows "opt_field violation_group sel =
    (if \<forall>g. sel = Some g \<longrightarrow> length g \<le> 100 then Some sel else None)"
  using assms by (cases sel) (auto simp: opt_field_def violation_group_returns)

text \<open>The texts of the evidence that the caller or the deployment chooses freely.\<close>

definition free_texts :: "route_request \<Rightarrow> string \<Rightarrow> string \<Rightarrow> string \<Rightarrow> string list" where
  "free_texts request correlation_id service_version environment =
    [rr_workflow_id request, rr_task_id request, rr_agent_name request, correlation_id,
     service_version, environment]"

lemma build_returns_iff:
  assumes auth: "authentic dump_time authorization" and code: "violation_code code = Some code"
    and w: "valid_workload (rr_workload request)"
    and len: "\<forall>s \<in> set (free_texts request cid sv env). length s \<le> 200"
    and g: "\<And>g. sel = Some g \<Longrightarrow> valid_model_group g"
  shows "returns (build_runtime_violation dump_time i t code request authorization verified cid sv env sel)
    \<longleftrightarrow> (\<forall>s \<in> set (free_texts request cid sv env). \<not> blank s)
      \<and> (\<forall>g. sel = Some g \<longrightarrow> length g \<le> 100) \<and> coherent code authorization verified sel"
proof -
  obtain c where c: "authorization_context_of dump_time authorization verified = Inr c"
    and st: "ac_state c = (if authorization = None then STATE_ABSENT
       else if verified then STATE_VERIFIED else STATE_PRESENT)"
    using authorization_context_Inr [OF auth] by blast
  have ident: "violation_identifier s = (if blank s then None else Some (trim s))"
    if "s \<in> set (free_texts request cid sv env)" for s
    using violation_identifier_returns [of s] violation_identifier_Some [of s] len that
    by (cases "violation_identifier s") auto
  note ids = ident [of "rr_workflow_id request"] ident [of "rr_task_id request"]
    ident [of "rr_agent_name request"] ident [of cid] ident [of sv] ident [of env]
  note ids = ids [unfolded free_texts_def, simplified]
  define e where "e q = \<lparr>ve_event_id = i, ve_occurred_at = t, ve_service_version = trim sv,
       ve_environment = trim env, ve_correlation_id = trim cid,
       ve_category = violation_category code, ve_code = code, ve_request = q,
       ve_authorization = c, ve_selected_model_group = sel\<rparr>" for q
  have sem: "(\<exists>e'. validate_semantics (e q) = Some e') \<longleftrightarrow> coherent code authorization verified sel" for q
    unfolding validate_semantics_iff using st by (auto simp: e_def coherent_def)
  define q where "q = \<lparr>qc_workflow_id = trim (rr_workflow_id request), qc_task_id = trim (rr_task_id request),
       qc_agent_name = trim (rr_agent_name request), qc_workload = rr_workload request\<rparr>"
  have ctx: "validate_request_context \<lparr>qc_workflow_id = rr_workflow_id request, qc_task_id = rr_task_id request,
       qc_agent_name = rr_agent_name request, qc_workload = rr_workload request\<rparr> =
    (if blank (rr_workflow_id request) \<or> blank (rr_task_id request) \<or> blank (rr_agent_name request)
     then None else Some q)"
    using ids violation_identifier_workload [OF w] by (simp add: validate_request_context_def q_def)
  have ev: "validate_event \<lparr>ve_event_id = i, ve_occurred_at = t, ve_service_version = sv,
       ve_environment = env, ve_correlation_id = cid, ve_category = violation_category code,
       ve_code = code, ve_request = q, ve_authorization = c, ve_selected_model_group = sel\<rparr> =
    (if blank sv \<or> blank env \<or> blank cid \<or> \<not> (\<forall>g. sel = Some g \<longrightarrow> length g \<le> 100)
     then None else validate_semantics (e q))"
    unfolding validate_event_def e_def using opt_group_returns [of sel, OF g]
    by (cases "blank sv"; cases "blank env"; cases "blank cid";
        cases "\<forall>g. sel = Some g \<longrightarrow> length g \<le> 100") (simp_all add: ids(4-6) code)
  show ?thesis
    unfolding build_runtime_violation_def c rbind.simps ctx
    using sem [of q] ev
    by (cases "validate_semantics (e q)") (auto simp: free_texts_def from_event_Some rbind_Inr_iff)
qed

lemma built_event:
  assumes "build_runtime_violation dump_time i t code request authorization verified cid sv env sel = Inr v"
  shows "vn_event_digest v = event_digest dump_time (vn_event v) \<and> ve_code (vn_event v) = trim code
    \<and> ve_event_id (vn_event v) = i \<and> ve_category (vn_event v) = violation_category code"
proof -
  from assms obtain c q e where e: "validate_event \<lparr>ve_event_id = i, ve_occurred_at = t,
       ve_service_version = sv, ve_environment = env, ve_correlation_id = cid,
       ve_category = violation_category code, ve_code = code, ve_request = q,
       ve_authorization = c, ve_selected_model_group = sel\<rparr> = Some e"
    and v: "from_event dump_time e = Some v"
    unfolding build_runtime_violation_def by (elim rbind_elims) simp
  have "ve_code e = trim code \<and> ve_event_id e = i \<and> ve_category e = violation_category code"
    using e by (auto simp: validate_event_def validate_semantics_def bind_eq_Some_conv violation_code_def
        str_field_def Let_def require_def split: if_splits)
  with v show ?thesis by (auto simp: from_event_Some)
qed

section \<open>Properties\<close>

text \<open>
  C29. The evidence is self-authenticating: the digest of a built envelope is the SHA-256 of the
  canonical bytes of its event, and those bytes determine the event, every field of it, so
  equal bytes are the same denial of the same request under the same authorization.
\<close>

theorem violation_digest_binds_event:
  assumes "inj dump_time"
    and "build_runtime_violation dump_time i t code request authorization verified cid sv env sel = Inr v"
  shows "vn_event_digest v = sha256_hex (event_bytes dump_time (vn_event v)) \<and>
    ve_code (vn_event v) = trim code \<and> ve_event_id (vn_event v) = i \<and>
    (\<forall>e. event_bytes dump_time e = event_bytes dump_time (vn_event v) \<longrightarrow> e = vn_event v)"
  using built_event [OF assms(2)] event_bytes_inject [OF assms(1)]
  by (auto simp: event_digest_def)

lemma readme_workload: "valid_workload (rr_workload readme_request)"
proof -
  have "valid_workload ''findings_correlation''" by code_simp
  then show ?thesis by (simp add: readme_request_def)
qed

lemma readme_texts:
  "\<forall>s \<in> set (free_texts readme_request ''c-1'' ''0.4.0'' ''production''). length s \<le> 200 \<and> \<not> blank s"
proof -
  have "\<not> blank ''credit-review-42''" "\<not> blank ''correlate-findings-7''"
    "\<not> blank ''credit-analysis-agent''" "\<not> blank ''c-1''" "\<not> blank ''0.4.0''"
    "\<not> blank ''production''" by code_simp+
  then show ?thesis by (simp add: free_texts_def readme_request_def)
qed

lemma sample_evidence:
  "returns (build_runtime_violation sample_dump 9 0 ''runtime_authorization_required''
     readme_request None False ''c-1'' ''0.4.0'' ''production'' None)"
proof -
  have "violation_code ''runtime_authorization_required'' = Some ''runtime_authorization_required''"
    "violation_category ''runtime_authorization_required'' = CAT_AUTHORIZATION"
    by code_simp+
  then show ?thesis
    using readme_texts readme_workload
    by (subst build_returns_iff) (simp_all add: authentic_def coherent_def)
qed

theorem violation_digest_binds_event_witness:
  "\<exists>v :: violation_envelope. vn_event_digest v = sha256_hex (event_bytes sample_dump (vn_event v)) \<and>
    ve_code (vn_event v) = ''runtime_authorization_required'' \<and> ve_event_id (vn_event v) = 9 \<and>
    (\<forall>e. event_bytes sample_dump e = event_bytes sample_dump (vn_event v) \<longrightarrow> e = vn_event v)"
proof -
  obtain v where v: "build_runtime_violation sample_dump 9 0 ''runtime_authorization_required''
     readme_request None False ''c-1'' ''0.4.0'' ''production'' None = Inr v"
    using sample_evidence by auto
  have t: "trim ''runtime_authorization_required'' = ''runtime_authorization_required''" by code_simp
  show ?thesis
    using violation_digest_binds_event [OF inj_sample_dump v] unfolding t by (rule exI [of _ v])
qed

text \<open>
  C30. A denial has its evidence exactly when its texts survive normalization: for an accepted
  request and a genuine authorization, building the evidence fails if and only if one of the
  freely chosen texts is blank, the selected group's name is longer than 100 characters, or code
  and trust state do not fit. The request contract admits blank identifiers and groups of up to
  128 characters, so such denials lose their evidence.
\<close>

theorem violation_built_iff:
  assumes "authentic dump_time authorization" "violation_code code = Some code"
    and "valid_workload (rr_workload request)"
    and "\<forall>s \<in> set (free_texts request cid sv env). length s \<le> 200"
    and "sel = None \<or> valid_model_group (the sel)"
  shows "returns (build_runtime_violation dump_time i t code request authorization verified cid sv env sel)
    \<longleftrightarrow> (\<forall>s \<in> set (free_texts request cid sv env). \<not> blank s)
      \<and> (\<forall>g. sel = Some g \<longrightarrow> length g \<le> 100) \<and> coherent code authorization verified sel"
  using assms(5) by (intro build_returns_iff [OF assms(1-4)]) auto

text \<open>A group of 101 characters is a valid group of a policy, and its denial has no evidence.\<close>

theorem violation_built_iff_witness:
  "\<not> returns (build_runtime_violation sample_dump 9 0 ''selected_model_group_not_authorized''
     readme_request (Some sample_envelope) True ''c-1'' ''0.4.0'' ''production''
     (Some (replicate 101 (CHR ''a''))))"
proof -
  have "authentic sample_dump (Some sample_envelope)"
    using sample_wire_valid sample_signing by (auto simp: authentic_def signing_digest_def)
  moreover have "violation_code ''selected_model_group_not_authorized'' = Some ''selected_model_group_not_authorized''"
    "valid_model_group (replicate 101 (CHR ''a''))"
    by code_simp+
  ultimately show ?thesis
    using readme_texts readme_workload by (subst violation_built_iff) simp_all
qed

end
