(* ===== verification/Replay_Guard.thy ===== *)
theory Replay_Guard
  imports Authorization_Domain Complex_Main
begin

text \<open>
  Single-use consumption of authorization identifiers: both replay guards of
  \<open>adapters/runtime_authorization.py\<close>.

  The Redis client is a parameter: \<open>set_nx st t key ex\<close> is the outcome of \<open>SET key 1 NX EX ex\<close>
  reaching the server at its time \<open>t\<close>: the new server state, and the reply, \<open>None\<close> when the
  client raises (the server may have executed the command all the same).
\<close>

section \<open>The in-memory guard\<close>

record im_guard =
  ig_max_entries :: int
  ig_entries :: "(uuid, instant) dict"

definition InMemoryGuard :: "int \<Rightarrow> (auth_error, im_guard) result" where
  "InMemoryGuard max_entries =
    rbind (raise_if (max_entries < 1) (OtherException ''ValueError'')) (\<lambda>_.
    Inr \<lparr>ig_max_entries = max_entries, ig_entries = []\<rparr>)"

definition store_full :: auth_error where
  "store_full = RuntimeAuthorizationError ''replay_store_full''
    ''Runtime authorization replay store is at capacity'' False"

definition live_entries :: "instant \<Rightarrow> (uuid, instant) dict \<Rightarrow> (uuid, instant) dict" where
  "live_entries now entries = filter (\<lambda>(key, expiry). now < expiry) entries"

definition im_consume ::
  "im_guard \<Rightarrow> uuid \<Rightarrow> instant \<Rightarrow> instant \<Rightarrow> im_guard \<times> (auth_error, bool) result" where
  "im_consume g authorization_id expires_at now =
    (let entries = live_entries now (ig_entries g); g = g\<lparr>ig_entries := entries\<rparr>
     in if dict_has entries authorization_id then (g, Inr False)
        else if ig_max_entries g \<le> int (length entries) then (g, Inl store_full)
        else (g\<lparr>ig_entries := dict_set authorization_id expires_at entries\<rparr>, Inr True))"

section \<open>The guard on Redis\<close>

type_synonym 'r redis_set = "'r \<Rightarrow> instant \<Rightarrow> string \<Rightarrow> int \<Rightarrow> 'r \<times> bool option"

definition store_unavailable :: auth_error where
  "store_unavailable = RuntimeAuthorizationError ''replay_store_unavailable''
    ''Runtime authorization replay state is unavailable'' False"

definition RedisGuard :: "string \<Rightarrow> (auth_error, string) result" where
  "RedisGuard key_prefix =
    rbind (raise_if (key_prefix = []) (OtherException ''ValueError'')) (\<lambda>_. Inr key_prefix)"

definition ceil_seconds :: "int \<Rightarrow> int" where
  "ceil_seconds d = - ((- d) div 1000000)"

definition redis_ttl :: "instant \<Rightarrow> instant \<Rightarrow> int" where
  "redis_ttl expires_at now = max 1 (ceil_seconds (expires_at - now))"

definition redis_consume ::
  "'r redis_set \<Rightarrow> string \<Rightarrow> instant \<Rightarrow> 'r \<Rightarrow> uuid \<Rightarrow> instant \<Rightarrow> instant \<Rightarrow>
    'r \<times> (auth_error, bool) result" where
  "redis_consume set_nx key_prefix server_time st authorization_id expires_at now =
    (let ttl = redis_ttl expires_at now; key = key_prefix @ uuid_str authorization_id
     in case set_nx st server_time key ttl of
          (st, None) \<Rightarrow> (st, Inl store_unavailable)
        | (st, Some fresh) \<Rightarrow> (st, Inr fresh))"

text \<open>The state after a sequence of calls \<open>(authorization_id, expires_at, now)\<close>.\<close>

fun consume_all :: "('s \<Rightarrow> uuid \<Rightarrow> instant \<Rightarrow> instant \<Rightarrow> 's \<times> (auth_error, bool) result) \<Rightarrow>
    's \<Rightarrow> (uuid \<times> instant \<times> instant) list \<Rightarrow> 's" where
  "consume_all f s [] = s"
| "consume_all f s ((i, e, n) # cs) = consume_all f (fst (f s i e n)) cs"

section \<open>What a replay guard promises\<close>

text \<open>
  \<open>held s i t\<close>: the guard refuses the identifier \<open>i\<close> at time \<open>t\<close>. A guard is a contract
  between \<open>consume\<close> and \<open>held\<close>: a successful consumption was not held before, is held until its
  expiry, and no call at or before a time releases what is held at that time.
\<close>

locale replay_guard =
  fixes consume :: "'s \<Rightarrow> uuid \<Rightarrow> instant \<Rightarrow> instant \<Rightarrow> 's \<times> (auth_error, bool) result"
    and inv :: "'s \<Rightarrow> bool"
    and held :: "'s \<Rightarrow> uuid \<Rightarrow> instant \<Rightarrow> bool"
  assumes inv_consume: "inv s \<Longrightarrow> inv (fst (consume s i e n))"
    and refused: "inv s \<Longrightarrow> held s i n \<Longrightarrow> snd (consume s i e n) \<noteq> Inr True"
    and holds: "inv s \<Longrightarrow> snd (consume s i e n) = Inr True \<Longrightarrow> n \<le> t \<Longrightarrow> t < e \<Longrightarrow>
      held (fst (consume s i e n)) i t"
    and keeps: "inv s \<Longrightarrow> held s i t \<Longrightarrow> n \<le> t \<Longrightarrow> held (fst (consume s j e n)) i t"
begin

lemma run_inv: "inv s \<Longrightarrow> inv (consume_all consume s cs)"
proof (induction cs arbitrary: s)
  case Nil
  then show ?case by simp
next
  case (Cons c cs)
  then show ?case by (cases c) (simp add: inv_consume)
qed

lemma run_keeps:
  "inv s \<Longrightarrow> held s i t \<Longrightarrow> \<forall>c \<in> set cs. snd (snd c) \<le> t \<Longrightarrow> held (consume_all consume s cs) i t"
proof (induction cs arbitrary: s)
  case Nil
  then show ?case by simp
next
  case (Cons c cs)
  then show ?case
    by (cases c) (simp add: inv_consume keeps)
qed

lemma still_held:
  assumes "inv s" "snd (consume s i e n) = Inr True"
    and "\<forall>c \<in> set cs. snd (snd c) \<le> n'" "n \<le> n'" "n' < e"
  shows "held (consume_all consume (fst (consume s i e n)) cs) i n'"
  using assms by (intro run_keeps holds inv_consume)

lemma single_use:
  assumes "inv s" "snd (consume s i e n) = Inr True"
    and "\<forall>c \<in> set cs. snd (snd c) \<le> n'" "n \<le> n'" "n' < e"
  shows "snd (consume (consume_all consume (fst (consume s i e n)) cs) i e' n') \<noteq> Inr True"
  using assms by (intro refused run_inv inv_consume still_held)

end

section \<open>The in-memory guard keeps the promise\<close>

definition im_inv :: "im_guard \<Rightarrow> bool" where
  "im_inv g \<longleftrightarrow> wf_dict (ig_entries g)"

definition im_held :: "im_guard \<Rightarrow> uuid \<Rightarrow> instant \<Rightarrow> bool" where
  "im_held g i t \<longleftrightarrow> (case dict_get (ig_entries g) i of None \<Rightarrow> False | Some e \<Rightarrow> t < e)"

lemma live_get:
  "wf_dict d \<Longrightarrow> dict_get (live_entries now d) i =
    (case dict_get d i of None \<Rightarrow> None | Some e \<Rightarrow> if now < e then Some e else None)"
  by (simp add: live_entries_def dict_get_filter case_prod_unfold split: option.splits)

lemma live_wf: "wf_dict d \<Longrightarrow> wf_dict (live_entries now d)"
  by (simp add: live_entries_def wf_dict_filter)

lemma im_has_live:
  "im_inv g \<Longrightarrow> dict_has (live_entries now (ig_entries g)) i \<longleftrightarrow> im_held g i now"
  by (auto simp: im_inv_def im_held_def dict_has_def live_get split: option.splits)

lemma im_consume_inv: "im_inv g \<Longrightarrow> im_inv (fst (im_consume g i e n))"
  by (auto simp: im_inv_def im_consume_def Let_def live_wf wf_dict_set)

lemma im_consume_keeps: "im_inv g \<Longrightarrow> im_held g i t \<Longrightarrow> n \<le> t \<Longrightarrow> im_held (fst (im_consume g j e n)) i t"
proof -
  assume inv: "im_inv g" and held: "im_held g i t" and le: "n \<le> t"
  then obtain x where x: "dict_get (ig_entries g) i = Some x" "t < x"
    by (cases "dict_get (ig_entries g) i") (simp_all add: im_held_def)
  have live: "dict_get (live_entries n (ig_entries g)) i = Some x"
    using live_get [of "ig_entries g" n i] inv x le by (simp only: im_inv_def) simp
  show ?thesis
  proof (cases "dict_has (live_entries n (ig_entries g)) j")
    case True
    with live x show ?thesis by (simp add: im_consume_def im_held_def Let_def)
  next
    case False
    with live have "i \<noteq> j" by (auto simp: dict_has_def)
    with live x False show ?thesis by (simp add: im_consume_def im_held_def Let_def dict_get_set)
  qed
qed

interpretation in_memory_guard: replay_guard im_consume im_inv im_held
proof unfold_locales
  fix s i e n j t
  assume inv: "im_inv s"
  show "im_inv (fst (im_consume s i e n))" using inv by (rule im_consume_inv)
  show "im_held s i n \<Longrightarrow> snd (im_consume s i e n) \<noteq> Inr True"
    using inv by (simp add: im_consume_def Let_def im_has_live)
  show "snd (im_consume s i e n) = Inr True \<Longrightarrow> n \<le> t \<Longrightarrow> t < e \<Longrightarrow>
      im_held (fst (im_consume s i e n)) i t"
    by (simp add: im_consume_def im_held_def Let_def dict_get_set split: if_splits)
  show "im_held s i t \<Longrightarrow> n \<le> t \<Longrightarrow> im_held (fst (im_consume s j e n)) i t"
    using inv by (rule im_consume_keeps)
qed

lemma im_held_refused: "im_inv g \<Longrightarrow> im_held g i n \<Longrightarrow> snd (im_consume g i e n) = Inr False"
  by (simp add: im_consume_def Let_def im_has_live)

lemma fresh_guard_inv: "InMemoryGuard m = Inr g \<Longrightarrow> im_inv g"
  by (auto simp: InMemoryGuard_def im_inv_def result_iffs)

section \<open>The guard on Redis keeps the promise\<close>

text \<open>
  The documented behaviour of \<open>SET key value NX EX s\<close>. \<open>alive st t k\<close>: the key exists at the
  server's time \<open>t\<close> if no further command arrives. The command replies whether the key was
  absent; a key it sets stays for \<open>s\<close> seconds; and it never shortens the life of a key.
\<close>

definition redis_laws :: "'r redis_set \<Rightarrow> ('r \<Rightarrow> instant \<Rightarrow> string \<Rightarrow> bool) \<Rightarrow> bool" where
  "redis_laws set_nx alive \<longleftrightarrow>
    (\<forall>st t k ex fresh. snd (set_nx st t k ex) = Some fresh \<longrightarrow> (fresh \<longleftrightarrow> \<not> alive st t k)) \<and>
    (\<forall>st t k ex t'. snd (set_nx st t k ex) = Some True \<longrightarrow> t \<le> t' \<longrightarrow> t' < t + seconds ex \<longrightarrow>
      alive (fst (set_nx st t k ex)) t' k) \<and>
    (\<forall>st t k ex t' k'. alive st t' k' \<longrightarrow> t \<le> t' \<longrightarrow> alive (fst (set_nx st t k ex)) t' k')"

lemma redis_consume_fst:
  "fst (redis_consume set_nx pre t st i e n) = fst (set_nx st t (pre @ uuid_str i) (redis_ttl e n))"
  by (simp add: redis_consume_def Let_def split: prod.splits option.splits)

lemma redis_consume_snd:
  "snd (redis_consume set_nx pre t st i e n) =
    (case snd (set_nx st t (pre @ uuid_str i) (redis_ttl e n)) of
       None \<Rightarrow> Inl store_unavailable | Some fresh \<Rightarrow> Inr fresh)"
  by (simp add: redis_consume_def Let_def split: prod.splits option.splits)

lemma ttl_covers: "e - n \<le> seconds (redis_ttl e n)"
  by (simp add: redis_ttl_def ceil_seconds_def max_def) linarith

text \<open>The server's clock may differ from the caller's by a constant \<open>d\<close>.\<close>

interpretation redis_guard: replay_guard
  "\<lambda>st i e n. redis_consume set_nx pre (n + d) st i e n"
  "\<lambda>st. redis_laws set_nx alive"
  "\<lambda>st i t. alive st (t + d) (pre @ uuid_str i)"
  for set_nx pre d alive
proof (unfold_locales, goal_cases)
  case (1 s i e n)
  then show ?case .
next
  case (2 s i n e)
  then have "snd (set_nx s (n + d) (pre @ uuid_str i) (redis_ttl e n)) \<noteq> Some True"
    unfolding redis_laws_def by blast
  then show ?case by (auto simp: redis_consume_snd split: option.splits)
next
  case (3 s i e n t)
  from 3(2) have "snd (set_nx s (n + d) (pre @ uuid_str i) (redis_ttl e n)) = Some True"
    by (simp add: redis_consume_snd split: option.splits)
  moreover have "t + d < n + d + seconds (redis_ttl e n)" using ttl_covers [of e n] 3(4) by simp
  ultimately show ?case
    using 3(1,3) unfolding redis_laws_def redis_consume_fst by simp
next
  case (4 s i t n j e)
  then show ?case by (simp add: redis_laws_def redis_consume_fst)
qed

section \<open>Capacity of the in-memory guard\<close>

definition im_bounded :: "im_guard \<Rightarrow> bool" where
  "im_bounded g \<longleftrightarrow> wf_dict (ig_entries g) \<and> 1 \<le> ig_max_entries g
    \<and> int (length (ig_entries g)) \<le> ig_max_entries g"

lemma im_consume_max [simp]: "ig_max_entries (fst (im_consume g i e n)) = ig_max_entries g"
  by (simp add: im_consume_def Let_def)

lemma length_live: "length (live_entries n d) \<le> length d"
  by (simp add: live_entries_def)

lemma im_consume_bounded:
  assumes "im_bounded g"
  shows "im_bounded (fst (im_consume g i e n))"
proof -
  have "wf_dict (ig_entries (fst (im_consume g i e n)))"
    using assms im_consume_inv [of g i e n] by (simp add: im_bounded_def im_inv_def)
  then show ?thesis
    using assms length_live [of n "ig_entries g"]
    by (auto simp: im_bounded_def im_consume_def Let_def length_dict_set)
qed

lemma consume_all_bounded:
  "im_bounded g \<Longrightarrow> im_bounded (consume_all im_consume g cs)
    \<and> ig_max_entries (consume_all im_consume g cs) = ig_max_entries g"
proof (induction cs arbitrary: g)
  case Nil
  then show ?case by simp
next
  case (Cons c cs)
  then show ?case by (cases c) (simp add: im_consume_bounded)
qed

lemma fresh_bounded: "InMemoryGuard m = Inr g \<Longrightarrow> im_bounded g \<and> ig_max_entries g = m"
  by (auto simp: InMemoryGuard_def im_bounded_def result_iffs)

lemma consume_all_wf: "im_inv g \<Longrightarrow> im_inv (consume_all im_consume g cs)"
  by (rule in_memory_guard.run_inv)

section \<open>Properties\<close>

text \<open>
  Single use on one replica: after any history, once an authorization identifier was
  consumed, every later attempt before its expiry is answered \<open>False\<close>, whatever calls for this
  or other identifiers happen in between, provided the clock never reads later than the attempt.
\<close>

theorem in_memory_single_use:
  assumes "InMemoryGuard m = Inr g0" "g = consume_all im_consume g0 history"
    and "snd (im_consume g i e n) = Inr True"
    and "\<forall>c \<in> set between. snd (snd c) \<le> n'" "n \<le> n'" "n' < e"
  shows "snd (im_consume (consume_all im_consume (fst (im_consume g i e n)) between) i e' n')
    = Inr False"
proof -
  have "im_inv g" using assms(1,2) by (simp add: fresh_guard_inv consume_all_wf)
  with assms show ?thesis
    by (intro im_held_refused in_memory_guard.still_held consume_all_wf im_consume_inv)
qed

theorem in_memory_single_use_witness:
  "snd (im_consume (consume_all im_consume
      (fst (im_consume \<lparr>ig_max_entries = 2, ig_entries = []\<rparr> 7 100 10)) [(8, 90, 20)]) 7 200 30)
    = Inr False"
proof (rule in_memory_single_use [where m = 2 and history = "[]"])
  show "InMemoryGuard 2 = Inr \<lparr>ig_max_entries = 2, ig_entries = []\<rparr>"
    by (simp add: InMemoryGuard_def)
  show "snd (im_consume \<lparr>ig_max_entries = 2, ig_entries = []\<rparr> 7 100 10) = Inr True"
    by (simp add: im_consume_def live_entries_def dict_has_def Let_def)
qed simp_all

text \<open>
  Single use across replicas: with the documented semantics of \<open>SET NX EX\<close> and a server
  clock at a constant distance \<open>d\<close> from the replicas' clock, an identifier consumed through the
  Redis guard is never consumed again before its expiry, whatever happens in between; a client
  error in between, even one whose command was executed, releases nothing.
\<close>

theorem redis_single_use:
  assumes "redis_laws set_nx alive"
    and "snd (redis_consume set_nx pre (n + d) st i e n) = Inr True"
    and "\<forall>c \<in> set between. snd (snd c) \<le> n'" "n \<le> n'" "n' < e"
  shows "snd (redis_consume set_nx pre (n' + d)
      (consume_all (\<lambda>st i e n. redis_consume set_nx pre (n + d) st i e n)
        (fst (redis_consume set_nx pre (n + d) st i e n)) between) i e' n') \<noteq> Inr True"
  using assms by (rule redis_guard.single_use)

text \<open>A server that keeps every key with its expiry, and never fails.\<close>

definition model_set :: "(string, instant) dict redis_set" where
  "model_set st t k ex =
    (case dict_get st k of
       Some e \<Rightarrow> (if t < e then (st, Some False) else (dict_set k (t + seconds ex) st, Some True))
     | None \<Rightarrow> (dict_set k (t + seconds ex) st, Some True))"

definition model_alive :: "(string, instant) dict \<Rightarrow> instant \<Rightarrow> string \<Rightarrow> bool" where
  "model_alive st t k \<longleftrightarrow> (case dict_get st k of None \<Rightarrow> False | Some e \<Rightarrow> t < e)"

lemma model_laws: "redis_laws model_set model_alive"
  by (auto simp: redis_laws_def model_set_def model_alive_def dict_get_set
      simp del: map_of_eq_Some_iff split: option.splits if_splits)

theorem redis_single_use_witness:
  "snd (redis_consume model_set ''p:'' 3000000
      (fst (redis_consume model_set ''p:'' 1000000 [] 7 9000000 1000000)) 7 9000000 3000000)
    \<noteq> Inr True"
proof -
  have "snd (redis_consume model_set ''p:'' (1000000 + 0) [] 7 9000000 1000000) = Inr True"
    by (simp add: redis_consume_snd model_set_def)
  from redis_single_use [OF model_laws this, of "[]" 3000000 9000000] show ?thesis by simp
qed

text \<open>
  The in-memory guard never tracks more than \<open>max_entries\<close> identifiers, and capacity is
  never lost: after any history, a call whose clock has passed the expiry of all but
  \<open>max_entries - 1\<close> tracked identifiers does not find the store full.
\<close>

theorem in_memory_capacity:
  assumes "InMemoryGuard m = Inr g0" "g = consume_all im_consume g0 history"
  shows "int (length (ig_entries g)) \<le> m \<and>
    (int (length (live_entries n (ig_entries g))) < m \<longrightarrow> returns (snd (im_consume g i e n)))"
proof -
  have b: "im_bounded g" "ig_max_entries g = m"
    using fresh_bounded [OF assms(1)] consume_all_bounded [of g0 history] assms(2) by auto
  then have "int (length (live_entries n (ig_entries g))) < m \<Longrightarrow>
      returns (snd (im_consume g i e n))"
    by (cases "dict_has (live_entries n (ig_entries g)) i") (auto simp: im_consume_def Let_def)
  with b show ?thesis by (simp add: im_bounded_def)
qed

theorem in_memory_capacity_witness:
  "int (length (ig_entries (consume_all im_consume \<lparr>ig_max_entries = 1, ig_entries = []\<rparr>
      [(7, 100, 10)]))) \<le> 1
   \<and> returns (snd (im_consume (consume_all im_consume \<lparr>ig_max_entries = 1, ig_entries = []\<rparr>
      [(7, 100, 10)]) 8 300 100))"
proof -
  have new: "InMemoryGuard 1 = Inr \<lparr>ig_max_entries = 1, ig_entries = []\<rparr>"
    by (simp add: InMemoryGuard_def)
  have "int (length (live_entries 100 (ig_entries (consume_all im_consume
      \<lparr>ig_max_entries = 1, ig_entries = []\<rparr> [(7, 100, 10)])))) < 1"
    by (simp add: im_consume_def live_entries_def dict_has_def Let_def)
  with in_memory_capacity [OF new refl, of "[(7, 100, 10)]" 100 8 300] show ?thesis by blast
qed

end
