(* ===== verification/Runtime_Control.thy ===== *)
theory Runtime_Control
  imports Authorization_Domain Json
begin

text \<open>
  The Governance kill switch: the projection (\<open>domain/runtime_control.py\<close>), its enforcement
  (\<open>application/runtime_control.py\<close>) and both read-only stores (\<open>adapters/runtime_control.py\<close>).

  A store is a function from agent identifiers to what \<open>read\<close> returns or raises. The Redis client
  is a parameter: \<open>get key\<close> is the reply to \<open>GET key\<close>, \<open>None\<close> when the client raises.
\<close>

section \<open>Snapshots and errors\<close>

datatype control_state = INACTIVE | ACTIVE

record control_snapshot =
  rs_agent_id :: string
  rs_control_epoch :: int
  rs_state :: control_state
  rs_revoked_through :: int
  rs_transition_id :: "string option"

text \<open>
  A store raises \<open>RuntimeControlStoreError\<close>, or lets another exception through; \<open>Unmodelled\<close>
  stands for a text with characters beyond the model's strings.
\<close>

datatype store_error = RuntimeControlStoreError string | StoreException string | Unmodelled

datatype enforcement_error =
  RuntimeControlEnforcementError (enf_code: string) (enf_message: string)

definition RuntimeControlState :: "json \<Rightarrow> control_state option" where
  "RuntimeControlState v =
    (if v = JStr ''inactive'' then Some INACTIVE
     else if v = JStr ''active'' then Some ACTIVE
     else None)"

section \<open>Enforcement\<close>

type_synonym control_store = "string \<Rightarrow> (store_error, control_snapshot option) result"

definition control_unavailable :: enforcement_error where
  "control_unavailable = RuntimeControlEnforcementError ''runtime_control_unavailable''
    ''Runtime control state is unavailable''"

definition enforce ::
  "control_store \<Rightarrow> uuid \<Rightarrow> int \<Rightarrow> (enforcement_error, control_snapshot) result" where
  "enforce read agent_id agent_version =
    (case read (uuid_str agent_id) of
       Inl e \<Rightarrow> Inl control_unavailable
     | Inr None \<Rightarrow> Inl control_unavailable
     | Inr (Some snapshot) \<Rightarrow>
         rbind (raise_if (rs_state snapshot = ACTIVE)
           (RuntimeControlEnforcementError ''kill_switch_engaged''
             ''Governance runtime kill switch is engaged'')) (\<lambda>_.
         rbind (raise_if (agent_version \<le> rs_revoked_through snapshot)
           (RuntimeControlEnforcementError ''runtime_authorization_revoked''
             ''Runtime authorization predates the current Governance revocation floor'')) (\<lambda>_.
         Inr snapshot)))"

definition enforcer_ping :: "(store_error, unit) result \<Rightarrow> (enforcement_error, unit) result" where
  "enforcer_ping ping = (case ping of Inl e \<Rightarrow> Inl control_unavailable | Inr u \<Rightarrow> Inr u)"

section \<open>The in-memory store\<close>

text \<open>\<open>{snapshot.agent_id: snapshot for snapshot in snapshots}\<close>\<close>

definition InMemoryStore :: "control_snapshot list \<Rightarrow> (string, control_snapshot) dict" where
  "InMemoryStore snapshots = fold (\<lambda>s. dict_set (rs_agent_id s) s) snapshots []"

definition im_read :: "(string, control_snapshot) dict \<Rightarrow> control_store" where
  "im_read snapshots agent_id =
    (let snapshot = dict_get snapshots agent_id in
     rbind (raise_if (snapshot \<noteq> None \<and> rs_agent_id (the snapshot) \<noteq> agent_id)
       (RuntimeControlStoreError ''Runtime-control snapshot agent binding is invalid'')) (\<lambda>_.
     Inr snapshot))"

section \<open>The Redis store\<close>

datatype redis_reply = NoReply | ReplyBytes bytes | ReplyStr string | ReplyOther

record redis_store =
  rst_key_prefix :: string
  rst_max_snapshot_bytes :: int

definition RedisStore :: "string \<Rightarrow> int \<Rightarrow> (auth_error, redis_store) result" where
  "RedisStore key_prefix max_snapshot_bytes =
    rbind (raise_if (py_strip key_prefix = []) value_error) (\<lambda>_.
    rbind (raise_if (\<not> (512 \<le> max_snapshot_bytes \<and> max_snapshot_bytes \<le> 65536)) value_error) (\<lambda>_.
    Inr \<lparr>rst_key_prefix = key_prefix, rst_max_snapshot_bytes = max_snapshot_bytes\<rparr>))"

definition snapshot_fields :: "string set" where
  "snapshot_fields = {''agent_id'', ''control_epoch'', ''revoked_through_agent_version'',
     ''schema_version'', ''state'', ''transition_id''}"

text \<open>\<open>isinstance(v, int) and not isinstance(v, bool) and v >= 0\<close>\<close>

fun counter :: "json \<Rightarrow> int option" where
  "counter (JInt i) = (if 0 \<le> i then Some i else None)"
| "counter _ = None"

fun transition_id :: "json \<Rightarrow> string option option" where
  "transition_id JNull = Some None"
| "transition_id (JStr s) = (if 1 \<le> length s \<and> length s \<le> 200 then Some (Some s) else None)"
| "transition_id _ = None"

text \<open>\<open>document[name]\<close>, for a field whose presence was checked.\<close>

definition field :: "(string, json) dict \<Rightarrow> string \<Rightarrow> json" where
  "field d name = (case dict_get d name of Some v \<Rightarrow> v | None \<Rightarrow> JNull)"

definition parse_snapshot :: "string \<Rightarrow> string \<Rightarrow> (store_error, control_snapshot) result" where
  "parse_snapshot raw expected_agent_id =
    (case json_loads raw of
       Inl JSONDecodeError \<Rightarrow> Inl (RuntimeControlStoreError ''Runtime-control snapshot is invalid JSON'')
     | Inl IntTooLong \<Rightarrow> Inl (StoreException ''ValueError'')
     | Inl _ \<Rightarrow> Inl Unmodelled
     | Inr document \<Rightarrow>
       (case document of
          JObj d \<Rightarrow>
          rbind (raise_if (set (dict_keys d) \<noteq> snapshot_fields)
            (RuntimeControlStoreError ''Runtime-control snapshot contains unsupported fields'')) (\<lambda>_.
          rbind (raise_if (field d ''agent_id'' \<noteq> JStr expected_agent_id)
            (RuntimeControlStoreError ''Runtime-control snapshot agent binding is invalid'')) (\<lambda>_.
          rbind (raise_if (field d ''schema_version'' \<noteq> JStr ''1.0'')
            (RuntimeControlStoreError ''Runtime-control snapshot schema is unsupported'')) (\<lambda>_.
          rbind (some_or (counter (field d ''control_epoch''))
            (RuntimeControlStoreError ''Runtime-control snapshot counters are invalid'')) (\<lambda>epoch.
          rbind (some_or (counter (field d ''revoked_through_agent_version''))
            (RuntimeControlStoreError ''Runtime-control snapshot counters are invalid'')) (\<lambda>revoked.
          rbind (some_or (transition_id (field d ''transition_id''))
            (RuntimeControlStoreError ''Runtime-control transition identifier is invalid'')) (\<lambda>tid.
          rbind (some_or (RuntimeControlState (field d ''state''))
            (RuntimeControlStoreError ''Runtime-control state is invalid'')) (\<lambda>state.
          Inr \<lparr>rs_agent_id = expected_agent_id, rs_control_epoch = epoch, rs_state = state,
               rs_revoked_through = revoked, rs_transition_id = tid\<rparr>)))))))
        | _ \<Rightarrow> Inl (RuntimeControlStoreError ''Runtime-control snapshot contains unsupported fields'')))"

definition decode_reply :: "redis_reply \<Rightarrow> (store_error, string) result" where
  "decode_reply raw =
    (case raw of
       ReplyStr s \<Rightarrow> Inr s
     | ReplyBytes b \<Rightarrow> (case utf8_decode b of
         Inr s \<Rightarrow> Inr s
       | Inl UnicodeDecodeError \<Rightarrow> Inl (RuntimeControlStoreError ''Runtime-control snapshot is not UTF-8'')
       | Inl BeyondLatin1 \<Rightarrow> Inl Unmodelled)
     | _ \<Rightarrow> Inl (RuntimeControlStoreError ''Runtime-control snapshot has an invalid representation''))"

definition redis_read :: "(string \<Rightarrow> redis_reply option) \<Rightarrow> redis_store \<Rightarrow> control_store" where
  "redis_read get store agent_id =
    rbind (raise_if (agent_id = [])
      (RuntimeControlStoreError ''Runtime-control agent identifier is empty'')) (\<lambda>_.
    rbind (some_or (get (rst_key_prefix store @ agent_id))
      (RuntimeControlStoreError ''Runtime-control Redis is unavailable'')) (\<lambda>raw.
    if raw = NoReply then Inr None
    else rbind (decode_reply raw) (\<lambda>text.
      rbind (raise_if (rst_max_snapshot_bytes store < int (length (utf8_encode text)))
        (RuntimeControlStoreError ''Runtime-control snapshot exceeds its size limit'')) (\<lambda>_.
      rbind (parse_snapshot text agent_id) (\<lambda>snapshot. Inr (Some snapshot))))))"

definition redis_ping :: "unit option \<Rightarrow> (store_error, unit) result" where
  "redis_ping ping = some_or ping (RuntimeControlStoreError ''Runtime-control Redis is unavailable'')"

section \<open>What a store promises\<close>

text \<open>
  A trustworthy store only ever returns a snapshot of the agent it was asked for. The enforcer's
  client needs this: it does not check the binding again.
\<close>

locale control_store_port =
  fixes read :: control_store
  assumes bound: "read a = Inr (Some s) \<Longrightarrow> rs_agent_id s = a"
begin

lemma enforce_bound:
  "enforce read agent_id agent_version = Inr s \<Longrightarrow>
    rs_agent_id s = uuid_str agent_id \<and> rs_state s = INACTIVE \<and> rs_revoked_through s < agent_version"
  by (cases "rs_state s")
    (auto simp: enforce_def result_iffs split: sum.splits option.splits dest: bound)

end

lemma enforce_Inr_iff:
  "enforce read agent_id agent_version = Inr s \<longleftrightarrow>
    read (uuid_str agent_id) = Inr (Some s) \<and> rs_state s = INACTIVE
    \<and> rs_revoked_through s < agent_version"
  by (cases "rs_state s") (auto simp: enforce_def result_iffs split: sum.splits option.splits)

interpretation in_memory_store: control_store_port "im_read d" for d
  by unfold_locales (auto simp: im_read_def Let_def result_iffs)

lemma parse_snapshot_Inr:
  "parse_snapshot raw a = Inr s \<longleftrightarrow>
    (\<exists>d. json_loads raw = Inr (JObj d) \<and> set (dict_keys d) = snapshot_fields
      \<and> field d ''agent_id'' = JStr a \<and> field d ''schema_version'' = JStr ''1.0''
      \<and> counter (field d ''control_epoch'') = Some (rs_control_epoch s)
      \<and> counter (field d ''revoked_through_agent_version'') = Some (rs_revoked_through s)
      \<and> transition_id (field d ''transition_id'') = Some (rs_transition_id s)
      \<and> RuntimeControlState (field d ''state'') = Some (rs_state s) \<and> rs_agent_id s = a)"
proof (cases "json_loads raw")
  case (Inl e)
  then show ?thesis by (cases e) (auto simp: parse_snapshot_def)
next
  case (Inr v)
  show ?thesis
  proof (cases v)
    case (JObj d)
    obtain ai ce st rv ti where s: "s = \<lparr>rs_agent_id = ai, rs_control_epoch = ce, rs_state = st,
        rs_revoked_through = rv, rs_transition_id = ti\<rparr>" by (cases s)
    show ?thesis
      unfolding s using Inr JObj
      by (simp add: parse_snapshot_def rbind_Inr_iff raise_if_Inr_iff some_or_Inr_iff) blast
  qed (use Inr in \<open>simp_all add: parse_snapshot_def\<close>)
qed

lemma redis_read_Inr:
  "redis_read get store a = Inr (Some s) \<longleftrightarrow>
    a \<noteq> [] \<and> (\<exists>raw text. get (rst_key_prefix store @ a) = Some raw \<and> raw \<noteq> NoReply
      \<and> decode_reply raw = Inr text
      \<and> int (length (utf8_encode text)) \<le> rst_max_snapshot_bytes store
      \<and> parse_snapshot text a = Inr s)"
proof -
  have if_iff: "(if c then Inr None else r) = Inr (Some s) \<longleftrightarrow> \<not> c \<and> r = Inr (Some s)"
    for c and r :: "(store_error, control_snapshot option) result" by simp
  show ?thesis
    unfolding redis_read_def rbind_Inr_iff raise_if_Inr_iff some_or_Inr_iff if_iff
    by (simp only: not_less Inr_inject option.inject) blast
qed

interpretation redis_store: control_store_port "redis_read get store" for get store
proof
  fix a s assume "redis_read get store a = Inr (Some s)"
  then obtain t where "parse_snapshot t a = Inr s" by (auto simp only: redis_read_Inr)
  then show "rs_agent_id s = a" by (auto simp only: parse_snapshot_Inr)
qed

section \<open>The published document\<close>

text \<open>The document Governance publishes for a snapshot.\<close>

definition snapshot_document :: "control_snapshot \<Rightarrow> json" where
  "snapshot_document s = JObj
    [(''agent_id'', JStr (rs_agent_id s)),
     (''control_epoch'', JInt (rs_control_epoch s)),
     (''revoked_through_agent_version'', JInt (rs_revoked_through s)),
     (''schema_version'', JStr ''1.0''),
     (''state'', JStr (case rs_state s of INACTIVE \<Rightarrow> ''inactive'' | ACTIVE \<Rightarrow> ''active'')),
     (''transition_id'', (case rs_transition_id s of None \<Rightarrow> JNull | Some t \<Rightarrow> JStr t))]"

definition snapshot_wf :: "control_snapshot \<Rightarrow> bool" where
  "snapshot_wf s \<longleftrightarrow> 0 \<le> rs_control_epoch s \<and> length (nat_str (nat (rs_control_epoch s))) \<le> int_limit
    \<and> 0 \<le> rs_revoked_through s \<and> length (nat_str (nat (rs_revoked_through s))) \<le> int_limit
    \<and> (\<forall>t. rs_transition_id s = Some t \<longrightarrow> 1 \<le> length t \<and> length t \<le> 200)"

lemma snapshot_document_sorted: "sort_keys (snapshot_document s) = snapshot_document s"
  by (simp add: snapshot_document_def split: option.split)

lemma snapshot_document_wf: "snapshot_wf s \<Longrightarrow> json_wf (snapshot_document s)"
  by (simp add: snapshot_document_def snapshot_wf_def split: option.split)

lemma parse_snapshot_document:
  "snapshot_wf s \<Longrightarrow> parse_snapshot (json_dumps (snapshot_document s)) (rs_agent_id s) = Inr s"
proof -
  assume wf: "snapshot_wf s"
  then have "json_loads (json_dumps (snapshot_document s)) = Inr (snapshot_document s)"
    by (simp add: loads_dumps snapshot_document_wf snapshot_document_sorted)
  with wf show ?thesis
    by (cases "rs_state s"; cases "rs_transition_id s")
      (simp_all add: parse_snapshot_Inr snapshot_document_def snapshot_fields_def field_def
        RuntimeControlState_def snapshot_wf_def insert_commute)
qed

text \<open>A released switch with a revocation floor of 2, and a Redis that holds it.\<close>

definition sample_snapshot :: control_snapshot where
  "sample_snapshot =
    \<lparr>rs_agent_id = ''00000000-0000-0000-0000-000000000007'', rs_control_epoch = 3,
     rs_state = INACTIVE, rs_revoked_through = 2, rs_transition_id = None\<rparr>"

definition sample_store :: redis_store where
  "sample_store = \<lparr>rst_key_prefix = ''rc:'', rst_max_snapshot_bytes = 4096\<rparr>"

definition sample_get :: "string \<Rightarrow> redis_reply option" where
  "sample_get key = Some (if key = ''rc:00000000-0000-0000-0000-000000000007''
     then ReplyStr (json_dumps (snapshot_document sample_snapshot)) else NoReply)"

lemmas sample_defs = sample_snapshot_def sample_store_def sample_get_def

lemma sample_uuid: "uuid_str 7 = ''00000000-0000-0000-0000-000000000007''"
  by code_simp

lemma sample_size: "length (utf8_encode (json_dumps (snapshot_document sample_snapshot))) \<le> 4096"
  by code_simp

lemma sample_wf: "snapshot_wf sample_snapshot"
  by (simp add: snapshot_wf_def sample_snapshot_def int_limit_def nat_str.simps)

lemma sample_reply:
  "sample_get (rst_key_prefix sample_store @ rs_agent_id sample_snapshot) =
    Some (ReplyStr (json_dumps (snapshot_document sample_snapshot)))"
  by (simp add: sample_defs)

lemma sample_bound: "int (length (utf8_encode (json_dumps (snapshot_document sample_snapshot))))
    \<le> rst_max_snapshot_bytes sample_store"
  using sample_size by (simp add: sample_store_def)

lemma sample_read:
  "redis_read sample_get sample_store (rs_agent_id sample_snapshot) = Inr (Some sample_snapshot)"
proof -
  have "rs_agent_id sample_snapshot \<noteq> []" by (simp add: sample_snapshot_def)
  then show ?thesis
    using sample_reply sample_bound parse_snapshot_document [OF sample_wf]
    unfolding redis_read_Inr decode_reply_def by (metis redis_reply.case(3) redis_reply.distinct(3))
qed

section \<open>Properties\<close>


text \<open>
  C13. With the Redis store, execution is allowed only on the strength of a document stored under
  this agent's own key, within the size limit, with exactly the six fields of the projection,
  naming this agent, the released state and a revocation floor below the signed version.
\<close>

theorem redis_enforced_document:
  assumes "enforce (redis_read get store) agent_id agent_version = Inr s"
  shows "\<exists>raw doc d n. get (rst_key_prefix store @ uuid_str agent_id) = Some raw
    \<and> decode_reply raw = Inr doc \<and> int (length (utf8_encode doc)) \<le> rst_max_snapshot_bytes store
    \<and> json_loads doc = Inr (JObj d) \<and> set (dict_keys d) = snapshot_fields
    \<and> field d ''agent_id'' = JStr (uuid_str agent_id) \<and> field d ''state'' = JStr ''inactive''
    \<and> field d ''revoked_through_agent_version'' = JInt n \<and> 0 \<le> n \<and> n < agent_version"
proof -
  from assms have s: "redis_read get store (uuid_str agent_id) = Inr (Some s)"
    "rs_state s = INACTIVE" "rs_revoked_through s < agent_version"
    by (simp_all add: enforce_Inr_iff)
  from s(1) obtain raw doc d where d:
    "get (rst_key_prefix store @ uuid_str agent_id) = Some raw" "decode_reply raw = Inr doc"
    "int (length (utf8_encode doc)) \<le> rst_max_snapshot_bytes store"
    "json_loads doc = Inr (JObj d)" "set (dict_keys d) = snapshot_fields"
    "field d ''agent_id'' = JStr (uuid_str agent_id)"
    "counter (field d ''revoked_through_agent_version'') = Some (rs_revoked_through s)"
    "RuntimeControlState (field d ''state'') = Some (rs_state s)"
    unfolding redis_read_Inr parse_snapshot_Inr by blast
  from d(8) s(2) have "field d ''state'' = JStr ''inactive''"
    by (simp add: RuntimeControlState_def split: if_splits)
  moreover from d(7) have "field d ''revoked_through_agent_version'' = JInt (rs_revoked_through s)"
    "0 \<le> rs_revoked_through s"
    by (cases "field d ''revoked_through_agent_version''"; simp split: if_splits)+
  ultimately show ?thesis using d s(3) by blast
qed

theorem redis_enforced_document_witness:
  "\<exists>raw doc d n. sample_get (rst_key_prefix sample_store @ uuid_str 7) = Some raw
    \<and> decode_reply raw = Inr doc \<and> int (length (utf8_encode doc)) \<le> rst_max_snapshot_bytes sample_store
    \<and> json_loads doc = Inr (JObj d) \<and> set (dict_keys d) = snapshot_fields
    \<and> field d ''agent_id'' = JStr (uuid_str 7) \<and> field d ''state'' = JStr ''inactive''
    \<and> field d ''revoked_through_agent_version'' = JInt n \<and> 0 \<le> n \<and> n < 5"
proof (rule redis_enforced_document)
  have "redis_read sample_get sample_store (uuid_str 7) = Inr (Some sample_snapshot)"
    using sample_read by (simp only: sample_uuid sample_snapshot_def control_snapshot.simps)
  then show "enforce (redis_read sample_get sample_store) 7 5 = Inr sample_snapshot"
    by (simp add: enforce_Inr_iff sample_snapshot_def)
qed

text \<open>
  C14. Round trip with the publisher: for every well-formed snapshot of a non-empty agent
  identifier, if Redis holds its canonical JSON under the agent's key, as text or as UTF-8 bytes,
  within the size limit, \<open>read\<close> returns exactly that snapshot.
\<close>

theorem published_snapshot_read:
  assumes "snapshot_wf s" "rs_agent_id s \<noteq> []"
    and "doc = json_dumps (snapshot_document s)"
    and "get (rst_key_prefix store @ rs_agent_id s) = Some raw"
    and "raw = ReplyStr doc \<or> raw = ReplyBytes (utf8_encode doc)"
    and "int (length (utf8_encode doc)) \<le> rst_max_snapshot_bytes store"
  shows "redis_read get store (rs_agent_id s) = Inr (Some s)"
proof -
  have "decode_reply raw = Inr doc" "raw \<noteq> NoReply"
    using assms(5) by (auto simp: decode_reply_def utf8_decode_encode)
  with assms parse_snapshot_document [OF assms(1)] show ?thesis
    unfolding redis_read_Inr by blast
qed

theorem published_snapshot_read_witness:
  "redis_read sample_get sample_store (rs_agent_id sample_snapshot) = Inr (Some sample_snapshot)"
proof -
  have "rs_agent_id sample_snapshot \<noteq> []" by (simp add: sample_snapshot_def)
  from published_snapshot_read [OF sample_wf this refl, where get = sample_get and
      store = sample_store, OF sample_reply disjI1, OF refl sample_bound]
  show ?thesis .
qed

lemma im_store_get:
  "dict_get (fold (\<lambda>s. dict_set (rs_agent_id s) s) ss d) a =
    (case find (\<lambda>s. rs_agent_id s = a) (rev ss) of Some s \<Rightarrow> Some s | None \<Rightarrow> dict_get d a)"
  by (induction ss arbitrary: d)
    (auto simp: dict_get_set find_append simp del: map_of_eq_Some_iff split: option.splits)

text \<open>
  The in-memory store answers with the last snapshot configured for the agent, and never
  raises.
\<close>

theorem in_memory_read:
  "im_read (InMemoryStore ss) a = Inr (find (\<lambda>s. rs_agent_id s = a) (rev ss))"
proof -
  have get: "dict_get (InMemoryStore ss) a = find (\<lambda>s. rs_agent_id s = a) (rev ss)"
    by (simp add: InMemoryStore_def im_store_get split: option.split)
  show ?thesis
  proof (cases "find (\<lambda>s. rs_agent_id s = a) (rev ss)")
    case None
    with get show ?thesis by (simp add: im_read_def)
  next
    case (Some s)
    with get find_SomeD [OF Some] show ?thesis by (simp add: im_read_def)
  qed
qed

end
