(* ===== verification/Authorization_Verifier.thy ===== *)
theory Authorization_Verifier
  imports Contract_Properties Replay_Guard Runtime_Control
begin

text \<open>
  Verification of one Governance authorization against a domain request
  (\<open>application/runtime_authorization.py\<close>): identity and time, trusted key, signature, request
  binding, agent binding, policy provenance, runtime control and single-use consumption, in the
  order of the code, with the first failure reported.

  Parameters: \<open>edv key signature message\<close> is whether Ed25519 accepts the signature (the
  cryptography library), \<open>dump_time\<close> pydantic's text of an instant, and \<open>consume\<close> the replay
  guard, whose state the call threads. \<open>vf_runtime_control\<close> is what the control store answers
  during this call.
\<close>

section \<open>State\<close>

record 'k verifier =
  vf_key_set :: "'k key_set"
  vf_issuer :: string
  vf_audience :: string
  vf_agent_bindings :: "(string, uuid) dict"
  vf_policy_id :: string
  vf_policy_version :: string
  vf_policy_digest :: string
  vf_control_catalog_id :: string
  vf_control_catalog_version :: string
  vf_control_catalog_digest :: string
  vf_runtime_control :: "control_store option"
  vf_clock_skew :: int

record verified_authorization =
  va_envelope :: "instant envelope"
  va_verified_at :: instant
  va_key_set_generation :: int

definition authorization_id :: "verified_authorization \<Rightarrow> uuid" where
  "authorization_id v = cl_authorization_id (ev_claims (va_envelope v))"

text \<open>The constructor: \<open>candidate\<close> carries the arguments, \<open>clock_skew_seconds\<close> apart.\<close>

definition RuntimeAuthorizationVerifier ::
  "'k verifier \<Rightarrow> int \<Rightarrow> (auth_error, 'k verifier) result" where
  "RuntimeAuthorizationVerifier candidate clock_skew_seconds =
    rbind (raise_if (vf_issuer candidate = [] \<or> vf_audience candidate = []) value_error) (\<lambda>_.
    rbind (raise_if (\<not> (0 \<le> clock_skew_seconds \<and> clock_skew_seconds \<le> 60)) value_error) (\<lambda>_.
    rbind (raise_if (vf_agent_bindings candidate = []) value_error) (\<lambda>_.
    Inr (candidate\<lparr>vf_clock_skew := seconds clock_skew_seconds\<rparr>))))"

abbreviation denied :: "string \<Rightarrow> string \<Rightarrow> auth_error" where
  "denied code message \<equiv> RuntimeAuthorizationError code message False"

section \<open>The checks\<close>

definition verify_identity_and_time ::
  "'k verifier \<Rightarrow> instant claims \<Rightarrow> instant \<Rightarrow> (auth_error, unit) result" where
  "verify_identity_and_time vf c now =
    rbind (raise_if (cl_issuer c \<noteq> vf_issuer vf)
      (denied ''issuer_mismatch'' ''Runtime authorization issuer is not trusted'')) (\<lambda>_.
    rbind (raise_if (vf_audience vf \<notin> set (cl_audience c))
      (denied ''audience_mismatch''
        ''Runtime authorization audience does not include this service'')) (\<lambda>_.
    rbind (raise_if (now + vf_clock_skew vf < cl_issued_at c)
      (denied ''issued_in_future'' ''Runtime authorization was issued in the future'')) (\<lambda>_.
    rbind (raise_if (now + vf_clock_skew vf < cl_not_before c)
      (denied ''not_yet_valid'' ''Runtime authorization is not valid yet'')) (\<lambda>_.
    raise_if (cl_expires_at c \<le> now - vf_clock_skew vf)
      (denied ''expired'' ''Runtime authorization has expired'')))))"

definition require_key ::
  "'k verifier \<Rightarrow> instant envelope \<Rightarrow> instant \<Rightarrow> (auth_error, 'k trusted_key) result" where
  "require_key vf e now =
    rbind (some_or (resolve_key (vf_key_set vf) (ph_kid (ev_protected e)))
      (denied ''unknown_key'' ''Runtime authorization key is not trusted'')) (\<lambda>key.
    rbind (raise_if (tk_status key = REVOKED_KEY)
      (denied ''key_revoked'' ''Runtime authorization key is revoked'')) (\<lambda>_.
    rbind (raise_if (\<not> (tk_not_before key \<le> cl_issued_at (ev_claims e)
        \<and> cl_issued_at (ev_claims e) < tk_verify_until key))
      (denied ''key_not_valid_for_issue_time''
        ''Authorization issue time is outside the key trust window'')) (\<lambda>_.
    rbind (raise_if (tk_verify_until key \<le> now - vf_clock_skew vf)
      (denied ''key_verification_window_closed''
        ''Runtime authorization key verification window is closed'')) (\<lambda>_.
    Inr key))))"

definition verify_signature ::
  "('k \<Rightarrow> bytes \<Rightarrow> bytes \<Rightarrow> bool) \<Rightarrow> (instant \<Rightarrow> string) \<Rightarrow> instant envelope \<Rightarrow> 'k trusted_key \<Rightarrow>
    (auth_error, unit) result" where
  "verify_signature edv dump_time e key =
    (case rbind (decode_signature (ev_signature e)) (\<lambda>sig.
          rbind (signing_bytes dump_time e) (\<lambda>message.
          Inr (edv (tk_public_key key) sig message))) of
       Inr True \<Rightarrow> Inr ()
     | _ \<Rightarrow> Inl (denied ''invalid_signature'' ''Runtime authorization signature is invalid''))"

text \<open>\<open>_cost_micros\<close>; \<open>decimal.Overflow\<close> escapes as another exception.\<close>

definition cost_micros :: "decimal \<Rightarrow> (auth_error, int) result" where
  "cost_micros value =
    rbind (some_or (dec_mul value million) (OtherException ''Overflow'')) (\<lambda>micros.
    let integral = dec_to_integral micros in
    rbind (raise_if (\<not> dec_eq micros integral)
      (denied ''request_cost_precision_unsupported''
        ''Route cost cannot be represented as integer USD micros'')) (\<lambda>_.
    Inr (int (dec_int integral))))"

definition mismatches :: "instant claims \<Rightarrow> route_request \<Rightarrow> int \<Rightarrow> (string \<times> bool) list" where
  "mismatches c r micros =
    (let signed = cl_request c in
     [(''requested_at'', cl_issued_at c \<noteq> rr_requested_at r),
      (''workflow_id'', rb_workflow_id signed \<noteq> rr_workflow_id r),
      (''task_id'', rb_task_id signed \<noteq> rr_task_id r),
      (''workload'', rb_workload signed \<noteq> rr_workload r),
      (''context_tokens_estimated'',
        rb_context_tokens_estimated signed \<noteq> int (rr_context_tokens_estimated r)),
      (''max_output_tokens_estimated'',
        rb_max_output_tokens_estimated signed \<noteq> int (rr_max_output_tokens_estimated r)),
      (''structured_output_required'',
        rb_structured_output_required signed \<noteq> rr_structured_output_required r),
      (''max_latency_ms'', rb_max_latency_ms signed \<noteq> int (rr_max_latency_ms r)),
      (''max_cost_usd_micros'', rb_max_cost_usd_micros signed \<noteq> micros),
      (''risk_level'', tier_value (sc_risk_tier (cl_scope c)) \<noteq> risk_value (rr_risk_level r)),
      (''data_classification'', sc_data_classification (cl_scope c) \<noteq> rr_data_classification r)])"

definition verify_request_binding ::
  "instant claims \<Rightarrow> route_request \<Rightarrow> (auth_error, unit) result" where
  "verify_request_binding c r =
    rbind (cost_micros (rr_max_cost_usd r)) (\<lambda>micros.
    let failed = sort (map fst (filter snd (mismatches c r micros))) in
    raise_if (failed \<noteq> [])
      (denied ''request_binding_mismatch''
        (''Route request differs from signed Governance authorization: '' @ str_join '', '' failed)))"

definition verify_agent_binding ::
  "'k verifier \<Rightarrow> instant claims \<Rightarrow> string \<Rightarrow> (auth_error, unit) result" where
  "verify_agent_binding vf c agent_name =
    raise_if (dict_get (vf_agent_bindings vf) agent_name \<noteq> Some (sj_agent_id (cl_subject c)))
      (denied ''agent_binding_mismatch''
        ''Route agent identity does not match signed Governance subject'')"

definition verify_policy_provenance ::
  "'k verifier \<Rightarrow> instant claims \<Rightarrow> (auth_error, unit) result" where
  "verify_policy_provenance vf c =
    (let policy = cl_policy c in
     raise_if (pv_policy_id policy \<noteq> vf_policy_id vf
        \<or> pv_policy_version policy \<noteq> vf_policy_version vf
        \<or> pv_policy_digest policy \<noteq> vf_policy_digest vf
        \<or> pv_control_catalog_id policy \<noteq> vf_control_catalog_id vf
        \<or> pv_control_catalog_version policy \<noteq> vf_control_catalog_version vf
        \<or> pv_control_catalog_digest policy \<noteq> vf_control_catalog_digest vf)
       (denied ''governance_policy_mismatch''
         ''Runtime authorization provenance is not trusted by this deployment''))"

definition verify_runtime_control :: "'k verifier \<Rightarrow> instant claims \<Rightarrow> (auth_error, unit) result" where
  "verify_runtime_control vf c =
    (case vf_runtime_control vf of
       None \<Rightarrow> Inr ()
     | Some read \<Rightarrow>
       (case enforce read (sj_agent_id (cl_subject c)) (sj_agent_version (cl_subject c)) of
          Inl e \<Rightarrow> Inl (RuntimeAuthorizationError (enf_code e) (enf_message e) True)
        | Inr s \<Rightarrow> Inr ()))"

section \<open>The whole verification\<close>

text \<open>Everything \<open>verify\<close> checks before it consumes the authorization.\<close>

definition verify_checks ::
  "('k \<Rightarrow> bytes \<Rightarrow> bytes \<Rightarrow> bool) \<Rightarrow> (instant \<Rightarrow> string) \<Rightarrow> 'k verifier \<Rightarrow> instant envelope \<Rightarrow>
    route_request \<Rightarrow> datetime \<Rightarrow> (auth_error, unit) result" where
  "verify_checks edv dump_time vf e r now =
    rbind (require_utc now) (\<lambda>_.
    let c = ev_claims e; t = dt_wall now in
    rbind (verify_identity_and_time vf c t) (\<lambda>_.
    rbind (require_key vf e t) (\<lambda>key.
    rbind (verify_signature edv dump_time e key) (\<lambda>_.
    rbind (verify_request_binding c r) (\<lambda>_.
    rbind (verify_agent_binding vf c (rr_agent_name r)) (\<lambda>_.
    rbind (verify_policy_provenance vf c) (\<lambda>_.
    verify_runtime_control vf c)))))))"

type_synonym 's consume = "'s \<Rightarrow> uuid \<Rightarrow> instant \<Rightarrow> instant \<Rightarrow> 's \<times> (auth_error, bool) result"

text \<open>The consumption, and how its outcome is reported.\<close>

definition consumed :: "(auth_error, bool) result \<Rightarrow> (auth_error, unit) result" where
  "consumed outcome =
    (case outcome of
       Inl (RuntimeAuthorizationError code message verified) \<Rightarrow>
         Inl (RuntimeAuthorizationError code message verified)
     | Inl (OtherException name) \<Rightarrow> Inl store_unavailable
     | Inr fresh \<Rightarrow> raise_if (\<not> fresh)
         (denied ''replay_detected'' ''Runtime authorization identifier was already consumed''))"

definition verify ::
  "'s consume \<Rightarrow> ('k \<Rightarrow> bytes \<Rightarrow> bytes \<Rightarrow> bool) \<Rightarrow> (instant \<Rightarrow> string) \<Rightarrow> 'k verifier \<Rightarrow> 's \<Rightarrow>
    instant envelope \<Rightarrow> route_request \<Rightarrow> datetime \<Rightarrow> 's \<times> (auth_error, verified_authorization) result"
  where
  "verify consume edv dump_time vf s e r now =
    (case verify_checks edv dump_time vf e r now of
       Inl err \<Rightarrow> (s, Inl err)
     | Inr _ \<Rightarrow>
       (let c = ev_claims e;
            (s, outcome) = consume s (cl_authorization_id c) (cl_expires_at c) (dt_wall now)
        in (s, rbind (consumed outcome) (\<lambda>_.
          Inr \<lparr>va_envelope = e, va_verified_at = dt_wall now,
               va_key_set_generation = ks_generation (vf_key_set vf)\<rparr>))))"

definition require_selected_model ::
  "verified_authorization \<Rightarrow> model_group_id \<Rightarrow> (auth_error, unit) result" where
  "require_selected_model v selected =
    (let scope = cl_scope (ev_claims (va_envelope v));
         matching = filter (\<lambda>m. am_routing_group m = selected) (sc_models scope)
     in rbind (raise_if (matching = [])
          (denied ''selected_model_group_not_authorized''
            ''Selected model group is outside the signed Governance scope'')) (\<lambda>_.
        raise_if (\<not> list_ex (\<lambda>m. sc_data_classification scope \<in> set (am_allowed_data_classes m)) matching)
          (denied ''selected_model_data_class_not_authorized''
            ''Selected model group is not signed for this data classification'')))"

definition verifier_ping ::
  "'k verifier \<Rightarrow> (auth_error, unit) result \<Rightarrow> (store_error, unit) result \<Rightarrow> (auth_error, unit) result" where
  "verifier_ping vf guard_ping control_ping =
    rbind guard_ping (\<lambda>_.
    if vf_runtime_control vf = None then Inr ()
    else (case enforcer_ping control_ping of
            Inl e \<Rightarrow> Inl (RuntimeAuthorizationError (enf_code e) (enf_message e) False)
          | Inr u \<Rightarrow> Inr u))"

end
