(* ===== verification/Verifier_Properties.thy ===== *)
theory Verifier_Properties
  imports Authorization_Verifier Routing_Properties
begin

text \<open>
  What verification means: an abstract specification of an authorized request, which the checks
  of \<open>verify\<close> implement exactly; single use over sequences of verifications; and the limits of
  both, the clock skew and the decimal precision.
\<close>

section \<open>Specification\<close>

definition in_time :: "'k verifier \<Rightarrow> instant claims \<Rightarrow> instant \<Rightarrow> bool" where
  "in_time vf c t \<longleftrightarrow> cl_issued_at c \<le> t + vf_clock_skew vf \<and> cl_not_before c \<le> t + vf_clock_skew vf
    \<and> t < cl_expires_at c + vf_clock_skew vf"

definition trusted_signature ::
  "('k \<Rightarrow> bytes \<Rightarrow> bytes \<Rightarrow> bool) \<Rightarrow> (instant \<Rightarrow> string) \<Rightarrow> 'k verifier \<Rightarrow> instant envelope \<Rightarrow> instant \<Rightarrow> bool"
  where
  "trusted_signature edv dump_time vf e t \<longleftrightarrow>
    (\<exists>key sig message. resolve_key (vf_key_set vf) (ph_kid (ev_protected e)) = Some key
      \<and> tk_status key \<noteq> REVOKED_KEY \<and> tk_not_before key \<le> cl_issued_at (ev_claims e)
      \<and> cl_issued_at (ev_claims e) < tk_verify_until key \<and> t < tk_verify_until key + vf_clock_skew vf
      \<and> decode_signature (ev_signature e) = Inr sig \<and> signing_bytes dump_time e = Inr message
      \<and> edv (tk_public_key key) sig message)"

definition bound_request :: "instant claims \<Rightarrow> route_request \<Rightarrow> bool" where
  "bound_request c r \<longleftrightarrow>
     cl_issued_at c = rr_requested_at r
   \<and> rb_workflow_id (cl_request c) = rr_workflow_id r
   \<and> rb_task_id (cl_request c) = rr_task_id r
   \<and> rb_workload (cl_request c) = rr_workload r
   \<and> rb_context_tokens_estimated (cl_request c) = int (rr_context_tokens_estimated r)
   \<and> rb_max_output_tokens_estimated (cl_request c) = int (rr_max_output_tokens_estimated r)
   \<and> rb_structured_output_required (cl_request c) = rr_structured_output_required r
   \<and> rb_max_latency_ms (cl_request c) = int (rr_max_latency_ms r)
   \<and> cost_micros (rr_max_cost_usd r) = Inr (rb_max_cost_usd_micros (cl_request c))
   \<and> tier_value (sc_risk_tier (cl_scope c)) = risk_value (rr_risk_level r)
   \<and> sc_data_classification (cl_scope c) = rr_data_classification r"

definition trusted_provenance :: "'k verifier \<Rightarrow> policy_provenance \<Rightarrow> bool" where
  "trusted_provenance vf p \<longleftrightarrow> p = \<lparr>pv_policy_id = vf_policy_id vf,
     pv_policy_version = vf_policy_version vf, pv_policy_digest = vf_policy_digest vf,
     pv_control_catalog_id = vf_control_catalog_id vf,
     pv_control_catalog_version = vf_control_catalog_version vf,
     pv_control_catalog_digest = vf_control_catalog_digest vf\<rparr>"

definition control_allows :: "'k verifier \<Rightarrow> instant claims \<Rightarrow> bool" where
  "control_allows vf c \<longleftrightarrow> (case vf_runtime_control vf of None \<Rightarrow> True | Some read \<Rightarrow>
     (\<exists>s. read (uuid_str (sj_agent_id (cl_subject c))) = Inr (Some s) \<and> rs_state s = INACTIVE
       \<and> rs_revoked_through s < sj_agent_version (cl_subject c)))"

definition authorized ::
  "('k \<Rightarrow> bytes \<Rightarrow> bytes \<Rightarrow> bool) \<Rightarrow> (instant \<Rightarrow> string) \<Rightarrow> 'k verifier \<Rightarrow> instant envelope \<Rightarrow>
    route_request \<Rightarrow> instant \<Rightarrow> bool" where
  "authorized edv dump_time vf e r t \<longleftrightarrow>
     cl_issuer (ev_claims e) = vf_issuer vf \<and> vf_audience vf \<in> set (cl_audience (ev_claims e))
   \<and> in_time vf (ev_claims e) t \<and> trusted_signature edv dump_time vf e t
   \<and> bound_request (ev_claims e) r
   \<and> dict_get (vf_agent_bindings vf) (rr_agent_name r) = Some (sj_agent_id (cl_subject (ev_claims e)))
   \<and> trusted_provenance vf (cl_policy (ev_claims e)) \<and> control_allows vf (ev_claims e)"

section \<open>The checks decide the specification\<close>

lemma unit_Inr: "(\<exists>u. r = Inr u) \<longleftrightarrow> r = Inr ()" for r :: "('e, unit) result"
  by (metis (full_types) old.unit.exhaust)

lemma identity_and_time_iff:
  "verify_identity_and_time vf c t = Inr () \<longleftrightarrow>
    cl_issuer c = vf_issuer vf \<and> vf_audience vf \<in> set (cl_audience c) \<and> in_time vf c t"
  by (auto simp: verify_identity_and_time_def in_time_def result_iffs)

lemma key_signature_iff:
  "rbind (require_key vf e t) (verify_signature edv dump_time e) = Inr () \<longleftrightarrow>
    trusted_signature edv dump_time vf e t"
proof -
  have sig: "verify_signature edv dump_time e key = Inr () \<longleftrightarrow>
      (\<exists>sig message. decode_signature (ev_signature e) = Inr sig \<and> signing_bytes dump_time e = Inr message
        \<and> edv (tk_public_key key) sig message)" for key
    by (cases "decode_signature (ev_signature e)"; cases "signing_bytes dump_time e")
      (auto simp: verify_signature_def split: bool.splits)
  have key: "require_key vf e t = Inr key \<longleftrightarrow>
      resolve_key (vf_key_set vf) (ph_kid (ev_protected e)) = Some key
      \<and> tk_status key \<noteq> REVOKED_KEY \<and> tk_not_before key \<le> cl_issued_at (ev_claims e)
      \<and> cl_issued_at (ev_claims e) < tk_verify_until key \<and> t < tk_verify_until key + vf_clock_skew vf" for key
    by (auto simp: require_key_def result_iffs)
  show ?thesis
    unfolding rbind_Inr_iff sig key trusted_signature_def by blast
qed

lemma request_binding_iff: "verify_request_binding c r = Inr () \<longleftrightarrow> bound_request c r"
proof (cases "cost_micros (rr_max_cost_usd r)")
  case (Inl e)
  then show ?thesis by (simp add: verify_request_binding_def bound_request_def)
next
  case (Inr micros)
  have "sort xs = [] \<longleftrightarrow> xs = []" for xs :: "string list" by (metis mset_sort mset_zero_iff)
  then have "verify_request_binding c r = Inr () \<longleftrightarrow> filter snd (mismatches c r micros) = []"
    using Inr by (simp add: verify_request_binding_def Let_def result_iffs)
  also have "\<dots> \<longleftrightarrow> bound_request c r"
    using Inr by (simp add: filter_empty_conv mismatches_def Let_def bound_request_def)
  finally show ?thesis .
qed

lemma agent_binding_iff:
  "verify_agent_binding vf c a = Inr () \<longleftrightarrow>
    dict_get (vf_agent_bindings vf) a = Some (sj_agent_id (cl_subject c))"
  by (simp add: verify_agent_binding_def result_iffs)

lemma provenance_iff:
  "verify_policy_provenance vf c = Inr () \<longleftrightarrow> trusted_provenance vf (cl_policy c)"
  by (cases "cl_policy c") (auto simp: verify_policy_provenance_def trusted_provenance_def result_iffs)

lemma runtime_control_iff: "verify_runtime_control vf c = Inr () \<longleftrightarrow> control_allows vf c"
  by (auto simp: verify_runtime_control_def control_allows_def enforce_Inr_iff [symmetric]
      split: option.splits sum.splits)

lemma unit_bind_Inr: "rbind r (\<lambda>_. s) = Inr y \<longleftrightarrow> r = Inr () \<and> s = Inr y" for r :: "('e, unit) result"
  by (cases r) auto

lemma verify_checks_iff:
  "verify_checks edv dump_time vf e r now = Inr () \<longleftrightarrow>
    dt_offset now = Some 0 \<and> authorized edv dump_time vf e r (dt_wall now)"
proof -
  have key: "rbind (require_key vf e t) (\<lambda>key. rbind (verify_signature edv dump_time e key) (\<lambda>_. m)) =
      rbind (rbind (require_key vf e t) (verify_signature edv dump_time e)) (\<lambda>_. m)" for t m
    by (cases "require_key vf e t") simp_all
  show ?thesis
    unfolding verify_checks_def Let_def key unit_bind_Inr require_utc_iff identity_and_time_iff
      key_signature_iff request_binding_iff agent_binding_iff provenance_iff runtime_control_iff
      authorized_def by blast
qed

lemma verify_eq:
  "verify consume edv dump_time vf s e r now =
    (if verify_checks edv dump_time vf e r now = Inr ()
     then (fst (consume s (cl_authorization_id (ev_claims e)) (cl_expires_at (ev_claims e)) (dt_wall now)),
       rbind (consumed (snd (consume s (cl_authorization_id (ev_claims e)) (cl_expires_at (ev_claims e))
         (dt_wall now)))) (\<lambda>_. Inr \<lparr>va_envelope = e, va_verified_at = dt_wall now,
               va_key_set_generation = ks_generation (vf_key_set vf)\<rparr>))
     else (s, Inl (projl (verify_checks edv dump_time vf e r now))))"
  by (cases "verify_checks edv dump_time vf e r now")
    (simp_all add: verify_def Let_def case_prod_unfold)

lemma consumed_Inr: "consumed outcome = Inr u \<longleftrightarrow> outcome = Inr True"
  by (cases outcome) (auto simp: consumed_def result_iffs split: auth_error.splits)

lemma verify_Inr_iff:
  "snd (verify consume edv dump_time vf s e r now) = Inr v \<longleftrightarrow>
    dt_offset now = Some 0 \<and> authorized edv dump_time vf e r (dt_wall now)
    \<and> snd (consume s (cl_authorization_id (ev_claims e)) (cl_expires_at (ev_claims e)) (dt_wall now)) = Inr True
    \<and> v = \<lparr>va_envelope = e, va_verified_at = dt_wall now,
           va_key_set_generation = ks_generation (vf_key_set vf)\<rparr>"
  by (auto simp: verify_eq verify_checks_iff rbind_Inr_iff consumed_Inr)

lemma verify_state:
  "fst (verify consume edv dump_time vf s e r now) =
    (if dt_offset now = Some 0 \<and> authorized edv dump_time vf e r (dt_wall now)
     then fst (consume s (cl_authorization_id (ev_claims e)) (cl_expires_at (ev_claims e)) (dt_wall now))
     else s)"
  by (simp add: verify_eq verify_checks_iff)

section \<open>Single use over sequences of verifications\<close>

text \<open>A call: the verifier as configured then, the envelope, the request and the clock.\<close>

type_synonym 'k verify_call = "'k verifier \<times> instant envelope \<times> route_request \<times> datetime"

fun verify_all ::
  "'s consume \<Rightarrow> ('k \<Rightarrow> bytes \<Rightarrow> bytes \<Rightarrow> bool) \<Rightarrow> (instant \<Rightarrow> string) \<Rightarrow> 's \<Rightarrow> 'k verify_call list \<Rightarrow> 's" where
  "verify_all consume edv dump_time s [] = s"
| "verify_all consume edv dump_time s ((vf, e, r, now) # calls) =
    verify_all consume edv dump_time (fst (verify consume edv dump_time vf s e r now)) calls"

abbreviation call_time :: "'k verify_call \<Rightarrow> instant" where
  "call_time call \<equiv> dt_wall (snd (snd (snd call)))"

text \<open>To the guard, a sequence of verifications is a sequence of consumptions.\<close>

lemma verify_all_consumes:
  "\<exists>cs. verify_all consume edv dump_time s calls = consume_all consume s cs
    \<and> (snd \<circ> snd) ` set cs \<subseteq> call_time ` set calls"
proof (induction calls arbitrary: s)
  case Nil
  then show ?case by (intro exI [of _ "[]"]) simp
next
  case (Cons call calls)
  obtain vf e r now where call: "call = (vf, e, r, now)" by (cases call)
  let ?c = "(cl_authorization_id (ev_claims e), cl_expires_at (ev_claims e), dt_wall now)"
  obtain cs where cs: "verify_all consume edv dump_time (fst (verify consume edv dump_time vf s e r now)) calls
      = consume_all consume (fst (verify consume edv dump_time vf s e r now)) cs"
    "(snd \<circ> snd) ` set cs \<subseteq> call_time ` set calls" using Cons.IH by blast
  show ?case
  proof (cases "dt_offset now = Some 0 \<and> authorized edv dump_time vf e r (dt_wall now)")
    case True
    with cs call show ?thesis by (intro exI [of _ "?c # cs"]) (auto simp: verify_state)
  next
    case False
    then have "fst (verify consume edv dump_time vf s e r now) = s"
      by (simp only: verify_state if_False)
    with cs call show ?thesis by (intro exI [of _ cs]) auto
  qed
qed

context replay_guard
begin

text \<open>
  Whatever guard keeps the contract: an authorization that was accepted is not accepted again
  before it expires.
\<close>

lemma verified_once:
  assumes "inv s" "snd (verify consume edv dump_time vf s e r now) = Inr v"
    and "\<forall>call \<in> set between. call_time call \<le> dt_wall now'" "dt_wall now \<le> dt_wall now'"
    and "ev_claims e' = ev_claims e" "dt_wall now' < cl_expires_at (ev_claims e)"
  shows "snd (verify consume edv dump_time vf'
    (verify_all consume edv dump_time (fst (verify consume edv dump_time vf s e r now)) between) e' r' now')
    \<noteq> Inr v'"
proof -
  let ?i = "cl_authorization_id (ev_claims e)" and ?x = "cl_expires_at (ev_claims e)"
  have first: "snd (consume s ?i ?x (dt_wall now)) = Inr True"
    and st: "fst (verify consume edv dump_time vf s e r now) = fst (consume s ?i ?x (dt_wall now))"
    using assms(2) by (simp_all add: verify_Inr_iff verify_state)
  obtain cs where cs: "verify_all consume edv dump_time (fst (consume s ?i ?x (dt_wall now))) between =
      consume_all consume (fst (consume s ?i ?x (dt_wall now))) cs"
    "(snd \<circ> snd) ` set cs \<subseteq> call_time ` set between"
    using verify_all_consumes [of consume edv dump_time "fst (consume s ?i ?x (dt_wall now))" between]
    by (elim exE conjE) (rule that)
  have "\<forall>c \<in> set cs. snd (snd c) \<le> dt_wall now'"
  proof
    fix c assume "c \<in> set cs"
    then have "snd (snd c) \<in> call_time ` set between" using cs(2) by auto
    with assms(3) show "snd (snd c) \<le> dt_wall now'" by auto
  qed
  from single_use [OF assms(1) first this assms(4,6), of ?x]
  have "snd (consume (verify_all consume edv dump_time
      (fst (verify consume edv dump_time vf s e r now)) between) ?i ?x (dt_wall now')) \<noteq> Inr True"
    unfolding st cs(1) .
  then show ?thesis by (simp only: verify_Inr_iff assms(5) not_False_eq_True simp_thms)
qed

text \<open>With no clock skew it is not accepted again at any later time.\<close>

lemma never_verified_again:
  assumes "inv s" "snd (verify consume edv dump_time vf s e r now) = Inr v"
    and "\<forall>call \<in> set between. call_time call \<le> dt_wall now'" "dt_wall now \<le> dt_wall now'"
    and "ev_claims e' = ev_claims e" "vf_clock_skew vf' = 0"
  shows "snd (verify consume edv dump_time vf'
    (verify_all consume edv dump_time (fst (verify consume edv dump_time vf s e r now)) between) e' r' now')
    \<noteq> Inr v'"
proof (cases "dt_wall now' < cl_expires_at (ev_claims e)")
  case True
  with assms show ?thesis by (intro verified_once)
next
  case False
  with assms(5,6) have "\<not> authorized edv dump_time vf' e' r' (dt_wall now')"
    by (simp add: authorized_def in_time_def)
  then show ?thesis unfolding verify_Inr_iff by blast
qed

end

lemma verify_all_im_inv: "im_inv g \<Longrightarrow> im_inv (verify_all im_consume edv dump_time g calls)"
  using verify_all_consumes [of im_consume edv dump_time g calls] consume_all_wf by metis

section \<open>The cost in micros\<close>

lemma to_integral_eq: "dec_eq d (dec_to_integral d) \<Longrightarrow> of_nat (dec_int (dec_to_integral d)) = dval d"
  by (cases d) (auto simp: dec_eq_iff power_int_def)

text \<open>Every cost below \<open>10 ^ 22\<close> units of its last place is multiplied exactly.\<close>

lemma cost_micros_exact_aux:
  assumes "coeff d < 10 ^ 22" "dec_etiny \<le> dexp d" "dexp d \<le> dec_etop"
  shows "cost_micros d = Inr m \<longleftrightarrow> dval d * 10 ^ 6 = of_int m \<and> 0 \<le> m"
proof -
  have mul: "dec_mul d million = Some (Dec (coeff d * 1000000) (dexp d))"
    using dec_mul_exact [of d million] assms by (simp add: million_def dec_of_nat_def dec_prec_def)
  define p where "p = Dec (coeff d * 1000000) (dexp d)"
  have val: "dval p = dval d * 10 ^ 6" by (cases d) (simp add: p_def)
  have iff: "dec_eq p (dec_to_integral p) \<longleftrightarrow> (\<exists>n :: nat. dval p = of_nat n)"
  proof
    assume "dec_eq p (dec_to_integral p)"
    then have "of_nat (dec_int (dec_to_integral p)) = dval p" by (rule to_integral_eq)
    then show "\<exists>n :: nat. dval p = of_nat n" by metis
  next
    assume "\<exists>n :: nat. dval p = of_nat n"
    then obtain n where n: "dval p = of_nat n" by blast
    show "dec_eq p (dec_to_integral p)"
    proof (cases "0 \<le> dexp p")
      case True
      then show ?thesis by (cases p) (simp add: dec_eq_iff)
    next
      case False
      define k where "k = nat (- dexp p)"
      have "dexp p = - int k" using False by (simp add: k_def)
      then have "dval p = of_nat (coeff p) / 10 ^ k"
        by (simp add: dval_alt power_int_minus divide_inverse)
      then have "rat_of_nat (coeff p) = of_nat (n * 10 ^ k)" using n by (simp add: field_simps)
      then have "coeff p = n * 10 ^ k" by (simp only: of_nat_eq_iff)
      then have "round_half_even (coeff p) k = n" by (simp add: round_half_even_def Let_def)
      with False n show ?thesis by (cases p) (simp add: dec_eq_iff k_def)
    qed
  qed
  show ?thesis
  proof (cases "dec_eq p (dec_to_integral p)")
    case True
    then have "of_nat (dec_int (dec_to_integral p)) = dval p" by (rule to_integral_eq)
    then have "(int (dec_int (dec_to_integral p)) = m) \<longleftrightarrow> dval p = of_int m \<and> 0 \<le> m"
      by (metis of_int_eq_iff of_int_of_nat_eq of_nat_0_le_iff)
    with True mul show ?thesis by (simp add: cost_micros_def p_def [symmetric] val Let_def)
  next
    case False
    have "\<not> (dval d * 10 ^ 6 = of_int m \<and> 0 \<le> m)"
    proof
      assume "dval d * 10 ^ 6 = of_int m \<and> 0 \<le> m"
      then have "dval p = of_nat (nat m)" by (simp add: val)
      with False iff show False by blast
    qed
    with False mul show ?thesis by (simp add: cost_micros_def p_def [symmetric] Let_def)
  qed
qed

section \<open>A sample verification\<close>

text \<open>A verifier that trusts one key, with the given clock skew, and accepts every signature.\<close>

definition sample_verifier :: "int \<Rightarrow> unit verifier" where
  "sample_verifier skew =
    \<lparr>vf_key_set = \<lparr>ks_generation = 1, ks_keys = [\<lparr>tk_kid = ''k1'', tk_status = ACTIVE_KEY,
       tk_public_key = (), tk_not_before = 0, tk_verify_until = 1800000000000000\<rparr>]\<rparr>,
     vf_issuer = ''governance'', vf_audience = ''policy-model-router'',
     vf_agent_bindings = [(''credit-analysis-agent'', 7)],
     vf_policy_id = ''policy'', vf_policy_version = ''1'', vf_policy_digest = sample_digest,
     vf_control_catalog_id = ''catalog'', vf_control_catalog_version = ''1'',
     vf_control_catalog_digest = sample_digest,
     vf_runtime_control = Some (redis_read sample_get sample_store), vf_clock_skew = skew\<rparr>"

abbreviation sample_edv :: "unit \<Rightarrow> bytes \<Rightarrow> bytes \<Rightarrow> bool" where
  "sample_edv \<equiv> \<lambda>_ _ _. True"

lemma sample_cost: "cost_micros (rr_max_cost_usd readme_request) = Inr 1000000"
proof -
  have "rr_max_cost_usd readme_request = Dec 100 (-2)" by (simp add: readme_request_def)
  moreover have "cost_micros (Dec 100 (-2)) = Inr 1000000"
    using cost_micros_exact_aux [of "Dec 100 (-2)" 1000000]
    by (simp add: dec_context power_int_minus)
  ultimately show ?thesis by simp
qed

lemma sample_control: "control_allows (sample_verifier skew) sample_claims"
proof -
  have "redis_read sample_get sample_store (uuid_str 7) = Inr (Some sample_snapshot)"
    using sample_read by (simp only: sample_uuid sample_snapshot_def control_snapshot.simps)
  then show ?thesis
    by (simp add: control_allows_def sample_verifier_def sample_claims_def sample_snapshot_def)
qed

lemma sample_signature:
  "t < 1800000000000000 + skew \<Longrightarrow>
    trusted_signature sample_edv sample_dump (sample_verifier skew) sample_envelope t"
proof -
  have "str_field 86 86 signature_pattern (ev_signature sample_envelope) = Some (ev_signature sample_envelope)"
    by code_simp
  from accepted_signature [OF this] obtain sg where "decode_signature (ev_signature sample_envelope) = Inr sg"
    by blast
  moreover obtain b where "signing_bytes sample_dump sample_envelope = Inr b" using sample_signing by blast
  ultimately show "t < 1800000000000000 + skew \<Longrightarrow> ?thesis"
    by (simp add: trusted_signature_def sample_verifier_def resolve_key_def)
      (simp add: sample_envelope_def sample_claims_def)
qed

lemma sample_authorized:
  assumes "1784721600000000 \<le> t" "t < 1784721900000000 + skew" "0 \<le> skew"
  shows "authorized sample_edv sample_dump (sample_verifier skew) sample_envelope readme_request t"
proof -
  have "bound_request sample_claims readme_request"
    using sample_cost by (simp add: bound_request_def sample_claims_def readme_request_def sample_scope_def)
  moreover have "trusted_signature sample_edv sample_dump (sample_verifier skew) sample_envelope t"
    using assms by (intro sample_signature) simp
  moreover have "in_time (sample_verifier skew) sample_claims t"
    using assms by (simp add: in_time_def sample_verifier_def sample_claims_def)
  moreover have "ev_claims sample_envelope = sample_claims" by (simp add: sample_envelope_def)
  ultimately show ?thesis
    using sample_control [of skew]
    by (simp add: authorized_def) (simp add: sample_verifier_def sample_claims_def readme_request_def
        trusted_provenance_def)
qed

definition sample_guard :: im_guard where
  "sample_guard = \<lparr>ig_max_entries = 10, ig_entries = []\<rparr>"

lemma sample_guard_new: "InMemoryGuard 10 = Inr sample_guard"
  by (simp add: InMemoryGuard_def sample_guard_def)

lemma sample_verified:
  assumes "0 \<le> skew"
  shows "\<exists>v. snd (verify im_consume sample_edv sample_dump (sample_verifier skew) sample_guard
    sample_envelope readme_request (utc 1784721600000000)) = Inr v"
  using sample_authorized [of 1784721600000000 skew] assms
  by (simp add: verify_Inr_iff utc_def im_consume_def sample_guard_def live_entries_def dict_has_def
      Let_def)

section \<open>Properties\<close>

text \<open>
  C3. Verification implements its specification: for every guard, key library, store and
  envelope, \<open>verify\<close> succeeds exactly when the clock reads UTC, the request is authorized in the
  abstract sense (issuer, audience, time, trusted unrevoked key and signature, every bound field,
  agent, provenance, kill switch) and the guard newly consumes the identifier; and whenever the
  request is not authorized, the guard is not touched at all.
\<close>

theorem verify_implements_authorized:
  "(returns (snd (verify consume edv dump_time vf s e r now)) \<longleftrightarrow>
     dt_offset now = Some 0 \<and> authorized edv dump_time vf e r (dt_wall now)
     \<and> snd (consume s (cl_authorization_id (ev_claims e)) (cl_expires_at (ev_claims e)) (dt_wall now)) = Inr True)
   \<and> fst (verify consume edv dump_time vf s e r now) =
     (if dt_offset now = Some 0 \<and> authorized edv dump_time vf e r (dt_wall now)
      then fst (consume s (cl_authorization_id (ev_claims e)) (cl_expires_at (ev_claims e)) (dt_wall now))
      else s)"
  unfolding verify_Inr_iff verify_state by blast



text \<open>
  C18. With a clock skew the promise is weaker than single use: in the window of \<open>skew\<close> seconds
  after its expiry an authorization is still accepted, but the guard has already released it, so
  an envelope consumed before its expiry is accepted a second time.
\<close>

theorem replay_within_skew:
  assumes "InMemoryGuard m = Inr g"
    and "snd (verify im_consume edv dump_time vf g e r now) = Inr v"
    and "dt_offset now' = Some 0" "authorized edv dump_time vf e r (dt_wall now')"
    and "cl_expires_at (ev_claims e) \<le> dt_wall now'"
  shows "\<exists>v'. snd (verify im_consume edv dump_time vf
    (fst (verify im_consume edv dump_time vf g e r now)) e r now') = Inr v'"
proof -
  let ?i = "cl_authorization_id (ev_claims e)" and ?x = "cl_expires_at (ev_claims e)"
  have g: "g = \<lparr>ig_max_entries = m, ig_entries = []\<rparr>" "1 \<le> m"
    using assms(1) by (auto simp: InMemoryGuard_def result_iffs)
  have "fst (verify im_consume edv dump_time vf g e r now) = fst (im_consume g ?i ?x (dt_wall now))"
    using assms(2) by (simp add: verify_Inr_iff verify_state)
  also have "\<dots> = g\<lparr>ig_entries := [(?i, ?x)]\<rparr>"
    using g by (simp add: im_consume_def live_entries_def dict_has_def Let_def)
  finally have st: "fst (verify im_consume edv dump_time vf g e r now) = g\<lparr>ig_entries := [(?i, ?x)]\<rparr>" .
  have "snd (im_consume (g\<lparr>ig_entries := [(?i, ?x)]\<rparr>) ?i ?x (dt_wall now')) = Inr True"
    using g assms(5) by (simp add: im_consume_def live_entries_def dict_has_def Let_def)
  with assms(3,4) show ?thesis by (simp add: verify_Inr_iff st)
qed

theorem replay_within_skew_witness:
  "\<exists>v'. snd (verify im_consume sample_edv sample_dump (sample_verifier 60000000)
    (fst (verify im_consume sample_edv sample_dump (sample_verifier 60000000) sample_guard
      sample_envelope readme_request (utc 1784721600000000)))
    sample_envelope readme_request (utc 1784721930000000)) = Inr v'"
proof -
  obtain v where v: "snd (verify im_consume sample_edv sample_dump (sample_verifier 60000000) sample_guard
    sample_envelope readme_request (utc 1784721600000000)) = Inr v"
    using sample_verified [of 60000000] by auto
  have "authorized sample_edv sample_dump (sample_verifier 60000000) sample_envelope readme_request
      1784721930000000" by (rule sample_authorized) simp_all
  with replay_within_skew [OF sample_guard_new v, of "utc 1784721930000000"]
  show ?thesis by (simp add: utc_def sample_envelope_def sample_claims_def)
qed

section \<open>What an error says\<close>

lemma unit_rbind_Inl:
  "rbind r (\<lambda>_. s) = Inl e \<longleftrightarrow> r = Inl e \<or> r = Inr () \<and> s = Inl e" for r :: "('e, unit) result"
  by (cases r) auto

lemma raised: "raise_if c err = Inl e \<Longrightarrow> e = err"
  by (simp add: raise_if_Inl_iff)

definition flagged :: "auth_error \<Rightarrow> bool" where
  "flagged err \<longleftrightarrow> (\<exists>code message. err = RuntimeAuthorizationError code message True)"

lemma flagged_simps [simp]:
  "flagged (RuntimeAuthorizationError c m b) \<longleftrightarrow> b" "\<not> flagged (OtherException n)"
  by (auto simp: flagged_def)

lemma checks_unverified:
  "verify_identity_and_time vf c t = Inl err \<Longrightarrow> \<not> flagged err"
  "require_utc now = Inl err \<Longrightarrow> \<not> flagged err"
  "require_key vf e t = Inl err \<Longrightarrow> \<not> flagged err"
  "verify_signature edv dump_time e key = Inl err \<Longrightarrow> \<not> flagged err"
  "verify_request_binding c r = Inl err \<Longrightarrow> \<not> flagged err"
  "verify_agent_binding vf c a = Inl err \<Longrightarrow> \<not> flagged err"
  "verify_policy_provenance vf c = Inl err \<Longrightarrow> \<not> flagged err"
  by (auto simp: verify_identity_and_time_def require_utc_def require_key_def verify_signature_def
      verify_request_binding_def cost_micros_def verify_agent_binding_def verify_policy_provenance_def
      Let_def result_iffs split: sum.splits bool.splits)

text \<open>Everything but the kill switch.\<close>

abbreviation uncontrolled :: "'k verifier \<Rightarrow> 'k verifier" where
  "uncontrolled vf \<equiv> vf\<lparr>vf_runtime_control := None\<rparr>"

lemma uncontrolled_checks:
  "verify_identity_and_time (uncontrolled vf) = verify_identity_and_time vf"
  "require_key (uncontrolled vf) = require_key vf"
  "verify_agent_binding (uncontrolled vf) = verify_agent_binding vf"
  "verify_policy_provenance (uncontrolled vf) = verify_policy_provenance vf"
  "verify_runtime_control (uncontrolled vf) c = Inr ()"
  by (simp_all add: fun_eq_iff verify_identity_and_time_def require_key_def verify_agent_binding_def
      verify_policy_provenance_def verify_runtime_control_def)

lemma verify_checks_split:
  "verify_checks edv dump_time vf e r now =
    rbind (verify_checks edv dump_time (uncontrolled vf) e r now) (\<lambda>_. verify_runtime_control vf (ev_claims e))"
  by (simp add: verify_checks_def Let_def uncontrolled_checks rbind_assoc)

lemma verify_checks_flagged:
  assumes "verify_checks edv dump_time vf e r now = Inl err" "flagged err"
  shows "verify_checks edv dump_time (uncontrolled vf) e r now = Inr ()
    \<and> verify_runtime_control vf (ev_claims e) = Inl err"
proof -
  have "\<not> flagged err'" if "verify_checks edv dump_time (uncontrolled vf) e r now = Inl err'" for err'
    using that unfolding verify_checks_def Let_def uncontrolled_checks
    by (auto simp: rbind_Inl_iff dest: checks_unverified)
  with assms show ?thesis unfolding verify_checks_split [of edv dump_time vf] by (auto simp: unit_rbind_Inl)
qed

lemma control_codes:
  "verify_runtime_control vf c = Inl err \<Longrightarrow> err_code err \<in>
    {''kill_switch_engaged'', ''runtime_authorization_revoked'', ''runtime_control_unavailable''}"
  by (auto simp: verify_runtime_control_def enforce_def control_unavailable_def result_iffs
      split: option.splits sum.splits)

text \<open>
  C20. A denial that claims \<open>authorization_verified\<close> is honest: it comes from the kill switch,
  with one of its three codes, and only after everything else about the authorization and its
  binding to the request held. (The guard itself never sets the flag.)
\<close>

theorem verified_flag_honest:
  assumes "snd (verify consume edv dump_time vf s e r now) = Inl err" "flagged err"
    and "\<And>s i x t err. snd (consume s i x t) = Inl err \<Longrightarrow> \<not> flagged err"
  shows "authorized edv dump_time (vf\<lparr>vf_runtime_control := None\<rparr>) e r (dt_wall now)
    \<and> \<not> control_allows vf (ev_claims e)
    \<and> err_code err \<in> {''kill_switch_engaged'', ''runtime_authorization_revoked'',
         ''runtime_control_unavailable''}"
proof (cases "verify_checks edv dump_time vf e r now")
  case (Inl err')
  with assms(1) have "verify_checks edv dump_time vf e r now = Inl err" by (simp add: verify_def)
  from verify_checks_flagged [OF this assms(2)] show ?thesis
    using verify_checks_iff [of edv dump_time "uncontrolled vf" e r now]
      runtime_control_iff [of vf "ev_claims e"] control_codes [of vf "ev_claims e" err] by auto
next
  case (Inr u)
  let ?out = "snd (consume s (cl_authorization_id (ev_claims e)) (cl_expires_at (ev_claims e)) (dt_wall now))"
  from Inr assms(1) have "consumed ?out = Inl err"
    by (simp add: verify_def Let_def case_prod_unfold rbind_Inl_iff)
  with assms(2) have "?out = Inl err"
    by (cases ?out) (auto simp: consumed_def store_unavailable_def result_iffs split: auth_error.splits)
  with assms(2,3) show ?thesis by blast
qed

lemma im_consume_unflagged: "snd (im_consume g i x t) = Inl err \<Longrightarrow> \<not> flagged err"
  by (auto simp: im_consume_def Let_def store_full_def split: if_splits)

theorem verified_flag_honest_witness:
  "\<not> control_allows ((sample_verifier 0)\<lparr>vf_runtime_control := Some (\<lambda>_. Inr None)\<rparr>)
    (ev_claims sample_envelope)"
proof -
  let ?vf = "(sample_verifier 0)\<lparr>vf_runtime_control := Some (\<lambda>_. Inr None)\<rparr>"
  have "authorized sample_edv sample_dump (uncontrolled ?vf) sample_envelope readme_request 1784721600000000"
    using sample_authorized [of 1784721600000000 0]
    by (simp add: authorized_def in_time_def trusted_signature_def trusted_provenance_def
        control_allows_def)
  then have "verify_checks sample_edv sample_dump (uncontrolled ?vf) sample_envelope readme_request
      (utc 1784721600000000) = Inr ()"
    by (simp add: verify_checks_iff utc_def del: verifier.update_convs)
  then have "snd (verify im_consume sample_edv sample_dump ?vf sample_guard sample_envelope
      readme_request (utc 1784721600000000)) =
    Inl (RuntimeAuthorizationError ''runtime_control_unavailable''
      ''Runtime control state is unavailable'' True)"
    using verify_checks_split [of sample_edv sample_dump ?vf]
    by (simp add: verify_def verify_runtime_control_def enforce_def control_unavailable_def
        del: verifier.update_convs)
  from verified_flag_honest [OF this _ im_consume_unflagged] show ?thesis by simp
qed

text \<open>
  The signed ceiling is compared exactly: for a cost of fewer than 23 significant digits, the
  micros are the cost times one million and nothing else, and a cost that is no whole number of
  micros is refused.
\<close>

theorem cost_micros_exact:
  assumes "coeff d < 10 ^ 22" "dec_etiny \<le> dexp d" "dexp d \<le> dec_etop"
  shows "cost_micros d = Inr m \<longleftrightarrow> dval d * 10 ^ 6 = of_int m \<and> 0 \<le> m"
  using assms by (rule cost_micros_exact_aux)

theorem cost_micros_exact_witness: "cost_micros (Dec 1234567 (-6)) = Inr 1234567"
proof -
  have "dval (Dec 1234567 (-6)) * 10 ^ 6 = of_int 1234567" by (simp add: power_int_minus)
  with cost_micros_exact [of "Dec 1234567 (-6)" 1234567] show ?thesis by (simp add: dec_context)
qed


end
