(* ===== verification/Http_Service.thy ===== *)
theory Http_Service
  imports Wire_Contract Body_Admission Violation Rate_Limiter Verifier_Properties
begin

text \<open>
  The HTTP service of \<open>entrypoints/http.py\<close>: the application state, \<open>_authenticate\<close>, the
  \<open>route\<close> handler statement by statement, the exception handlers, the correlation identifier,
  the probes, the whole path of one request, and the policy reload.

  \<^item> \<open>service\<close> is \<open>app.state\<close> with the process-wide counters; \<open>request_state\<close> is what the
    handler stores on \<open>request.state\<close> for the exception handlers.
  \<^item> \<open>ports\<close> are what the service is built over: the limiters' \<open>allow\<close> at a monotonic time, the
    replay guard, Ed25519, pydantic's text of an instant, the availability provider.
  \<^item> \<open>call_env\<close> is what one call reads from the clocks and identifier generators.
  \<^item> The handler is one step: its awaits (limiter, guard, provider) are atomic in the shipped
    adapters. \<open>Concurrent_Service\<close> splits it where other requests may come between. Its use case is an argument, as it is resolved once before the handler runs.
  \<^item> Parsing a JSON body into the request classes is the framework's: a parameter \<open>parse\<close>.
    Spans, log lines and observed durations are not modelled; labels of metrics are.
\<close>

section \<open>State\<close>

datatype metric =
    RouteDecisions (m_workload: string) (m_model_group: string)
  | RouteRejections (m_workload: string) (m_outcome: string)
  | RouteDuration (m_workload: string)
  | RateLimitDecisions (m_tier: string) (m_outcome: string)
  | RuntimeAuthorizations (m_outcome: string)
  | PolicyReloads (m_outcome: string)
  | RuntimeViolations (m_category: string) (m_code: string)

record ('k, 'l, 'g) service =
  sv_use_case :: route_use_case
  sv_api_keys :: "(string, string) dict"
  sv_max_request_body_bytes :: int
  sv_service_version :: string
  sv_environment :: string
  sv_authorization_required :: bool
  sv_verifier :: "'k verifier option"
  sv_guard :: 'g
  sv_rate_limiter :: 'l
  sv_ip_rate_limiter :: 'l
  sv_metrics :: "metric list"

record request_state =
  rs_correlation_id :: string
  rs_route_request :: "route_request option"
  rs_authorization :: "instant envelope option"
  rs_authorization_verified :: bool
  rs_selected_model_group :: "string option"

record ('k, 'l, 'g) ports =
  pt_allow :: "rat \<Rightarrow> 'l \<Rightarrow> string \<Rightarrow> 'l \<times> bool"
  pt_consume :: "'g consume"
  pt_edv :: "'k \<Rightarrow> bytes \<Rightarrow> bytes \<Rightarrow> bool"
  pt_dump_time :: "instant \<Rightarrow> string"
  pt_resolve :: availability_fn

record call_env =
  ce_monotonic :: rat
  ce_now :: datetime
  ce_decision_id :: string
  ce_decided_at :: instant
  ce_event_id :: uuid
  ce_event_at :: instant
  ce_fresh_id :: string

datatype service_error =
    AuthenticationError string
  | RateLimitExceededError string
  | AuthorizationFailure auth_error
  | RoutingFailure route_error
  | UnhandledException string

text \<open>A statement of the handler: it changes the state, and returns or raises.\<close>

type_synonym ('k, 'l, 'g) handling_state = "('k, 'l, 'g) service \<times> request_state"

type_synonym ('k, 'l, 'g, 'a) action =
  "('k, 'l, 'g) handling_state \<Rightarrow> ('k, 'l, 'g) handling_state \<times> (service_error, 'a) result"

definition then_do :: "('k, 'l, 'g, 'a) action \<Rightarrow> ('a \<Rightarrow> ('k, 'l, 'g, 'b) action) \<Rightarrow> ('k, 'l, 'g, 'b) action" where
  "then_do m f c = (case m c of (c', Inl e) \<Rightarrow> (c', Inl e) | (c', Inr x) \<Rightarrow> f x c')"

definition count :: "metric list \<Rightarrow> ('k, 'l, 'g) service \<Rightarrow> ('k, 'l, 'g) service" where
  "count ms sv = sv\<lparr>sv_metrics := sv_metrics sv @ ms\<rparr>"

section \<open>Authentication\<close>

text \<open>\<open>secrets.compare_digest\<close> on two \<open>str\<close>: only ASCII strings are supported.\<close>

definition ascii_str :: "string \<Rightarrow> bool" where
  "ascii_str s \<longleftrightarrow> list_all is_ascii s"

definition compare_digest :: "string \<Rightarrow> string \<Rightarrow> (service_error, bool) result" where
  "compare_digest a b =
    (if ascii_str a \<and> ascii_str b then Inr (a = b) else Inl (UnhandledException ''TypeError''))"

definition authenticate ::
  "string option \<Rightarrow> string \<Rightarrow> (string, string) dict \<Rightarrow> (service_error, unit) result" where
  "authenticate x_api_key agent_name api_keys =
    (let rejected = AuthenticationError
           (''missing or invalid API key for agent '' @ py_repr agent_name)
     in case dict_get api_keys agent_name of
          None \<Rightarrow> Inl rejected
        | Some configured_key \<Rightarrow>
            (case x_api_key of
               None \<Rightarrow> Inl rejected
             | Some k \<Rightarrow> rbind (compare_digest k configured_key) (\<lambda>same. raise_if (\<not> same) rejected)))"

section \<open>The handler of \<open>POST /route\<close>\<close>

definition limit_agent :: "('k, 'l, 'g) ports \<Rightarrow> call_env \<Rightarrow> string \<Rightarrow> ('k, 'l, 'g, unit) action" where
  "limit_agent pt env rate_limit_key = (\<lambda>(sv, rs).
    (let (limiter, agent_allowed) = pt_allow pt (ce_monotonic env) (sv_rate_limiter sv) rate_limit_key
     in ((count [RateLimitDecisions ''per_agent'' (outcome_label agent_allowed)]
            (sv\<lparr>sv_rate_limiter := limiter\<rparr>), rs),
         raise_if (\<not> agent_allowed)
           (RateLimitExceededError (''rate limit exceeded for '' @ py_repr rate_limit_key)))))"

definition authorize ::
  "('k, 'l, 'g) ports \<Rightarrow> call_env \<Rightarrow> instant envelope option \<Rightarrow> route_request
    \<Rightarrow> ('k, 'l, 'g, verified_authorization option) action" where
  "authorize pt env authorization request = (\<lambda>(sv, rs).
    if sv_authorization_required sv then
      (case authorization of
         None \<Rightarrow> ((sv, rs), Inl (AuthorizationFailure (denied ''runtime_authorization_required''
           ''Signed Governance runtime authorization is required'')))
       | Some a \<Rightarrow>
         (case sv_verifier sv of
            None \<Rightarrow> ((sv, rs), Inl (AuthorizationFailure (denied ''runtime_authorization_unavailable''
              ''Runtime authorization verifier is unavailable'')))
          | Some vf \<Rightarrow>
            (case verify (pt_consume pt) (pt_edv pt) (pt_dump_time pt) vf (sv_guard sv) a request (ce_now env) of
               (g, Inl e) \<Rightarrow> ((sv\<lparr>sv_guard := g\<rparr>, rs), Inl (AuthorizationFailure e))
             | (g, Inr verified) \<Rightarrow>
                 ((count [RuntimeAuthorizations ''verified''] (sv\<lparr>sv_guard := g\<rparr>),
                   rs\<lparr>rs_authorization_verified := True\<rparr>), Inr (Some verified)))))
    else if authorization \<noteq> None then
      ((sv, rs), Inl (AuthorizationFailure (denied ''runtime_authorization_not_configured''
        ''Runtime authorization is disabled for this deployment'')))
    else ((count [RuntimeAuthorizations ''legacy_dev''] sv, rs), Inr None))"

definition undeclared_workload_label :: string where
  "undeclared_workload_label = ''undeclared''"

definition workload_label :: "route_use_case \<Rightarrow> string \<Rightarrow> string" where
  "workload_label use_case workload =
    (if declares_workload use_case workload then workload else undeclared_workload_label)"

fun rejection_metric :: "string \<Rightarrow> (route_error, route_decision) result \<Rightarrow> metric list" where
  "rejection_metric label (Inl (NoViableModelGroupError x)) = [RouteRejections label ''no_viable_model_group'']"
| "rejection_metric label (Inl (IncompleteRoutingPolicyError m)) = [RouteRejections label ''misconfigured_policy'']"
| "rejection_metric label _ = []"

definition decide ::
  "('k, 'l, 'g) ports \<Rightarrow> call_env \<Rightarrow> route_use_case \<Rightarrow> route_request \<Rightarrow> bool
    \<Rightarrow> ('k, 'l, 'g, route_decision) action" where
  "decide pt env use_case request include = (\<lambda>(sv, rs).
    (let label = workload_label use_case (rr_workload request);
         outcome = route use_case (pt_resolve pt) (ce_decision_id env) (ce_decided_at env) request include
     in ((count (rejection_metric label outcome @ [RouteDuration label]) sv, rs),
         (case outcome of Inl e \<Rightarrow> Inl (RoutingFailure e) | Inr d \<Rightarrow> Inr d))))"

definition require_signed_scope ::
  "verified_authorization option \<Rightarrow> route_decision \<Rightarrow> ('k, 'l, 'g, unit) action" where
  "require_signed_scope verified decision = (\<lambda>(sv, rs).
    (case verified of
       None \<Rightarrow> ((sv, rs), Inr ())
     | Some v \<Rightarrow>
         ((sv, rs\<lparr>rs_selected_model_group := Some (rd_selected_model_group decision)\<rparr>),
          (case require_selected_model v (rd_selected_model_group decision) of
             Inl e \<Rightarrow> Inl (AuthorizationFailure e)
           | Inr u \<Rightarrow> Inr u))))"

definition answer :: "route_use_case \<Rightarrow> route_request \<Rightarrow> route_decision \<Rightarrow> ('k, 'l, 'g, wire_decision) action" where
  "answer use_case request decision = (\<lambda>(sv, rs).
    ((count [RouteDecisions (workload_label use_case (rr_workload request))
        (rd_selected_model_group decision)] sv, rs),
     (case from_domain_decision decision of
        Inl e \<Rightarrow> Inl (UnhandledException ''ValidationError'')
      | Inr d \<Rightarrow> Inr d)))"

fun body_request :: "'t route_envelope \<Rightarrow> wire_request" where
  "body_request (BareRequest r) = r"
| "body_request (AuthorizedRequest r a) = r"

fun body_authorization :: "'t route_envelope \<Rightarrow> 't envelope option" where
  "body_authorization (BareRequest r) = None"
| "body_authorization (AuthorizedRequest r a) = Some a"

definition remember :: "route_request \<Rightarrow> instant envelope option \<Rightarrow> request_state \<Rightarrow> request_state" where
  "remember request authorization rs =
    rs\<lparr>rs_route_request := Some request, rs_authorization := authorization,
       rs_authorization_verified := False, rs_selected_model_group := None\<rparr>"

definition route_handler ::
  "('k, 'l, 'g) ports \<Rightarrow> call_env \<Rightarrow> route_use_case \<Rightarrow> string \<Rightarrow> string option
    \<Rightarrow> instant route_envelope \<Rightarrow> ('k, 'l, 'g, wire_decision) action" where
  "route_handler pt env use_case host x_api_key body = (\<lambda>(sv, rs).
    (let route_request = body_request body;
         authorization = body_authorization body;
         request = to_domain_request route_request
     in then_do (limit_agent pt env (host @ '':'' @ wq_agent_name route_request)) (\<lambda>_.
        then_do (\<lambda>(sv, rs). ((sv, rs), authenticate x_api_key (wq_agent_name route_request) (sv_api_keys sv))) (\<lambda>_.
        then_do (authorize pt env authorization request) (\<lambda>verified.
        then_do (decide pt env use_case request (wq_include_rejected_candidates route_request)) (\<lambda>decision.
        then_do (require_signed_scope verified decision) (\<lambda>_.
        answer use_case request decision)))))
        (sv, remember request authorization rs)))"

section \<open>Replies\<close>

datatype reply =
    DecisionReply wire_decision
  | RejectionReply string wire_rejection
  | ViolationReply string violation_envelope
  | ErrorReply http_response
  | ProbeReply string
  | MetricsReply "metric list"
  | FrameworkReply
  | InternalError string
  | Disconnected
  | NoReplyYet

fun reply_status :: "reply \<Rightarrow> nat option" where
  "reply_status (DecisionReply d) = Some 200"
| "reply_status (RejectionReply m x) = Some 422"
| "reply_status (ViolationReply c v) = Some 403"
| "reply_status (ErrorReply r) = Some (hr_status r)"
| "reply_status (ProbeReply s) = Some 200"
| "reply_status (MetricsReply ms) = Some 200"
| "reply_status (InternalError t) = Some 500"
| "reply_status _ = None"

definition validation_error_response :: http_response where
  "validation_error_response =
    error_response 422 ''invalid_request'' ''the request body does not match the expected schema''"

definition unauthorized_response :: http_response where
  "unauthorized_response = error_response 401 ''unauthorized'' ''missing or invalid API key''"

definition misconfigured_response :: http_response where
  "misconfigured_response =
    error_response 500 ''misconfigured_routing_policy'' ''the routing policy is misconfigured''"

text \<open>The message of \<open>NoViableModelGroupError\<close>.\<close>

definition no_viable_message :: "rejected_decision \<Rightarrow> string" where
  "no_viable_message x = ''no viable model group for workload '' @ py_repr (xd_workload x) @
    '': mapped group '' @ py_repr (xd_rejected_model_group x) @ '' rejected ('' @ xd_reason x @ '')''"

definition handle_no_viable_model_group :: "rejected_decision \<Rightarrow> reply" where
  "handle_no_viable_model_group x =
    (case from_domain_rejection x of
       Inl e \<Rightarrow> InternalError ''ValidationError''
     | Inr rejection \<Rightarrow> RejectionReply (no_viable_message x) rejection)"

definition handle_runtime_authorization_error ::
  "('k, 'l, 'g) ports \<Rightarrow> call_env \<Rightarrow> string \<Rightarrow> bool \<Rightarrow> ('k, 'l, 'g) handling_state
    \<Rightarrow> ('k, 'l, 'g) service \<times> reply" where
  "handle_runtime_authorization_error pt env code authorization_verified = (\<lambda>(sv, rs).
    (let sv = count [RuntimeAuthorizations ''denied''] sv
     in case rs_route_request rs of
          None \<Rightarrow> (sv, ErrorReply (error_response 403 code ''runtime authorization denied''))
        | Some request \<Rightarrow>
          (case build_runtime_violation (pt_dump_time pt) (ce_event_id env) (ce_event_at env) code
              request (rs_authorization rs) (rs_authorization_verified rs \<or> authorization_verified)
              (rs_correlation_id rs) (sv_service_version sv) (sv_environment sv)
              (rs_selected_model_group rs) of
             Inl e \<Rightarrow> (sv, InternalError ''ValidationError'')
           | Inr violation \<Rightarrow>
               (count [RuntimeViolations (category_value (ve_category (vn_event violation)))
                   (ve_code (vn_event violation))] sv,
                ViolationReply code violation))))"

definition handle_error ::
  "('k, 'l, 'g) ports \<Rightarrow> call_env \<Rightarrow> service_error \<Rightarrow> ('k, 'l, 'g) handling_state
    \<Rightarrow> ('k, 'l, 'g) service \<times> reply" where
  "handle_error pt env err c =
    (case err of
       AuthenticationError m \<Rightarrow> (fst c, ErrorReply unauthorized_response)
     | RateLimitExceededError m \<Rightarrow> (fst c, ErrorReply rate_limited_response)
     | AuthorizationFailure (RuntimeAuthorizationError code m verified) \<Rightarrow>
         handle_runtime_authorization_error pt env code verified c
     | AuthorizationFailure (OtherException t) \<Rightarrow> (fst c, InternalError t)
     | RoutingFailure (NoViableModelGroupError x) \<Rightarrow> (fst c, handle_no_viable_model_group x)
     | RoutingFailure (IncompleteRoutingPolicyError m) \<Rightarrow> (fst c, ErrorReply misconfigured_response)
     | RoutingFailure (KeyError g) \<Rightarrow> (fst c, InternalError ''KeyError'')
     | RoutingFailure DecimalOverflow \<Rightarrow> (fst c, InternalError ''Overflow'')
     | UnhandledException t \<Rightarrow> (fst c, InternalError t))"

section \<open>The path of one request\<close>

definition max_correlation_id_length :: nat where
  "max_correlation_id_length = 200"

definition bind_correlation_id :: "string option \<Rightarrow> string \<Rightarrow> string" where
  "bind_correlation_id raw fresh =
    (case raw of
       None \<Rightarrow> fresh
     | Some s \<Rightarrow> if s \<noteq> [] \<and> length s \<le> max_correlation_id_length then s else fresh)"

text \<open>Looking up a header by its lower-case name: the first field with that name.\<close>

definition header :: "headers \<Rightarrow> string \<Rightarrow> string option" where
  "header headers name = map_option snd (find (\<lambda>(k, v). bytes_lower k = name) headers)"

type_synonym parser = "headers \<Rightarrow> string \<Rightarrow> datetime route_envelope option"

text \<open>What the application does with a body that reached it.\<close>

definition respond ::
  "('k, 'l, 'g) ports \<Rightarrow> call_env \<Rightarrow> parser \<Rightarrow> scope \<Rightarrow> string \<Rightarrow> ('k, 'l, 'g) handling_state
    \<Rightarrow> ('k, 'l, 'g) service \<times> reply" where
  "respond pt env parse sc raw = (\<lambda>(sv, rs).
    case Option.bind (parse (sc_headers sc) raw) validate_body of
      None \<Rightarrow> (sv, ErrorReply validation_error_response)
    | Some body \<Rightarrow>
        (case route_handler pt env (sv_use_case sv) (client_host sc) (header (sc_headers sc) ''x-api-key'')
            body (sv, rs) of
           (c, Inr d) \<Rightarrow> (fst c, DecisionReply d)
         | (c, Inl e) \<Rightarrow> handle_error pt env e c))"

definition dispatch ::
  "('k, 'l, 'g) ports \<Rightarrow> call_env \<Rightarrow> parser \<Rightarrow> scope \<Rightarrow> message list \<Rightarrow> ('k, 'l, 'g) handling_state
    \<Rightarrow> ('k, 'l, 'g) service \<times> reply" where
  "dispatch pt env parse sc received c =
    (if is_route_post sc then
       (case received of
          Request raw _ # _ \<Rightarrow> respond pt env parse sc raw c
        | _ \<Rightarrow> (fst c, Disconnected))
     else if sc_method sc = ''GET'' \<and> sc_path sc = ''/health'' then (fst c, ProbeReply ''ok'')
     else if sc_method sc = ''GET'' \<and> sc_path sc = ''/readyz'' then (fst c, ProbeReply ''ready'')
     else if sc_method sc = ''GET'' \<and> sc_path sc = ''/metrics'' then
       (fst c, MetricsReply (sv_metrics (fst c)))
     else (fst c, FrameworkReply))"

definition initial_request_state :: "string \<Rightarrow> request_state" where
  "initial_request_state correlation_id =
    \<lparr>rs_correlation_id = correlation_id, rs_route_request = None, rs_authorization = None,
     rs_authorization_verified = False, rs_selected_model_group = None\<rparr>"

text \<open>One HTTP request: the new state, the reply and the \<open>X-Correlation-Id\<close> it carries.\<close>

definition serve ::
  "('k, 'l, 'g) ports \<Rightarrow> call_env \<Rightarrow> parser \<Rightarrow> scope \<Rightarrow> message list \<Rightarrow> ('k, 'l, 'g) service
    \<Rightarrow> ('k, 'l, 'g) service \<times> reply \<times> string" where
  "serve pt env parse sc events sv =
    (let correlation_id = bind_correlation_id (header (sc_headers sc) ''x-correlation-id'') (ce_fresh_id env);
         (limiter, labels, handled) =
           middleware (pt_allow pt (ce_monotonic env)) (sv_ip_rate_limiter sv)
             (sv_max_request_body_bytes sv) sc events;
         sv = count (map (\<lambda>(tier, outcome). RateLimitDecisions tier outcome) labels)
           (sv\<lparr>sv_ip_rate_limiter := limiter\<rparr>);
         (sv, reply) =
           (case handled of
              Answered r \<Rightarrow> (sv, ErrorReply r)
            | Failed m \<Rightarrow> (sv, InternalError ''RuntimeError'')
            | Pending \<Rightarrow> (sv, NoReplyYet)
            | Forwarded received \<Rightarrow>
                dispatch pt env parse sc received (sv, initial_request_state correlation_id))
     in (sv, reply, correlation_id))"

section \<open>Reloading the policy\<close>

text \<open>
  \<open>reload_routing_policy\<close> with what is on disk; another exception than
  \<open>RoutingPolicyLoadError\<close> leaves the task before anything is counted.
\<close>

definition reload_routing_policy ::
  "(string \<Rightarrow> (yaml_exc, 'o) result) \<Rightarrow> ('o \<Rightarrow> policy_config option) \<Rightarrow> bytes option
    \<Rightarrow> ('k, 'l, 'g) service \<Rightarrow> ('k, 'l, 'g) service \<times> (load_error, bool) result" where
  "reload_routing_policy yaml_load coerce content sv =
    (case load_routing_policy yaml_load coerce content of
       Inl e \<Rightarrow>
         (if is_RoutingPolicyLoadError e
          then (count [PolicyReloads ''failed''] sv, Inr False) else (sv, Inl e))
     | Inr policy \<Rightarrow>
         (count [PolicyReloads ''succeeded'']
            (sv\<lparr>sv_use_case := \<lparr>uc_policy = policy, uc_service_version = sv_service_version sv,
               uc_environment = sv_environment sv\<rparr>\<rparr>), Inr True))"

end
