(* ===== verification/Http_Properties.thy ===== *)
theory Http_Properties
  imports Http_Service
begin

text \<open>
  What the service promises on its HTTP surface: which requests get a decision, which reply an
  unauthenticated request gets, that metric labels stay bounded, and what a policy reload keeps.
\<close>

section \<open>Statements that return\<close>

lemma then_do_Inr: "then_do m f c = (c', Inr y) \<longleftrightarrow> (\<exists>c1 x. m c = (c1, Inr x) \<and> f x c1 = (c', Inr y))"
  by (auto simp: then_do_def split: prod.splits sum.splits)

lemma snd_Inr: "snd p = Inr y \<longleftrightarrow> (\<exists>c. p = (c, Inr y))" for p :: "'c \<times> ('e, 'a) result"
  by (cases p) auto

lemma then_do_snd:
  "snd (then_do m f c) = Inr y \<longleftrightarrow> (\<exists>x. snd (m c) = Inr x \<and> snd (f x (fst (m c))) = Inr y)"
  by (cases "m c"; cases "snd (m c)") (auto simp: then_do_def)

lemma count_simps [simp]:
  "sv_use_case (count ms sv) = sv_use_case sv" "sv_api_keys (count ms sv) = sv_api_keys sv"
  "sv_authorization_required (count ms sv) = sv_authorization_required sv"
  "sv_verifier (count ms sv) = sv_verifier sv" "sv_guard (count ms sv) = sv_guard sv"
  "sv_rate_limiter (count ms sv) = sv_rate_limiter sv"
  "sv_ip_rate_limiter (count ms sv) = sv_ip_rate_limiter sv"
  "sv_service_version (count ms sv) = sv_service_version sv"
  "sv_environment (count ms sv) = sv_environment sv"
  "sv_max_request_body_bytes (count ms sv) = sv_max_request_body_bytes sv"
  "sv_metrics (count ms sv) = sv_metrics sv @ ms"
  by (simp_all add: count_def)

section \<open>Which requests are decided\<close>

text \<open>The key belongs to the agent the request names.\<close>

definition authentic_key :: "(string, string) dict \<Rightarrow> string \<Rightarrow> string option \<Rightarrow> bool" where
  "authentic_key api_keys agent x_api_key \<longleftrightarrow>
    (\<exists>k. dict_get api_keys agent = Some k \<and> x_api_key = Some k \<and> ascii_str k)"

text \<open>Governance authorized this request, and its authorization was not used before.\<close>

definition newly_authorized ::
  "('k, 'l, 'g) ports \<Rightarrow> call_env \<Rightarrow> ('k, 'l, 'g) service \<Rightarrow> instant envelope \<Rightarrow> route_request \<Rightarrow> bool" where
  "newly_authorized pt env sv a q \<longleftrightarrow> dt_offset (ce_now env) = Some 0 \<and>
    (\<exists>vf. sv_verifier sv = Some vf \<and>
       authorized (pt_edv pt) (pt_dump_time pt) vf a q (dt_wall (ce_now env))) \<and>
    snd (pt_consume pt (sv_guard sv) (cl_authorization_id (ev_claims a)) (cl_expires_at (ev_claims a))
      (dt_wall (ce_now env))) = Inr True"

definition granted ::
  "('k, 'l, 'g) ports \<Rightarrow> call_env \<Rightarrow> ('k, 'l, 'g) service \<Rightarrow> string \<Rightarrow> string option
    \<Rightarrow> instant route_envelope \<Rightarrow> bool" where
  "granted pt env sv host x_api_key body \<longleftrightarrow>
    snd (pt_allow pt (ce_monotonic env) (sv_rate_limiter sv)
      (host @ '':'' @ wq_agent_name (body_request body))) \<and>
    authentic_key (sv_api_keys sv) (wq_agent_name (body_request body)) x_api_key \<and>
    (case body_authorization body of
       None \<Rightarrow> \<not> sv_authorization_required sv
     | Some a \<Rightarrow> sv_authorization_required sv \<and>
         newly_authorized pt env sv a (to_domain_request (body_request body)))"

definition signed_for :: "instant envelope option \<Rightarrow> model_group_id \<Rightarrow> bool" where
  "signed_for authorization g \<longleftrightarrow>
    (case authorization of None \<Rightarrow> True
     | Some a \<Rightarrow> (\<exists>m \<in> set (sc_models (cl_scope (ev_claims a))). am_routing_group m = g \<and>
         sc_data_classification (cl_scope (ev_claims a)) \<in> set (am_allowed_data_classes m)))"

lemma authenticate_iff:
  "authenticate x_api_key agent api_keys = Inr () \<longleftrightarrow> authentic_key api_keys agent x_api_key"
  by (auto simp: authenticate_def authentic_key_def compare_digest_def Let_def raise_if_Inr_iff
      split: option.splits if_splits)

lemma require_selected_iff:
  "require_selected_model v g = Inr () \<longleftrightarrow> signed_for (Some (va_envelope v)) g"
  by (auto simp: require_selected_model_def signed_for_def Let_def rbind_Inr_iff raise_if_Inr_iff
      list_ex_iff filter_empty_conv)

lemma limit_agent_snd:
  "snd (limit_agent pt env key (sv, rs)) = Inr () \<longleftrightarrow>
    snd (pt_allow pt (ce_monotonic env) (sv_rate_limiter sv) key)"
  by (simp add: limit_agent_def Let_def case_prod_unfold raise_if_Inr_iff)

text \<open>What the statements before the routing leave alone.\<close>

definition same_core :: "('k, 'l, 'g) service \<Rightarrow> ('k, 'l, 'g) service \<Rightarrow> bool" where
  "same_core sv sv' \<longleftrightarrow> sv_use_case sv' = sv_use_case sv \<and> sv_api_keys sv' = sv_api_keys sv
     \<and> sv_max_request_body_bytes sv' = sv_max_request_body_bytes sv
     \<and> sv_service_version sv' = sv_service_version sv \<and> sv_environment sv' = sv_environment sv
     \<and> sv_authorization_required sv' = sv_authorization_required sv
     \<and> sv_verifier sv' = sv_verifier sv"

lemma limit_agent_fst:
  assumes "limit_agent pt env key (sv, rs) = ((sv', rs'), r)"
  shows "same_core sv sv' \<and> sv_guard sv' = sv_guard sv \<and> rs' = rs"
  using assms by (auto simp: limit_agent_def Let_def case_prod_unfold same_core_def)

lemma authorize_iff:
  "(\<exists>c'. authorize pt env authorization q (sv, rs) = (c', Inr v)) \<longleftrightarrow>
    (case authorization of
       None \<Rightarrow> \<not> sv_authorization_required sv \<and> v = None
     | Some a \<Rightarrow> sv_authorization_required sv \<and> newly_authorized pt env sv a q \<and>
         (\<exists>vf. sv_verifier sv = Some vf \<and> v = Some \<lparr>va_envelope = a, va_verified_at = dt_wall (ce_now env),
            va_key_set_generation = ks_generation (vf_key_set vf)\<rparr>))"
proof (cases authorization)
  case None
  then show ?thesis by (auto simp: authorize_def)
next
  case (Some a)
  show ?thesis
  proof (cases "sv_verifier sv")
    case None
    then show ?thesis using Some by (auto simp: authorize_def newly_authorized_def)
  next
    case (Some vf)
    obtain g r where v: "verify (pt_consume pt) (pt_edv pt) (pt_dump_time pt) vf (sv_guard sv) a q (ce_now env) = (g, r)"
      by fastforce
    show ?thesis
      using Some \<open>authorization = Some a\<close> verify_Inr_iff [of "pt_consume pt" "pt_edv pt" "pt_dump_time pt" vf "sv_guard sv" a q "ce_now env" "the v"]
      by (cases r) (auto simp: authorize_def newly_authorized_def v)
  qed
qed


lemma authorize_fst:
  assumes "authorize pt env authorization q (sv, rs) = ((sv', rs'), r)"
  shows "same_core sv sv'"
  using assms
  by (auto simp: authorize_def same_core_def split: if_splits option.splits prod.splits sum.splits)

lemma decide_snd:
  "snd (decide pt env uc q inc (sv, rs)) =
    (case route uc (pt_resolve pt) (ce_decision_id env) (ce_decided_at env) q inc of
       Inl e \<Rightarrow> Inl (RoutingFailure e) | Inr d \<Rightarrow> Inr d)"
  by (simp add: decide_def Let_def)

lemma decide_fst: "decide pt env uc q inc (sv, rs) = ((sv', rs'), r) \<Longrightarrow> same_core sv sv'"
  by (auto simp: decide_def Let_def same_core_def)

lemma then_do_Inr_ex:
  "(\<exists>c'. then_do m f c = (c', Inr y)) \<longleftrightarrow>
    (\<exists>c1 x. m c = (c1, Inr x) \<and> (\<exists>c'. f x c1 = (c', Inr y)))"
  by (auto simp: then_do_Inr)

lemma limit_agent_iff:
  "(limit_agent pt env key (sv, rs) = (c, Inr x)) \<longleftrightarrow>
    snd (pt_allow pt (ce_monotonic env) (sv_rate_limiter sv) key) \<and>
    c = (count [RateLimitDecisions ''per_agent'' ''allowed''] (sv\<lparr>sv_rate_limiter :=
      fst (pt_allow pt (ce_monotonic env) (sv_rate_limiter sv) key)\<rparr>), rs)"
  by (auto simp: limit_agent_def Let_def case_prod_unfold raise_if_Inr_iff outcome_label_def)

lemma newly_authorized_cong:
  "same_core sv sv' \<Longrightarrow> sv_guard sv' = sv_guard sv \<Longrightarrow>
    newly_authorized pt env sv' a q \<longleftrightarrow> newly_authorized pt env sv a q"
  by (simp add: newly_authorized_def same_core_def)

lemma tail_iff:
  "(\<exists>c'. then_do (decide pt env uc q inc) (\<lambda>decision.
        then_do (require_signed_scope verified decision) (\<lambda>_. answer uc q decision)) c = (c', Inr d))
   \<longleftrightarrow> (\<exists>dd. route uc (pt_resolve pt) (ce_decision_id env) (ce_decided_at env) q inc = Inr dd \<and>
        signed_for (map_option va_envelope verified) (rd_selected_model_group dd) \<and>
        from_domain_decision dd = Inr d)"
proof -
  obtain sv rs where c: "c = (sv, rs)" by fastforce
  have dec: "decide pt env uc q inc (sv, rs) = (c1, Inr dd) \<longleftrightarrow>
      route uc (pt_resolve pt) (ce_decision_id env) (ce_decided_at env) q inc = Inr dd \<and>
      c1 = fst (decide pt env uc q inc (sv, rs))" for c1 dd
    using decide_snd [of pt env uc q inc sv rs]
    by (cases "decide pt env uc q inc (sv, rs)") (auto split: sum.splits)
  have sel: "(\<exists>c2. require_signed_scope verified dd c1 = (c2, Inr x)) \<longleftrightarrow>
      signed_for (map_option va_envelope verified) (rd_selected_model_group dd)" for c1 dd x
  proof (cases verified)
    case (Some v)
    then show ?thesis
      using require_selected_iff [of v "rd_selected_model_group dd"]
      by (cases c1; cases "require_selected_model v (rd_selected_model_group dd)")
        (simp_all add: require_signed_scope_def)
  qed (cases c1, simp add: require_signed_scope_def signed_for_def)
  have ans: "(\<exists>c3. answer uc q dd c2 = (c3, Inr d)) \<longleftrightarrow> from_domain_decision dd = Inr d" for c2 dd
    by (cases c2) (auto simp: answer_def split: sum.splits)
  show ?thesis
    unfolding c then_do_Inr_ex dec ans by (simp add: sel del: split_paired_Ex)
qed

lemma handler_decides_iff:
  "(\<exists>c'. route_handler pt env uc host x_api_key body (sv, rs) = (c', Inr d)) \<longleftrightarrow>
    granted pt env sv host x_api_key body \<and>
    (\<exists>dd. route uc (pt_resolve pt) (ce_decision_id env) (ce_decided_at env)
        (to_domain_request (body_request body)) (wq_include_rejected_candidates (body_request body)) = Inr dd \<and>
      signed_for (body_authorization body) (rd_selected_model_group dd) \<and>
      from_domain_decision dd = Inr d)"
proof -
  let ?q = "to_domain_request (body_request body)" and ?key = "host @ '':'' @ wq_agent_name (body_request body)"
  let ?sv = "count [RateLimitDecisions ''per_agent'' ''allowed''] (sv\<lparr>sv_rate_limiter :=
      fst (pt_allow pt (ce_monotonic env) (sv_rate_limiter sv) ?key)\<rparr>)"
  have same: "newly_authorized pt env ?sv a ?q = newly_authorized pt env sv a ?q" for a
    by (rule newly_authorized_cong) (simp_all add: same_core_def)
  have auth: "(\<exists>c1 x. authorize pt env (body_authorization body) ?q (?sv, rs') = (c1, Inr x) \<and>
        signed_for (map_option va_envelope x) g) \<longleftrightarrow>
      (case body_authorization body of None \<Rightarrow> \<not> sv_authorization_required sv
       | Some a \<Rightarrow> sv_authorization_required sv \<and> newly_authorized pt env sv a ?q) \<and>
      signed_for (body_authorization body) g" for g rs'
  proof -
    have "(\<exists>c1 x. authorize pt env (body_authorization body) ?q (?sv, rs') = (c1, Inr x) \<and>
        signed_for (map_option va_envelope x) g) \<longleftrightarrow>
      (\<exists>x. (\<exists>c1. authorize pt env (body_authorization body) ?q (?sv, rs') = (c1, Inr x)) \<and>
        signed_for (map_option va_envelope x) g)" by blast
    then show ?thesis
      unfolding authorize_iff same
      by (cases "body_authorization body") (auto simp: newly_authorized_def signed_for_def)
  qed
  define tail :: "verified_authorization option \<Rightarrow> ('a, 'b, 'c, wire_decision) action" where
    "tail verified = then_do (decide pt env uc ?q (wq_include_rejected_candidates (body_request body)))
      (\<lambda>decision. then_do (require_signed_scope verified decision) (\<lambda>_. answer uc ?q decision))"
    for verified
  have tail: "(\<exists>c'. tail verified c = (c', Inr d)) \<longleftrightarrow>
      (\<exists>dd. route uc (pt_resolve pt) (ce_decision_id env) (ce_decided_at env) ?q
          (wq_include_rejected_candidates (body_request body)) = Inr dd \<and>
        signed_for (map_option va_envelope verified) (rd_selected_model_group dd) \<and>
        from_domain_decision dd = Inr d)" for verified c
    unfolding tail_def by (rule tail_iff)
  have key: "(\<exists>c1 x. (case c of (sv, rs) \<Rightarrow> ((sv, rs), authenticate x_api_key
        (wq_agent_name (body_request body)) (sv_api_keys sv))) = (c1, Inr x) \<and> P c1) \<longleftrightarrow>
      authentic_key (sv_api_keys (fst c)) (wq_agent_name (body_request body)) x_api_key \<and> P c" for P c
    using authenticate_iff by (cases c) auto
  show ?thesis
    unfolding route_handler_def split_conv Let_def tail_def [symmetric] then_do_Inr_ex key
      limit_agent_iff tail granted_def
    using auth by (simp del: split_paired_Ex) blast
qed

section \<open>The whole path\<close>

lemma handle_error_decides: "snd (handle_error pt env e c) \<noteq> DecisionReply d"
  by (cases c) (auto simp: handle_error_def handle_no_viable_model_group_def
      handle_runtime_authorization_error_def Let_def
      split: service_error.splits auth_error.splits route_error.splits sum.splits option.splits)

lemma respond_decides_iff:
  "snd (respond pt env parse sc raw (sv, rs)) = DecisionReply d \<longleftrightarrow>
    (\<exists>body. Option.bind (parse (sc_headers sc) raw) validate_body = Some body \<and>
      (\<exists>c'. route_handler pt env (sv_use_case sv) (client_host sc) (header (sc_headers sc) ''x-api-key'')
        body (sv, rs) = (c', Inr d)))"
  by (auto simp: respond_def handle_error_decides split: option.splits prod.splits sum.splits)

lemma granted_cong:
  "same_core sv sv' \<Longrightarrow> sv_guard sv' = sv_guard sv \<Longrightarrow> sv_rate_limiter sv' = sv_rate_limiter sv \<Longrightarrow>
    granted pt env sv' host k body = granted pt env sv host k body"
proof -
  assume same: "same_core sv sv'" "sv_guard sv' = sv_guard sv" and lim: "sv_rate_limiter sv' = sv_rate_limiter sv"
  have "newly_authorized pt env sv' a q = newly_authorized pt env sv a q" for a q
    using same by (rule newly_authorized_cong)
  with same lim show ?thesis by (simp add: granted_def same_core_def split: option.split)
qed

lemma dispatch_decides_iff:
  "snd (dispatch pt env parse sc received c) = DecisionReply d \<longleftrightarrow>
    is_route_post sc \<and> (\<exists>raw final rest. received = Request raw final # rest \<and>
      snd (respond pt env parse sc raw c) = DecisionReply d)"
proof (cases "is_route_post sc")
  case True
  then show ?thesis
    by (cases received; cases "hd received") (simp_all add: dispatch_def)
next
  case False
  then show ?thesis by (simp add: dispatch_def)
qed

definition after_ip_tier :: "'l \<Rightarrow> (string \<times> string) list \<Rightarrow> ('k, 'l, 'g) service \<Rightarrow> ('k, 'l, 'g) service" where
  "after_ip_tier limiter labels sv =
    count (map (\<lambda>(tier, outcome). RateLimitDecisions tier outcome) labels) (sv\<lparr>sv_ip_rate_limiter := limiter\<rparr>)"

lemma after_ip_tier_core:
  "same_core sv (after_ip_tier l labels sv)" "sv_guard (after_ip_tier l labels sv) = sv_guard sv"
  "sv_rate_limiter (after_ip_tier l labels sv) = sv_rate_limiter sv"
  by (simp_all add: after_ip_tier_def same_core_def)

lemma served_decides:
  "fst (snd (serve pt env parse sc events sv)) = DecisionReply d \<longleftrightarrow>
    is_route_post sc \<and>
    (\<exists>raw final rest body dd.
      snd (snd (middleware (pt_allow pt (ce_monotonic env)) (sv_ip_rate_limiter sv)
        (sv_max_request_body_bytes sv) sc events)) = Forwarded (Request raw final # rest) \<and>
      Option.bind (parse (sc_headers sc) raw) validate_body = Some body \<and>
      granted pt env sv (client_host sc) (header (sc_headers sc) ''x-api-key'') body \<and>
      route (sv_use_case sv) (pt_resolve pt) (ce_decision_id env) (ce_decided_at env)
        (to_domain_request (body_request body)) (wq_include_rejected_candidates (body_request body)) = Inr dd \<and>
      signed_for (body_authorization body) (rd_selected_model_group dd) \<and>
      from_domain_decision dd = Inr d)"
proof -
  obtain l labels h where m: "middleware (pt_allow pt (ce_monotonic env)) (sv_ip_rate_limiter sv)
        (sv_max_request_body_bytes sv) sc events = (l, labels, h)" by (metis prod.exhaust)
  let ?id = "initial_request_state (bind_correlation_id (header (sc_headers sc) ''x-correlation-id'') (ce_fresh_id env))"
  let ?sv = "after_ip_tier l labels sv"
  have uc: "sv_use_case ?sv = sv_use_case sv" by (simp add: after_ip_tier_def)
  have "fst (snd (serve pt env parse sc events sv)) = DecisionReply d \<longleftrightarrow>
    (\<exists>received. h = Forwarded received \<and> snd (dispatch pt env parse sc received (?sv, ?id)) = DecisionReply d)"
    by (cases h) (simp_all add: serve_def Let_def m after_ip_tier_def case_prod_unfold)
  also have "\<dots> \<longleftrightarrow> is_route_post sc \<and> (\<exists>raw final rest. h = Forwarded (Request raw final # rest) \<and>
      snd (respond pt env parse sc raw (?sv, ?id)) = DecisionReply d)"
    unfolding dispatch_decides_iff by blast
  finally show ?thesis
    unfolding respond_decides_iff handler_decides_iff granted_cong [OF after_ip_tier_core] uc
    by (simp add: m del: split_paired_Ex)
qed

text \<open>
  The service decides exactly the requests it must: a decision is returned if and only if the
  request is a \<open>POST /route\<close> whose client address was within its limit and whose body was bounded
  and complete, the body is a valid request, the pair of address and agent was within its limit,
  the key is the one configured for the agent the request names, the request carries a signed
  authorization that binds it and was never used (or none, where the deployment requires none),
  the active policy decides it, and the selected group is signed for its data class. It is then
  that decision.
\<close>

theorem served_decision_iff:
  "fst (snd (serve pt env parse sc events sv)) = DecisionReply d \<longleftrightarrow>
    is_route_post sc \<and>
    (\<exists>raw final rest body dd.
      snd (snd (middleware (pt_allow pt (ce_monotonic env)) (sv_ip_rate_limiter sv)
        (sv_max_request_body_bytes sv) sc events)) = Forwarded (Request raw final # rest) \<and>
      Option.bind (parse (sc_headers sc) raw) validate_body = Some body \<and>
      granted pt env sv (client_host sc) (header (sc_headers sc) ''x-api-key'') body \<and>
      route (sv_use_case sv) (pt_resolve pt) (ce_decision_id env) (ce_decided_at env)
        (to_domain_request (body_request body)) (wq_include_rejected_candidates (body_request body)) = Inr dd \<and>
      signed_for (body_authorization body) (rd_selected_model_group dd) \<and>
      from_domain_decision dd = Inr d)"
  by (rule served_decides)

section \<open>Authentication failures\<close>

definition ascii_keys :: "(string, string) dict \<Rightarrow> bool" where
  "ascii_keys api_keys \<longleftrightarrow> (\<forall>k \<in> snd ` set api_keys. ascii_str k)"

text \<open>The state after the per-agent tier admitted the request.\<close>

definition after_agent_tier :: "('k, 'l, 'g) ports \<Rightarrow> call_env \<Rightarrow> string \<Rightarrow> ('k, 'l, 'g) service \<Rightarrow> ('k, 'l, 'g) service" where
  "after_agent_tier pt env key sv = count [RateLimitDecisions ''per_agent'' ''allowed'']
    (sv\<lparr>sv_rate_limiter := fst (pt_allow pt (ce_monotonic env) (sv_rate_limiter sv) key)\<rparr>)"

definition agent_key :: "scope \<Rightarrow> instant route_envelope \<Rightarrow> string" where
  "agent_key sc body = client_host sc @ '':'' @ wq_agent_name (body_request body)"

lemma respond_rejected:
  assumes "Option.bind (parse (sc_headers sc) raw) validate_body = Some body"
    and "snd (pt_allow pt (ce_monotonic env) (sv_rate_limiter sv) (agent_key sc body))"
    and "authenticate (header (sc_headers sc) ''x-api-key'') (wq_agent_name (body_request body)) (sv_api_keys sv) = Inl e"
  shows "respond pt env parse sc raw (sv, rs) =
    handle_error pt env e (after_agent_tier pt env (agent_key sc body) sv,
      remember (to_domain_request (body_request body)) (body_authorization body) rs)"
proof -
  have "limit_agent pt env (agent_key sc body) (sv, rs') =
      ((after_agent_tier pt env (agent_key sc body) sv, rs'), Inr ())" for rs'
    using assms(2) by (simp add: limit_agent_iff after_agent_tier_def)
  then show ?thesis
    using assms(1,3)
    by (simp add: respond_def route_handler_def Let_def then_do_def agent_key_def)
      (simp add: after_agent_tier_def)
qed

lemma authenticate_wrong:
  assumes "\<not> authentic_key api_keys agent x"
    and "\<And>k. dict_get api_keys agent = Some k \<Longrightarrow> ascii_str k" "\<forall>k. x = Some k \<longrightarrow> ascii_str k"
  shows "\<exists>m. authenticate x agent api_keys = Inl (AuthenticationError m)"
proof (cases "dict_get api_keys agent")
  case None
  then show ?thesis by (simp add: authenticate_def)
next
  case (Some c)
  show ?thesis
  proof (cases x)
    case None
    then show ?thesis using Some by (simp add: authenticate_def)
  next
    case (Some k)
    with assms \<open>dict_get api_keys agent = Some c\<close> have "ascii_str k" "ascii_str c" "k \<noteq> c"
      by (auto simp: authentic_key_def)
    with Some \<open>dict_get api_keys agent = Some c\<close> show ?thesis
      by (simp add: authenticate_def compare_digest_def)
  qed
qed

text \<open>
  C31. A wrong key looks like a missing agent: with ASCII keys, a request whose key is absent or
  is not the one of its agent gets the same 401 whether or not the agent exists, and nothing but
  the rate-limit tier has happened: no authorization is verified or consumed.
\<close>

theorem wrong_key_uniform:
  assumes "Option.bind (parse (sc_headers sc) raw) validate_body = Some body"
    and "snd (pt_allow pt (ce_monotonic env) (sv_rate_limiter sv) (agent_key sc body))"
    and "\<not> authentic_key (sv_api_keys sv) (wq_agent_name (body_request body))
           (header (sc_headers sc) ''x-api-key'')"
    and "ascii_keys (sv_api_keys sv)" "\<forall>k. header (sc_headers sc) ''x-api-key'' = Some k \<longrightarrow> ascii_str k"
  shows "respond pt env parse sc raw (sv, rs) =
    (after_agent_tier pt env (agent_key sc body) sv, ErrorReply unauthorized_response)"
proof -
  have "ascii_str k" if "dict_get (sv_api_keys sv) a = Some k" for a k
    using assms(4) map_of_SomeD [OF that] by (force simp: ascii_keys_def)
  then obtain m where "authenticate (header (sc_headers sc) ''x-api-key'')
      (wq_agent_name (body_request body)) (sv_api_keys sv) = Inl (AuthenticationError m)"
    using authenticate_wrong [OF assms(3) _ assms(5)] by blast
  from respond_rejected [where parse = parse and raw = raw, OF assms(1,2) this] show ?thesis
    by (simp add: handle_error_def)
qed

text \<open>
  C32. A key with a non-ASCII character tells configured agents from unknown ones: the constant
  time comparison refuses it with a \<open>TypeError\<close>, which is no authentication error, so a
  configured agent gets an internal error where an unknown one gets a 401.
\<close>

theorem non_ascii_key_reveals_agent:
  assumes "Option.bind (parse (sc_headers sc) raw) validate_body = Some body"
    and "snd (pt_allow pt (ce_monotonic env) (sv_rate_limiter sv) (agent_key sc body))"
    and "header (sc_headers sc) ''x-api-key'' = Some k" "\<not> ascii_str k"
  shows "snd (respond pt env parse sc raw (sv, rs)) =
    (if dict_has (sv_api_keys sv) (wq_agent_name (body_request body))
     then InternalError ''TypeError'' else ErrorReply unauthorized_response)"
proof (cases "dict_get (sv_api_keys sv) (wq_agent_name (body_request body))")
  case None
  then have "authenticate (header (sc_headers sc) ''x-api-key'') (wq_agent_name (body_request body))
      (sv_api_keys sv) = Inl (AuthenticationError (''missing or invalid API key for agent ''
        @ py_repr (wq_agent_name (body_request body))))"
    by (simp add: authenticate_def)
  from respond_rejected [where parse = parse and raw = raw, OF assms(1,2) this] None show ?thesis
    by (simp add: handle_error_def dict_has_def)
next
  case (Some c)
  then have "authenticate (header (sc_headers sc) ''x-api-key'') (wq_agent_name (body_request body))
      (sv_api_keys sv) = Inl (UnhandledException ''TypeError'')"
    using assms(3,4) by (simp add: authenticate_def compare_digest_def)
  from respond_rejected [where parse = parse and raw = raw, OF assms(1,2) this] Some show ?thesis
    by (simp add: handle_error_def dict_has_def)
qed

section \<open>Metric labels\<close>

text \<open>The reason codes of the verifier, the guards and the handler.\<close>

definition known_codes :: "string list" where
  "known_codes =
    [''invalid_time'', ''issuer_mismatch'', ''audience_mismatch'', ''issued_in_future'', ''not_yet_valid'',
     ''expired'', ''unknown_key'', ''key_revoked'', ''key_not_valid_for_issue_time'',
     ''key_verification_window_closed'', ''invalid_signature'', ''request_cost_precision_unsupported'',
     ''request_binding_mismatch'', ''agent_binding_mismatch'', ''governance_policy_mismatch'',
     ''kill_switch_engaged'', ''runtime_authorization_revoked'', ''runtime_control_unavailable'',
     ''replay_detected'', ''replay_store_full'', ''replay_store_unavailable'',
     ''selected_model_group_not_authorized'', ''selected_model_data_class_not_authorized'',
     ''runtime_authorization_required'', ''runtime_authorization_unavailable'',
     ''runtime_authorization_not_configured'']"

fun known_error :: "auth_error \<Rightarrow> bool" where
  "known_error (RuntimeAuthorizationError code m v) \<longleftrightarrow> code \<in> set known_codes"
| "known_error (OtherException t) \<longleftrightarrow> True"

fun known_failure :: "service_error \<Rightarrow> bool" where
  "known_failure (AuthorizationFailure e) \<longleftrightarrow> known_error e"
| "known_failure _ \<longleftrightarrow> True"

definition workload_labels :: "routing_policy \<Rightarrow> string set" where
  "workload_labels p = insert undeclared_workload_label (set (dict_keys (rp_workloads p)))"

fun bounded_metric :: "routing_policy \<Rightarrow> metric \<Rightarrow> bool" where
  "bounded_metric p (RouteDecisions w g) \<longleftrightarrow> w \<in> workload_labels p \<and> g \<in> set (dict_keys (rp_model_groups p))"
| "bounded_metric p (RouteRejections w r) \<longleftrightarrow>
     w \<in> workload_labels p \<and> r \<in> {''no_viable_model_group'', ''misconfigured_policy''}"
| "bounded_metric p (RouteDuration w) \<longleftrightarrow> w \<in> workload_labels p"
| "bounded_metric p (RateLimitDecisions t r) \<longleftrightarrow>
     t \<in> {''per_ip'', ''per_agent''} \<and> r \<in> {''allowed'', ''blocked''}"
| "bounded_metric p (RuntimeAuthorizations r) \<longleftrightarrow> r \<in> {''verified'', ''legacy_dev'', ''denied''}"
| "bounded_metric p (PolicyReloads r) \<longleftrightarrow> r \<in> {''succeeded'', ''failed''}"
| "bounded_metric p (RuntimeViolations c r) \<longleftrightarrow> r \<in> set known_codes \<and> c = category_value (violation_category r)"

definition counted :: "routing_policy \<Rightarrow> ('k, 'l, 'g) service \<Rightarrow> ('k, 'l, 'g) service \<Rightarrow> bool" where
  "counted p sv sv' \<longleftrightarrow> (\<exists>added. sv_metrics sv' = sv_metrics sv @ added \<and> list_all (bounded_metric p) added)"

lemma counted_refl [intro]: "sv_metrics sv' = sv_metrics sv \<Longrightarrow> counted p sv sv'"
  by (auto simp: counted_def)

lemma counted_trans [trans]: "counted p sv sv1 \<Longrightarrow> counted p sv1 sv2 \<Longrightarrow> counted p sv sv2"
  by (force simp: counted_def)

lemma counted_count: "list_all (bounded_metric p) ms \<Longrightarrow> counted p sv (count ms sv)"
  by (auto simp: counted_def)

text \<open>A statement that counts bounded labels and fails with known errors.\<close>

definition well_counted :: "routing_policy \<Rightarrow> ('k, 'l, 'g, 'a) action \<Rightarrow> bool" where
  "well_counted p m \<longleftrightarrow> (\<forall>c. counted p (fst c) (fst (fst (m c))) \<and>
    (\<forall>e. snd (m c) = Inl e \<longrightarrow> known_failure e))"

lemma well_countedI:
  "(\<And>sv rs. counted p sv (fst (fst (m (sv, rs))))) \<Longrightarrow>
   (\<And>sv rs e. snd (m (sv, rs)) = Inl e \<Longrightarrow> known_failure e) \<Longrightarrow> well_counted p m"
  by (auto simp: well_counted_def)

lemma well_countedD:
  "well_counted p m \<Longrightarrow> m c = (c', r) \<Longrightarrow> counted p (fst c) (fst c')"
  "well_counted p m \<Longrightarrow> m c = (c', Inl e) \<Longrightarrow> known_failure e"
  unfolding well_counted_def by (metis fst_conv, metis snd_conv)

lemma well_counted_then:
  assumes "well_counted p m" "\<And>x c. snd (m c) = Inr x \<Longrightarrow> well_counted p (f x)"
  shows "well_counted p (then_do m f)"
proof (rule well_countedI)
  fix sv rs
  obtain c1 r where m: "m (sv, rs) = (c1, r)" by fastforce
  note c1 = well_countedD(1) [OF assms(1) m]
  show "counted p sv (fst (fst (then_do m f (sv, rs))))"
  proof (cases r)
    case (Inr x)
    obtain c2 r2 where f: "f x c1 = (c2, r2)" by fastforce
    have "well_counted p (f x)" using assms(2) [of "(sv, rs)" x] m Inr by simp
    from c1 well_countedD(1) [OF this f] have "counted p sv (fst c2)"
      by (simp add: counted_trans)
    then show ?thesis by (simp add: then_do_def m f Inr)
  qed (use c1 m in \<open>simp add: then_do_def\<close>)
  show "known_failure e" if e: "snd (then_do m f (sv, rs)) = Inl e" for e
  proof (cases r)
    case (Inl x)
    with e m have "m (sv, rs) = (c1, Inl e)" by (simp add: then_do_def)
    then show ?thesis by (rule well_countedD(2) [OF assms(1)])
  next
    case (Inr x)
    have "well_counted p (f x)" using assms(2) [of "(sv, rs)" x] m Inr by simp
    moreover have "f x c1 = (fst (f x c1), Inl e)"
      using e m Inr by (simp add: then_do_def prod_eq_iff)
    ultimately show ?thesis by (rule well_countedD(2))
  qed
qed

lemma outcome_label_known: "outcome_label b \<in> {''allowed'', ''blocked''}"
  by (simp add: outcome_label_def)

lemma limit_agent_counted: "well_counted p (limit_agent pt env key)"
proof (rule well_countedI)
  fix sv :: "('a, 'b, 'c) service" and rs
  have "list_all (bounded_metric p) [RateLimitDecisions ''per_agent'' (outcome_label b)]" for b
    using outcome_label_known [of b] by simp
  from counted_count [OF this] show "counted p sv (fst (fst (limit_agent pt env key (sv, rs))))"
    by (auto simp: limit_agent_def Let_def case_prod_unfold counted_def)
  show "known_failure e" if "snd (limit_agent pt env key (sv, rs)) = Inl e" for e
    using that by (auto simp: limit_agent_def Let_def case_prod_unfold raise_if_Inl_iff)
qed

definition guard_codes_known :: "'g consume \<Rightarrow> bool" where
  "guard_codes_known consume \<longleftrightarrow> (\<forall>g i x t e. snd (consume g i x t) = Inl e \<longrightarrow> known_error e)"

lemma known_codes_mem [simp]:
  "''invalid_time'' \<in> set known_codes"
  "''issuer_mismatch'' \<in> set known_codes"
  "''audience_mismatch'' \<in> set known_codes"
  "''issued_in_future'' \<in> set known_codes"
  "''not_yet_valid'' \<in> set known_codes"
  "''expired'' \<in> set known_codes"
  "''unknown_key'' \<in> set known_codes"
  "''key_revoked'' \<in> set known_codes"
  "''key_not_valid_for_issue_time'' \<in> set known_codes"
  "''key_verification_window_closed'' \<in> set known_codes"
  "''invalid_signature'' \<in> set known_codes"
  "''request_cost_precision_unsupported'' \<in> set known_codes"
  "''request_binding_mismatch'' \<in> set known_codes"
  "''agent_binding_mismatch'' \<in> set known_codes"
  "''governance_policy_mismatch'' \<in> set known_codes"
  "''kill_switch_engaged'' \<in> set known_codes"
  "''runtime_authorization_revoked'' \<in> set known_codes"
  "''runtime_control_unavailable'' \<in> set known_codes"
  "''replay_detected'' \<in> set known_codes"
  "''replay_store_full'' \<in> set known_codes"
  "''replay_store_unavailable'' \<in> set known_codes"
  "''selected_model_group_not_authorized'' \<in> set known_codes"
  "''selected_model_data_class_not_authorized'' \<in> set known_codes"
  "''runtime_authorization_required'' \<in> set known_codes"
  "''runtime_authorization_unavailable'' \<in> set known_codes"
  "''runtime_authorization_not_configured'' \<in> set known_codes"
  by code_simp+

lemma checks_known:
  "require_utc now = Inl err \<Longrightarrow> known_error err"
  "verify_identity_and_time vf c t = Inl err \<Longrightarrow> known_error err"
  "require_key vf e t = Inl err \<Longrightarrow> known_error err"
  "verify_signature edv dump_time e key = Inl err \<Longrightarrow> known_error err"
  "cost_micros d = Inl err \<Longrightarrow> known_error err"
  "verify_request_binding c r = Inl err \<Longrightarrow> known_error err"
  "verify_agent_binding vf c a = Inl err \<Longrightarrow> known_error err"
  "verify_policy_provenance vf c = Inl err \<Longrightarrow> known_error err"
  "verify_runtime_control vf c = Inl err \<Longrightarrow> known_error err"
  "require_selected_model v g = Inl err \<Longrightarrow> known_error err"
  by (auto simp: require_utc_def verify_identity_and_time_def require_key_def verify_signature_def
      verify_request_binding_def cost_micros_def verify_agent_binding_def verify_policy_provenance_def
      verify_runtime_control_def enforce_def control_unavailable_def require_selected_model_def
      Let_def result_iffs split: sum.splits bool.splits option.splits)

lemma verify_known:
  assumes "guard_codes_known consume" "snd (verify consume edv dump_time vf s e r now) = Inl err"
  shows "known_error err"
proof (cases "verify_checks edv dump_time vf e r now")
  case (Inl err')
  with assms(2) have "verify_checks edv dump_time vf e r now = Inl err" by (simp add: verify_def)
  then show ?thesis unfolding verify_checks_def Let_def by (auto simp: rbind_Inl_iff dest: checks_known)
next
  case (Inr u)
  let ?out = "snd (consume s (cl_authorization_id (ev_claims e)) (cl_expires_at (ev_claims e)) (dt_wall now))"
  from Inr assms(2) have c: "consumed ?out = Inl err"
    by (simp add: verify_def Let_def case_prod_unfold rbind_Inl_iff)
  show ?thesis
  proof (cases ?out)
    case (Inl x)
    with assms(1) have "known_error x" by (simp add: guard_codes_known_def)
    with c Inl show ?thesis
      by (cases x) (auto simp: consumed_def store_unavailable_def)
  next
    case (Inr fresh)
    with c show ?thesis by (auto simp: consumed_def raise_if_Inl_iff)
  qed
qed

lemma verify_known_pair:
  "guard_codes_known consume \<Longrightarrow> verify consume edv dump_time vf s e r now = (g, Inl err) \<Longrightarrow> known_error err"
  using verify_known [of consume edv dump_time vf s e r now err] by simp

lemma authorize_counted:
  assumes "guard_codes_known (pt_consume pt)"
  shows "well_counted p (authorize pt env authorization q)"
proof (rule well_countedI)
  fix sv rs
  show "counted p sv (fst (fst (authorize pt env authorization q (sv, rs))))"
    by (auto simp: authorize_def counted_def split: option.splits prod.splits sum.splits)
  show "known_failure e" if "snd (authorize pt env authorization q (sv, rs)) = Inl e" for e
    using that
    by (auto simp: authorize_def dest: verify_known_pair [OF assms] split: option.splits prod.splits sum.splits if_splits)
qed

lemma workload_label_bounded: "workload_label uc w \<in> workload_labels (uc_policy uc)"
  by (auto simp: workload_label_def workload_labels_def declares_workload_def dict_has_iff)

lemma decide_counted: "well_counted (uc_policy uc) (decide pt env uc q inc)"
proof (rule well_countedI)
  fix sv :: "('a, 'b, 'c) service" and rs
  have "list_all (bounded_metric (uc_policy uc)) (rejection_metric (workload_label uc w) r)" for w r
    using workload_label_bounded [of uc w] by (cases "(workload_label uc w, r)" rule: rejection_metric.cases) auto
  then show "counted (uc_policy uc) sv (fst (fst (decide pt env uc q inc (sv, rs))))"
    using workload_label_bounded by (simp add: decide_def Let_def counted_count)
  show "known_failure e" if "snd (decide pt env uc q inc (sv, rs)) = Inl e" for e
    using that by (auto simp: decide_snd split: sum.splits)
qed

lemma route_selects_declared:
  assumes "route uc resolve i t q inc = Inr d" "policy_closed (uc_policy uc)"
  shows "rd_selected_model_group d \<in> set (dict_keys (rp_model_groups (uc_policy uc)))"
proof -
  from route_Inr_cases [OF assms] obtain g pr where
    "dict_get (rp_model_groups (uc_policy uc)) g = Some pr" "rd_selected_model_group d = g" by metis
  then show ?thesis using map_of_SomeD by force
qed

lemma scope_counted: "well_counted p (require_signed_scope v d)"
proof (rule well_countedI)
  fix sv rs
  show "counted p sv (fst (fst (require_signed_scope v d (sv, rs))))"
    by (auto simp: require_signed_scope_def counted_def split: option.splits)
  show "known_failure e" if "snd (require_signed_scope v d (sv, rs)) = Inl e" for e
    using that by (auto simp: require_signed_scope_def dest: checks_known split: option.splits sum.splits)
qed

lemma answer_counted:
  assumes "rd_selected_model_group d \<in> set (dict_keys (rp_model_groups (uc_policy uc)))"
  shows "well_counted (uc_policy uc) (answer uc q d)"
proof (rule well_countedI)
  fix sv rs
  show "counted (uc_policy uc) sv (fst (fst (answer uc q d (sv, rs))))"
    using assms workload_label_bounded by (simp add: answer_def counted_count)
  show "known_failure e" if "snd (answer uc q d (sv, rs)) = Inl e" for e
    using that by (auto simp: answer_def split: sum.splits)
qed

lemma authenticate_counted:
  "well_counted p (\<lambda>(sv, rs). ((sv, rs), authenticate k agent (sv_api_keys sv)))"
proof (rule well_countedI)
  fix sv rs
  show "known_failure e" if "snd (case (sv, rs) of (sv, rs) \<Rightarrow> ((sv, rs), authenticate k agent (sv_api_keys sv))) = Inl e" for e
    using that by (auto simp: authenticate_def compare_digest_def Let_def result_iffs
        split: option.splits if_splits)
qed auto

lemma handler_counted:
  assumes "guard_codes_known (pt_consume pt)" "policy_closed (uc_policy uc)"
  shows "well_counted (uc_policy uc) (route_handler pt env uc host k body)"
proof -
  let ?q = "to_domain_request (body_request body)"
  have tail: "well_counted (uc_policy uc) (then_do (decide pt env uc ?q inc) (\<lambda>decision.
      then_do (require_signed_scope v decision) (\<lambda>_. answer uc ?q decision)))" for v inc
  proof (rule well_counted_then [OF decide_counted])
    fix d c
    assume "snd (decide pt env uc ?q inc c) = Inr d"
    then have "route uc (pt_resolve pt) (ce_decision_id env) (ce_decided_at env) ?q inc = Inr d"
      by (cases c) (auto simp: decide_snd split: sum.splits)
    from answer_counted [OF route_selects_declared [OF this assms(2)]]
    show "well_counted (uc_policy uc) (then_do (require_signed_scope v d) (\<lambda>_. answer uc ?q d))"
      by (intro well_counted_then scope_counted)
  qed
  have all: "well_counted (uc_policy uc) (then_do (limit_agent pt env key) (\<lambda>_.
      then_do (\<lambda>(sv, rs). ((sv, rs), authenticate k agent (sv_api_keys sv))) (\<lambda>_.
      then_do (authorize pt env a ?q) (\<lambda>v.
      then_do (decide pt env uc ?q inc) (\<lambda>decision.
      then_do (require_signed_scope v decision) (\<lambda>_. answer uc ?q decision))))))" for key agent a inc
    by (intro well_counted_then [OF limit_agent_counted] well_counted_then [OF authenticate_counted]
        well_counted_then [OF authorize_counted [OF assms(1)]] tail)
  show ?thesis
    using all unfolding well_counted_def route_handler_def Let_def by (auto simp: split_beta)
qed

lemma known_code_trim: "code \<in> set known_codes \<Longrightarrow> trim code = code"
proof -
  have "list_all (\<lambda>code. trim code = code) known_codes" by code_simp
  then show "code \<in> set known_codes \<Longrightarrow> trim code = code" by (simp add: list_all_iff)
qed

lemma handle_error_counted:
  assumes "known_failure e"
  shows "counted p (fst c) (fst (handle_error pt env e c))"
proof -
  obtain sv rs where c: "c = (sv, rs)" by fastforce
  have "counted p sv (fst (handle_runtime_authorization_error pt env code v (sv, rs)))"
    if code: "code \<in> set known_codes" for code v
  proof (cases "rs_route_request rs")
    case None
    then show ?thesis by (simp add: handle_runtime_authorization_error_def Let_def counted_count)
  next
    case (Some q)
    let ?build = "build_runtime_violation (pt_dump_time pt) (ce_event_id env) (ce_event_at env) code
      q (rs_authorization rs) (rs_authorization_verified rs \<or> v) (rs_correlation_id rs)
      (sv_service_version sv) (sv_environment sv) (rs_selected_model_group rs)"
    show ?thesis
    proof (cases ?build)
      case (Inl e)
      then show ?thesis
        by (simp add: handle_runtime_authorization_error_def Let_def Some counted_count)
    next
      case (Inr vn)
      from built_event [OF Inr] known_code_trim [OF code] code
      have "bounded_metric p (RuntimeViolations (category_value (ve_category (vn_event vn))) (ve_code (vn_event vn)))"
        by simp
      then show ?thesis
        using Inr by (simp add: handle_runtime_authorization_error_def Let_def Some)
          (simp add: counted_def)
    qed
  qed
  then show ?thesis
    using assms by (cases e rule: known_failure.cases; cases "case e of AuthorizationFailure a \<Rightarrow> a")
      (auto simp: handle_error_def c split: route_error.splits auth_error.splits)
qed

lemma respond_counted:
  assumes "guard_codes_known (pt_consume pt)" "policy_closed (uc_policy (sv_use_case sv))"
  shows "counted (uc_policy (sv_use_case sv)) sv (fst (respond pt env parse sc raw (sv, rs)))"
proof (cases "Option.bind (parse (sc_headers sc) raw) validate_body")
  case None
  then show ?thesis by (auto simp: respond_def)
next
  case (Some body)
  obtain c r where h: "route_handler pt env (sv_use_case sv) (client_host sc)
      (header (sc_headers sc) ''x-api-key'') body (sv, rs) = (c, r)" by fastforce
  note w = handler_counted [OF assms, of env "client_host sc" "header (sc_headers sc) ''x-api-key''" body]
  have c: "counted (uc_policy (sv_use_case sv)) sv (fst c)" using well_countedD(1) [OF w h] by simp
  show ?thesis
  proof (cases r)
    case (Inl e)
    from handle_error_counted [OF well_countedD(2) [OF w h [unfolded Inl]]]
    have "counted (uc_policy (sv_use_case sv)) (fst c) (fst (handle_error pt env e c))" .
    with c show ?thesis by (simp add: respond_def Some h Inl counted_trans)
  qed (use c in \<open>simp add: respond_def Some h\<close>)
qed

lemma middleware_labels:
  "fst (snd (middleware ip_allow l m sc events)) \<in> {[], [(''per_ip'', ''allowed'')], [(''per_ip'', ''blocked'')]}"
  by (simp add: middleware_def Let_def outcome_label_def case_prod_unfold)

text \<open>
  C33. Metric labels are bounded by the deployment, never by the caller: whatever a request
  contains, every label its handling adds is a workload or group of the active policy, the single
  label for undeclared workloads, or one of a fixed list of outcomes, categories and reason codes.
\<close>

theorem metric_labels_bounded:
  assumes "policy_closed (uc_policy (sv_use_case sv))" "guard_codes_known (pt_consume pt)"
  shows "\<exists>added. sv_metrics (fst (serve pt env parse sc events sv)) = sv_metrics sv @ added \<and>
    list_all (bounded_metric (uc_policy (sv_use_case sv))) added"
proof -
  obtain l labels h where m: "middleware (pt_allow pt (ce_monotonic env)) (sv_ip_rate_limiter sv)
        (sv_max_request_body_bytes sv) sc events = (l, labels, h)" by (metis prod.exhaust)
  let ?p = "uc_policy (sv_use_case sv)" and ?sv = "after_ip_tier l labels sv"
  let ?id = "initial_request_state (bind_correlation_id (header (sc_headers sc) ''x-correlation-id'') (ce_fresh_id env))"
  have uc: "sv_use_case ?sv = sv_use_case sv" by (simp add: after_ip_tier_def)
  have "list_all (bounded_metric ?p) (map (\<lambda>(tier, outcome). RateLimitDecisions tier outcome) labels)"
    using middleware_labels [of "pt_allow pt (ce_monotonic env)" "sv_ip_rate_limiter sv"
        "sv_max_request_body_bytes sv" sc events] m by auto
  then have ip: "counted ?p sv ?sv" by (simp add: after_ip_tier_def counted_def)
  have disp: "counted ?p ?sv (fst (dispatch pt env parse sc received (?sv, ?id)))" for received
    using respond_counted [OF assms(2), of ?sv env parse sc _ ?id] assms(1) uc
    by (cases received; cases "hd received") (auto simp: dispatch_def)
  have "counted ?p ?sv (fst (serve pt env parse sc events sv))"
    using disp by (cases h) (auto simp: serve_def Let_def m after_ip_tier_def case_prod_unfold)
  with ip have "counted ?p sv (fst (serve pt env parse sc events sv))" by (rule counted_trans)
  then show ?thesis by (simp add: counted_def)
qed

section \<open>Serving and reloading\<close>

text \<open>What happens to a running service: it serves a request, or re-reads its policy.\<close>

inductive service_step ::
  "('k, 'l, 'g) ports \<Rightarrow> parser \<Rightarrow> (string \<Rightarrow> (yaml_exc, 'o) result) \<Rightarrow> ('o \<Rightarrow> policy_config option)
    \<Rightarrow> ('k, 'l, 'g) service \<Rightarrow> ('k, 'l, 'g) service \<Rightarrow> bool"
  for pt parse yaml_load coerce where
  serves: "service_step pt parse yaml_load coerce sv (fst (serve pt env parse sc events sv))"
| reloads: "service_step pt parse yaml_load coerce sv (fst (reload_routing_policy yaml_load coerce content sv))"

lemma same_core_refl [simp]: "same_core sv sv" "same_core sv (count ms sv)"
  by (simp_all add: same_core_def)

lemma same_core_trans: "same_core a b \<Longrightarrow> same_core b c \<Longrightarrow> same_core a c"
  by (simp add: same_core_def)

definition keeps_core :: "('k, 'l, 'g, 'a) action \<Rightarrow> bool" where
  "keeps_core m \<longleftrightarrow> (\<forall>c c' r. m c = (c', r) \<longrightarrow> same_core (fst c) (fst c'))"

lemma keeps_then: "keeps_core m \<Longrightarrow> (\<And>x. keeps_core (f x)) \<Longrightarrow> keeps_core (then_do m f)"
  unfolding keeps_core_def then_do_def
  by (auto split: prod.splits sum.splits) (blast intro: same_core_trans)+

lemma keeps_steps:
  "keeps_core (limit_agent pt env key)" "keeps_core (authorize pt env a q)"
  "keeps_core (\<lambda>(sv, rs). ((sv, rs), authenticate k agent (sv_api_keys sv)))"
  "keeps_core (decide pt env uc q inc)" "keeps_core (require_signed_scope v d)" "keeps_core (answer uc q d)"
  by (auto simp: keeps_core_def require_signed_scope_def answer_def limit_agent_fst split: option.splits
      dest: limit_agent_fst authorize_fst decide_fst)

lemma handler_keeps_core:
  "route_handler pt env uc host k body c = (c', r) \<Longrightarrow> same_core (fst c) (fst c')"
proof -
  have "keeps_core (then_do (limit_agent pt env key) (\<lambda>_.
      then_do (\<lambda>(sv, rs). ((sv, rs), authenticate k agent (sv_api_keys sv))) (\<lambda>_.
      then_do (authorize pt env a q) (\<lambda>v.
      then_do (decide pt env uc q inc) (\<lambda>decision.
      then_do (require_signed_scope v decision) (\<lambda>_. answer uc q decision))))))" for key agent a inc q
    by (intro keeps_then keeps_steps)
  then show "route_handler pt env uc host k body c = (c', r) \<Longrightarrow> ?thesis"
    unfolding route_handler_def Let_def keeps_core_def by (cases c) fastforce
qed

lemma handle_error_core: "same_core (fst c) (fst (handle_error pt env e c))"
  by (cases c) (auto simp: handle_error_def handle_runtime_authorization_error_def Let_def
      same_core_def split: service_error.splits auth_error.splits route_error.splits sum.splits option.splits)

lemma respond_core: "same_core sv (fst (respond pt env parse sc raw (sv, rs)))"
proof (cases "Option.bind (parse (sc_headers sc) raw) validate_body")
  case None
  then show ?thesis by (simp add: respond_def)
next
  case (Some body)
  obtain c r where h: "route_handler pt env (sv_use_case sv) (client_host sc)
      (header (sc_headers sc) ''x-api-key'') body (sv, rs) = (c, r)" by fastforce
  from handler_keeps_core [OF h] have c: "same_core sv (fst c)" by simp
  show ?thesis
    by (cases r) (use c same_core_trans [OF c handle_error_core] in \<open>simp_all add: respond_def Some h\<close>)
qed

lemma serve_core: "same_core sv (fst (serve pt env parse sc events sv))"
proof -
  obtain l labels h where m: "middleware (pt_allow pt (ce_monotonic env)) (sv_ip_rate_limiter sv)
        (sv_max_request_body_bytes sv) sc events = (l, labels, h)" by (metis prod.exhaust)
  let ?sv = "after_ip_tier l labels sv"
  let ?id = "initial_request_state (bind_correlation_id (header (sc_headers sc) ''x-correlation-id'') (ce_fresh_id env))"
  have disp: "same_core ?sv (fst (dispatch pt env parse sc received (?sv, ?id)))" for received
    using respond_core [of ?sv pt env parse sc _ ?id]
    by (cases received; cases "hd received") (auto simp: dispatch_def)
  have "same_core ?sv (fst (serve pt env parse sc events sv))"
    using disp by (cases h) (simp_all add: serve_def Let_def m after_ip_tier_def case_prod_unfold)
  with after_ip_tier_core(1) show ?thesis by (rule same_core_trans)
qed

text \<open>What a service is at any time: its policy is fit and its identity is not empty.\<close>

definition service_inv :: "('k, 'l, 'g) service \<Rightarrow> bool" where
  "service_inv sv \<longleftrightarrow> policy_fit (uc_policy (sv_use_case sv)) \<and> deployed (sv_use_case sv)
     \<and> sv_service_version sv \<noteq> [] \<and> sv_environment sv \<noteq> []"

lemma reload_cases:
  "fst (reload_routing_policy yaml_load coerce content sv) =
    (case load_routing_policy yaml_load coerce content of
       Inl e \<Rightarrow> if is_RoutingPolicyLoadError e then count [PolicyReloads ''failed''] sv else sv
     | Inr policy \<Rightarrow> count [PolicyReloads ''succeeded''] (sv\<lparr>sv_use_case := \<lparr>uc_policy = policy,
         uc_service_version = sv_service_version sv, uc_environment = sv_environment sv\<rparr>\<rparr>))"
  by (simp add: reload_routing_policy_def split: sum.splits)

definition same_secrets :: "('k, 'l, 'g) service \<Rightarrow> ('k, 'l, 'g) service \<Rightarrow> bool" where
  "same_secrets sv sv' \<longleftrightarrow> sv_api_keys sv' = sv_api_keys sv \<and> sv_verifier sv' = sv_verifier sv
     \<and> sv_authorization_required sv' = sv_authorization_required sv"

lemma step_inv:
  assumes "coerces_dicts coerce" "service_step pt parse yaml_load coerce sv sv'" "service_inv sv"
  shows "service_inv sv' \<and> same_secrets sv sv'"
  using assms(2)
proof cases
  case (serves env sc events)
  with serve_core [of sv pt env parse sc events] assms(3) show ?thesis
    by (simp add: service_inv_def same_core_def same_secrets_def)
next
  case (reloads content)
  show ?thesis
  proof (cases "load_routing_policy yaml_load coerce content")
    case (Inl e)
    with assms(3) show ?thesis
      unfolding reloads reload_cases by (simp add: service_inv_def same_secrets_def)
  next
    case (Inr policy)
    with loaded_policy_fit [OF assms(1) Inr] assms(3) show ?thesis
      unfolding reloads reload_cases by (simp add: service_inv_def same_secrets_def deployed_def)
  qed
qed

lemma steps_inv:
  assumes "(service_step pt parse yaml_load coerce)\<^sup>*\<^sup>* sv sv'" "coerces_dicts coerce" "service_inv sv"
  shows "service_inv sv' \<and> same_secrets sv sv'"
  using assms(1)
proof (induction rule: rtranclp_induct)
  case base
  then show ?case using assms(3) by (simp add: same_secrets_def)
next
  case (step sv1 sv2)
  with step_inv [OF assms(2) step.hyps(2)] show ?case by (auto simp: same_secrets_def)
qed

section \<open>An example service\<close>

definition sample_service :: "(unit, unit, im_guard) service" where
  "sample_service =
    \<lparr>sv_use_case = rag_use_case, sv_api_keys = [(''planner'', ''secret'')],
     sv_max_request_body_bytes = 16384, sv_service_version = ''0.4.0'', sv_environment = ''test'',
     sv_authorization_required = False, sv_verifier = None, sv_guard = sample_guard,
     sv_rate_limiter = (), sv_ip_rate_limiter = (), sv_metrics = []\<rparr>"

definition sample_ports :: "(unit, unit, im_guard) ports" where
  "sample_ports =
    \<lparr>pt_allow = (\<lambda>_ s _. (s, True)), pt_consume = im_consume, pt_edv = sample_edv,
     pt_dump_time = sample_dump, pt_resolve = StaticAvailabilityProvider_resolve\<rparr>"

definition sample_env :: call_env where
  "sample_env =
    \<lparr>ce_monotonic = 0, ce_now = utc 0, ce_decision_id = ''d-1'', ce_decided_at = 0, ce_event_id = 9,
     ce_event_at = 0, ce_fresh_id = ''c-1''\<rparr>"

definition sample_parse :: parser where
  "sample_parse headers raw = (if raw = ''{}'' then Some (BareRequest sample_wire_request) else None)"

definition keyed_scope :: "string \<Rightarrow> scope" where
  "keyed_scope k = sample_http_scope\<lparr>sc_headers := [(''X-API-Key'', k)]\<rparr>"

lemma sample_parsed:
  "Option.bind (sample_parse headers ''{}'') validate_body = Some (BareRequest sample_wire_request)"
  using sample_wire_request_ok by (simp add: sample_parse_def validate_body_def)

lemma keyed_header: "header (sc_headers (keyed_scope k)) ''x-api-key'' = Some k"
proof -
  have "bytes_lower ''X-API-Key'' = ''x-api-key''" by code_simp
  then show ?thesis by (simp add: header_def keyed_scope_def)
qed

lemma sample_admitted: "snd (pt_allow sample_ports t l key)"
  by (simp add: sample_ports_def)

lemma sample_agent: "wq_agent_name sample_wire_request = ''planner''"
  by (simp add: sample_wire_request_def)

lemma sample_keys: "sv_api_keys sample_service = [(''planner'', ''secret'')]"
  by (simp add: sample_service_def)

theorem wrong_key_uniform_witness:
  "respond sample_ports sample_env sample_parse (keyed_scope ''wrong'') ''{}'' (sample_service, initial_request_state ''c-1'') =
    (after_agent_tier sample_ports sample_env
       (agent_key (keyed_scope ''wrong'') (BareRequest sample_wire_request)) sample_service,
     ErrorReply unauthorized_response)"
proof -
  have "ascii_str ''wrong''" "ascii_str ''secret''" by code_simp+
  then show ?thesis
    by (intro wrong_key_uniform sample_parsed sample_admitted)
      (simp_all add: authentic_key_def ascii_keys_def keyed_header sample_agent sample_keys)
qed

theorem non_ascii_key_reveals_agent_witness:
  "snd (respond sample_ports sample_env sample_parse (keyed_scope [CHR 0xE9]) ''{}''
     (sample_service, initial_request_state ''c-1'')) = InternalError ''TypeError''
   \<and> snd (respond sample_ports sample_env sample_parse (keyed_scope [CHR 0xE9]) ''{}''
     (sample_service\<lparr>sv_api_keys := []\<rparr>, initial_request_state ''c-1'')) = ErrorReply unauthorized_response"
proof -
  have "\<not> ascii_str [CHR 0xE9]" by code_simp
  note reveal = non_ascii_key_reveals_agent [where parse = sample_parse and raw = "''{}''", OF sample_parsed sample_admitted keyed_header this]
  show ?thesis
    unfolding reveal by (simp add: sample_agent sample_keys dict_has_def)
qed

lemma im_guard_codes: "guard_codes_known im_consume"
  by (auto simp: guard_codes_known_def im_consume_def Let_def store_full_def)

theorem metric_labels_bounded_witness:
  "\<exists>added. sv_metrics (fst (serve sample_ports sample_env sample_parse sample_http_scope [Request ''{}'' False] sample_service))
     = sv_metrics sample_service @ added \<and>
    list_all (bounded_metric (uc_policy (sv_use_case sample_service))) added"
proof (rule metric_labels_bounded)
  have "policy_fit (uc_policy rag_use_case)"
    using loaded_policy_fit [OF sample_coerces sample_policy_loads] by (simp add: rag_use_case_def)
  then show "policy_closed (uc_policy (sv_use_case sample_service))"
    by (simp add: sample_service_def policy_fit_def)
  show "guard_codes_known (pt_consume sample_ports)"
    using im_guard_codes by (simp add: sample_ports_def)
qed

end
