(* ===== verification/Deployment.thy ===== *)
theory Deployment
  imports Startup_Settings Http_Properties
begin

text \<open>
  Starting the service: \<open>entrypoints/runtime_authorization_factory.py\<close> and, of
  \<open>entrypoints/http.py\<close>, \<open>_service_version\<close>, \<open>_required_api_keys\<close>, \<open>_build_rate_limiter\<close> and the
  startup half of \<open>_lifespan\<close>.

  \<^item> \<open>platform\<close> is what the process runs on: whether the \<open>redis\<close> package is installed and its
    client accepts a URL, the files it can read, the libraries that are parameters elsewhere, and
    whether each backend answers its first ping.
  \<^item> A Redis-backed limiter or guard carries the server's state \<open>'w\<close> beside its configuration.
\<close>

section \<open>Environment and errors\<close>

datatype startup_error =
    RuntimeError string
  | SettingsError config_error
  | PolicyError load_error
  | AuthorizationError auth_error
  | StartupException string

record ('k, 'o) platform =
  pf_version :: "string option"
  pf_redis_installed :: bool
  pf_from_url :: "string \<Rightarrow> bool"
  pf_bracketed_ok :: "string \<Rightarrow> bool"
  pf_read_file :: "string \<Rightarrow> bytes option"
  pf_yaml_load :: "string \<Rightarrow> (yaml_exc, 'o) result"
  pf_coerce :: "'o \<Rightarrow> policy_config option"
  pf_fromiso :: "string \<Rightarrow> datetime option"
  pf_load_key :: "bytes \<Rightarrow> (auth_error, 'k) result"
  pf_control_get :: "string \<Rightarrow> redis_reply option"
  pf_times1000 :: "rat \<Rightarrow> rat"
  pf_random_secret :: bytes
  pf_guard_ping :: "unit option"
  pf_control_ping :: "unit option"
  pf_limiter_ping :: "unit option"

record environment =
  ev_settings :: env_settings
  ev_api_keys :: "string option"
  ev_authorization :: env_authorization
  ev_control :: env_control

definition with_error :: "('e \<Rightarrow> startup_error) \<Rightarrow> ('e, 'a) result \<Rightarrow> (startup_error, 'a) result" where
  "with_error f r = (case r of Inl e \<Rightarrow> Inl (f e) | Inr x \<Rightarrow> Inr x)"

definition deployed_env :: "string \<Rightarrow> bool" where
  "deployed_env app_env \<longleftrightarrow> app_env = ''staging'' \<or> app_env = ''production''"

text \<open>A URL is used when it is set and not empty.\<close>

definition truthy :: "string option \<Rightarrow> bool" where
  "truthy v \<longleftrightarrow> v \<noteq> None \<and> v \<noteq> Some []"

section \<open>The Redis URL\<close>

text \<open>
  What \<open>urlparse\<close> makes of a URL, as far as the factory asks: leading control characters and
  blanks are dropped, tabs and newlines removed; a scheme is a leading letter with letters,
  digits, \<open>+\<close>, \<open>-\<close> and \<open>.\<close> up to the first colon; the authority follows \<open>//\<close>. \<open>pf_bracketed_ok\<close> is the
  library's check of an authority with a bracketed address.
\<close>

definition is_letter :: "char \<Rightarrow> bool" where
  "is_letter c \<longleftrightarrow> is_lower c \<or> is_upper c"

definition scheme_char :: "char \<Rightarrow> bool" where
  "scheme_char c \<longleftrightarrow> is_letter c \<or> is_digit c \<or> c \<in> set ''+-.''"

definition url_clean :: "string \<Rightarrow> string" where
  "url_clean url =
    filter (\<lambda>c. c \<noteq> CHR 0x09 \<and> c \<noteq> CHR 0x0A \<and> c \<noteq> CHR 0x0D)
      (dropWhile (\<lambda>c. (of_char c :: nat) \<le> 32) url)"

definition split_scheme :: "string \<Rightarrow> string \<times> string" where
  "split_scheme url =
    (let before = takeWhile (\<lambda>c. c \<noteq> CHR '':'') url; after = dropWhile (\<lambda>c. c \<noteq> CHR '':'') url
     in if after \<noteq> [] \<and> before \<noteq> [] \<and> is_letter (hd before) \<and> list_all scheme_char before
        then (map lower_ascii before, tl after) else ([], url))"

definition netloc :: "string \<Rightarrow> string" where
  "netloc rest =
    (if take 2 rest = ''//'' then takeWhile (\<lambda>c. c \<notin> set ''/?#'') (drop 2 rest) else [])"

text \<open>\<open>rpartition('@')[2]\<close>\<close>

definition after_userinfo :: "string \<Rightarrow> string" where
  "after_userinfo s = rev (takeWhile (\<lambda>c. c \<noteq> CHR ''@'') (rev s))"

definition hostname :: "string \<Rightarrow> string" where
  "hostname authority =
    (let hostinfo = after_userinfo authority in
     if CHR ''['' \<in> set hostinfo
     then takeWhile (\<lambda>c. c \<noteq> CHR '']'') (tl (dropWhile (\<lambda>c. c \<noteq> CHR ''['') hostinfo))
     else takeWhile (\<lambda>c. c \<noteq> CHR '':'') hostinfo)"

definition urlparse :: "(string \<Rightarrow> bool) \<Rightarrow> string \<Rightarrow> (startup_error, string \<times> string) result" where
  "urlparse bracketed_ok url =
    (let (scheme, rest) = split_scheme (url_clean url); authority = netloc rest;
         opens = CHR ''['' \<in> set authority; closes = CHR '']'' \<in> set authority
     in rbind (raise_if (opens \<noteq> closes) (StartupException ''ValueError'')) (\<lambda>_.
        rbind (raise_if (opens \<and> closes \<and> \<not> bracketed_ok authority) (StartupException ''ValueError'')) (\<lambda>_.
        Inr (scheme, hostname authority))))"

section \<open>The verifier\<close>

datatype 'w replay_state = MemoryReplay im_guard | RedisReplay string 'w

definition redis_client :: "('k, 'o) platform \<Rightarrow> string \<Rightarrow> string \<Rightarrow> (startup_error, unit) result" where
  "redis_client pf message url =
    rbind (raise_if (\<not> pf_redis_installed pf) (RuntimeError message)) (\<lambda>_.
    raise_if (\<not> pf_from_url pf url) (StartupException ''ValueError''))"

definition require_digest :: "string \<Rightarrow> string \<Rightarrow> (startup_error, unit) result" where
  "require_digest name digest =
    raise_if (length digest \<noteq> 64 \<or> \<not> list_all is_hex digest)
      (RuntimeError (name @ '' must be a lowercase SHA-256 digest''))"

definition build_replay_guard ::
  "('k, 'o) platform \<Rightarrow> 'w \<Rightarrow> string \<Rightarrow> string option \<Rightarrow> string \<Rightarrow> int \<Rightarrow>
    (startup_error, 'w replay_state) result" where
  "build_replay_guard pf w app_env redis_url prefix max_entries =
    (if truthy redis_url then
       rbind (redis_client pf
         ''REDIS_URL is set but redis is not installed; install with `uv sync --extra rate-limit`''
         (the redis_url)) (\<lambda>_.
       rbind (with_error AuthorizationError (RedisGuard prefix)) (\<lambda>p. Inr (RedisReplay p w)))
     else if deployed_env app_env then
       Inl (RuntimeError ''REDIS_URL is required for distributed runtime authorization replay protection'')
     else rbind (with_error AuthorizationError (InMemoryGuard max_entries)) (\<lambda>g. Inr (MemoryReplay g)))"

definition build_runtime_control_enforcer ::
  "('k, 'o) platform \<Rightarrow> control_settings \<Rightarrow> string \<Rightarrow> string option \<Rightarrow>
    (startup_error, control_store option) result" where
  "build_runtime_control_enforcer pf settings app_env redis_url =
    (if \<not> cs_required settings then Inr None
     else
       rbind (raise_if (\<not> truthy redis_url)
         (RuntimeError ''REDIS_URL is required for Runtime Control enforcement'')) (\<lambda>_.
       rbind (urlparse (pf_bracketed_ok pf) (the redis_url)) (\<lambda>(scheme, host).
       rbind (raise_if (scheme \<notin> set [''redis'', ''rediss''] \<or> host = [])
         (RuntimeError ''REDIS_URL must be an absolute redis:// or rediss:// URL'')) (\<lambda>_.
       rbind (raise_if (deployed_env app_env \<and> scheme \<noteq> ''rediss'')
         (RuntimeError ''REDIS_URL must use rediss:// for deployed Runtime Control'')) (\<lambda>_.
       rbind (redis_client pf
         ''Runtime Control requires redis; install with `uv sync --extra rate-limit`''
         (the redis_url)) (\<lambda>_.
       rbind (with_error AuthorizationError
         (RedisStore (cs_redis_key_prefix settings) (cs_max_snapshot_bytes settings))) (\<lambda>store.
       Inr (Some (redis_read (pf_control_get pf) store)))))))))"

text \<open>\<open>None\<close> is the disabled verifier.\<close>

definition build_runtime_authorization_verifier ::
  "('k, 'o) platform \<Rightarrow> 'w \<Rightarrow> authorization_settings \<Rightarrow> control_settings \<Rightarrow> string \<Rightarrow> string option \<Rightarrow>
    (startup_error, ('k verifier \<times> 'w replay_state) option) result" where
  "build_runtime_authorization_verifier pf w settings control app_env redis_url =
    rbind (raise_if (deployed_env app_env \<and> \<not> as_required settings)
      (RuntimeError ''RUNTIME_AUTHORIZATION_REQUIRED must be true in staging and production'')) (\<lambda>_.
    rbind (raise_if (deployed_env app_env \<and> \<not> cs_required control)
      (RuntimeError ''RUNTIME_CONTROL_REQUIRED must be true in staging and production'')) (\<lambda>_.
    rbind (raise_if (cs_required control \<and> \<not> as_required settings)
      (RuntimeError ''Runtime Control requires signed Runtime Authorization enforcement'')) (\<lambda>_.
    if \<not> as_required settings then Inr None
    else
      rbind (some_or (as_trusted_key_set_path settings)
        (RuntimeError ''RUNTIME_AUTHORIZATION_TRUSTED_KEY_SET_PATH is required'')) (\<lambda>path.
      rbind (require_digest ''RUNTIME_AUTHORIZATION_EXPECTED_POLICY_DIGEST'' (as_policy_digest settings)) (\<lambda>_.
      rbind (require_digest ''RUNTIME_AUTHORIZATION_EXPECTED_CONTROL_CATALOG_DIGEST''
        (as_catalog_digest settings)) (\<lambda>_.
      rbind (with_error AuthorizationError (load_trusted_key_set (pf_fromiso pf) (pf_load_key pf)
        (as_max_key_set_bytes settings) (pf_read_file pf path))) (\<lambda>keys.
      rbind (with_error AuthorizationError (parse_agent_bindings (as_agent_bindings_json settings))) (\<lambda>bindings.
      rbind (build_replay_guard pf w app_env redis_url (as_replay_key_prefix settings)
        (as_replay_max_entries settings)) (\<lambda>guard.
      rbind (build_runtime_control_enforcer pf control app_env redis_url) (\<lambda>runtime_control.
      rbind (with_error AuthorizationError (RuntimeAuthorizationVerifier
        \<lparr>vf_key_set = keys, vf_issuer = as_issuer settings, vf_audience = as_audience settings,
         vf_agent_bindings = bindings, vf_policy_id = as_policy_id settings,
         vf_policy_version = as_policy_version settings, vf_policy_digest = as_policy_digest settings,
         vf_control_catalog_id = as_catalog_id settings,
         vf_control_catalog_version = as_catalog_version settings,
         vf_control_catalog_digest = as_catalog_digest settings,
         vf_runtime_control = runtime_control, vf_clock_skew = 0\<rparr>
        (as_clock_skew_seconds settings))) (\<lambda>verifier.
      Inr (Some (verifier, guard)))))))))))))"

section \<open>Keys and limiters\<close>

definition service_version :: "string option \<Rightarrow> string" where
  "service_version installed = (case installed of Some v \<Rightarrow> v | None \<Rightarrow> ''0.0.0-dev'')"

fun api_key_entry :: "string \<times> json \<Rightarrow> (string \<times> string) option" where
  "api_key_entry (k, JStr v) = (if k \<noteq> [] \<and> v \<noteq> [] then Some (k, v) else None)"
| "api_key_entry _ = None"

fun all_entries :: "('a \<Rightarrow> 'b option) \<Rightarrow> 'a list \<Rightarrow> 'b list option" where
  "all_entries f [] = Some []"
| "all_entries f (x # xs) = (case f x of None \<Rightarrow> None | Some y \<Rightarrow> map_option ((#) y) (all_entries f xs))"

definition required_api_keys :: "string option \<Rightarrow> (startup_error, (string, string) dict) result" where
  "required_api_keys variable =
    (let raw = default_or [] variable; malformed = RuntimeError
           (''API_KEYS environment variable must be a non-empty JSON object of ''
            @ ''non-empty string agent_name/key pairs'')
     in rbind (raise_if (raw = [])
          (RuntimeError ''API_KEYS environment variable is required to start this service'')) (\<lambda>_.
        case json_loads raw of
          Inl JSONDecodeError \<Rightarrow> Inl (RuntimeError
            ''API_KEYS environment variable must be a JSON object mapping agent_name to API key'')
        | Inl IntTooLong \<Rightarrow> Inl (StartupException ''ValueError'')
        | Inl _ \<Rightarrow> Inl (StartupException ''outside the model'')
        | Inr (JObj d) \<Rightarrow> if d = [] then Inl malformed else some_or (all_entries api_key_entry d) malformed
        | Inr _ \<Rightarrow> Inl malformed))"

datatype 'w limiter = LocalLimiter im_limiter | SharedLimiter redis_limiter 'w

definition build_rate_limiter ::
  "('k, 'o) platform \<Rightarrow> 'w \<Rightarrow> int \<Rightarrow> pyfloat \<Rightarrow> int \<Rightarrow> string option \<Rightarrow> bytes option \<Rightarrow>
    (startup_error, 'w limiter) result" where
  "build_rate_limiter pf w max_requests window_seconds max_tracked_keys redis_url secret =
    (if \<not> truthy redis_url then
       (case window_seconds of
          Finite s \<Rightarrow> Inr (LocalLimiter (InMemoryRateLimiter max_requests s (nat max_tracked_keys)))
        | NonFinite \<Rightarrow> Inl (StartupException ''outside the model''))
     else
       rbind (redis_client pf
         ''REDIS_URL is set but the 'redis' package is not installed; install it with `uv sync --extra rate-limit`''
         (the redis_url)) (\<lambda>_.
       rbind (with_error (\<lambda>m. StartupException ''ValueError'')
         (RedisRateLimiter (pf_times1000 pf) (pf_random_secret pf) max_requests window_seconds secret)) (\<lambda>r.
       Inr (SharedLimiter r w))))"

definition limiter_ping :: "('k, 'o) platform \<Rightarrow> 'w limiter \<Rightarrow> (startup_error, unit) result" where
  "limiter_ping pf l =
    (case l of
       LocalLimiter _ \<Rightarrow> Inr ()
     | SharedLimiter _ _ \<Rightarrow>
         with_error (\<lambda>m. RuntimeError ''rate limiter backend is not reachable'')
           (redis_limiter_ping (pf_limiter_ping pf)))"

definition guard_ping :: "('k, 'o) platform \<Rightarrow> 'w replay_state \<Rightarrow> (auth_error, unit) result" where
  "guard_ping pf g =
    (case g of MemoryReplay _ \<Rightarrow> Inr () | RedisReplay _ _ \<Rightarrow> some_or (pf_guard_ping pf) store_unavailable)"

section \<open>Startup\<close>

text \<open>
  \<open>_lifespan\<close> up to its \<open>yield\<close>. The state of the Redis server for each client is \<open>w\<close>.
\<close>

definition lifespan ::
  "('k, 'o) platform \<Rightarrow> 'w \<Rightarrow> environment \<Rightarrow>
    (startup_error, ('k, 'w limiter, 'w replay_state option) service) result" where
  "lifespan pf w ev =
    rbind (with_error SettingsError (Settings (ev_settings ev))) (\<lambda>settings.
    rbind (with_error PolicyError (load_routing_policy (pf_yaml_load pf) (pf_coerce pf)
      (pf_read_file pf (st_routing_policy_path settings)))) (\<lambda>policy.
    rbind (required_api_keys (ev_api_keys ev)) (\<lambda>api_keys.
    rbind (with_error SettingsError (AuthorizationSettings (ev_authorization ev))) (\<lambda>authorization.
    rbind (with_error SettingsError (ControlSettings (ev_control ev))) (\<lambda>control.
    rbind (build_runtime_authorization_verifier pf w authorization control (st_app_env settings)
      (st_redis_url settings)) (\<lambda>built.
    rbind (case built of
        None \<Rightarrow> Inr ()
      | Some (vf, guard) \<Rightarrow> with_error AuthorizationError
          (verifier_ping vf (guard_ping pf guard) (redis_ping (pf_control_ping pf)))) (\<lambda>_.
    let version = service_version (pf_version pf);
        secret = map_option utf8_encode (st_fingerprint_secret settings);
        build = (\<lambda>limit. build_rate_limiter pf w limit (st_window_seconds settings)
          (st_max_tracked_keys settings) (st_redis_url settings) secret)
    in
    rbind (build (st_max_requests settings)) (\<lambda>rate_limiter.
    rbind (build (st_per_ip_max_requests settings)) (\<lambda>ip_rate_limiter.
    rbind (limiter_ping pf rate_limiter) (\<lambda>_.
    rbind (limiter_ping pf ip_rate_limiter) (\<lambda>_.
    Inr \<lparr>sv_use_case = \<lparr>uc_policy = policy, uc_service_version = version,
           uc_environment = st_app_env settings\<rparr>,
         sv_api_keys = api_keys, sv_max_request_body_bytes = st_max_request_body_bytes settings,
         sv_service_version = version, sv_environment = st_app_env settings,
         sv_authorization_required = as_required authorization,
         sv_verifier = map_option fst built, sv_guard = map_option snd built,
         sv_rate_limiter = rate_limiter, sv_ip_rate_limiter = ip_rate_limiter,
         sv_metrics = []\<rparr>)))))))))))"

end
