(* ===== verification/Startup_Properties.thy ===== *)
theory Startup_Properties
  imports Deployment
begin

text \<open>
  What a service that started guarantees, at startup and for as long as it runs, and that a
  deployed one answers with a decision exactly for newly authorized requests.
\<close>

section \<open>Taking a startup apart\<close>

lemma with_error_Inr [simp]: "with_error f r = Inr x \<longleftrightarrow> r = Inr x"
  by (auto simp: with_error_def split: sum.splits)

lemma lifespan_Inr:
  assumes "lifespan pf w ev = Inr sv"
  obtains settings policy authorization control built where
    "Settings (ev_settings ev) = Inr settings"
    "load_routing_policy (pf_yaml_load pf) (pf_coerce pf)
       (pf_read_file pf (st_routing_policy_path settings)) = Inr policy"
    "required_api_keys (ev_api_keys ev) = Inr (sv_api_keys sv)"
    "AuthorizationSettings (ev_authorization ev) = Inr authorization"
    "build_runtime_authorization_verifier pf w authorization control (st_app_env settings)
       (st_redis_url settings) = Inr built"
    "sv_use_case sv = \<lparr>uc_policy = policy, uc_service_version = service_version (pf_version pf),
       uc_environment = st_app_env settings\<rparr>"
    "sv_service_version sv = service_version (pf_version pf)" "sv_environment sv = st_app_env settings"
    "sv_authorization_required sv = as_required authorization"
    "sv_verifier sv = map_option fst built" "sv_guard sv = map_option snd built"
proof -
  from assms show ?thesis
    unfolding lifespan_def Let_def
    by (elim rbind_elims, unfold with_error_Inr sum.inject, hypsubst, intro that)
      (assumption | simp)+
qed

lemma replay_guard_deployed:
  "build_replay_guard pf w app_env redis_url prefix n = Inr g \<Longrightarrow> deployed_env app_env \<Longrightarrow>
    truthy redis_url \<and> g = RedisReplay prefix w"
  by (auto simp: build_replay_guard_def RedisGuard_def result_iffs split: if_splits)

lemma control_enforcer_deployed:
  assumes "build_runtime_control_enforcer pf settings app_env redis_url = Inr c"
    and "deployed_env app_env" "cs_required settings"
  shows "\<exists>store host. urlparse (pf_bracketed_ok pf) (the redis_url) = Inr (''rediss'', host) \<and> host \<noteq> []
    \<and> c = Some (redis_read (pf_control_get pf) store)"
  using assms
  by (auto simp: build_runtime_control_enforcer_def result_iffs split: prod.splits)

definition lower_hex64 :: "string \<Rightarrow> bool" where
  "lower_hex64 s \<longleftrightarrow> length s = 64 \<and> list_all is_hex s"

lemma require_digest_iff: "require_digest name d = Inr u \<longleftrightarrow> lower_hex64 d"
  by (auto simp: require_digest_def lower_hex64_def raise_if_Inr_iff)

text \<open>What a deployment needs of its verifier.\<close>

definition hardened :: "('k, 'o) platform \<Rightarrow> 'k verifier \<Rightarrow> bool" where
  "hardened pf vf \<longleftrightarrow> lower_hex64 (vf_policy_digest vf) \<and> lower_hex64 (vf_control_catalog_digest vf)
     \<and> (\<exists>k \<in> set (ks_keys (vf_key_set vf)). tk_status k = ACTIVE_KEY) \<and> vf_agent_bindings vf \<noteq> []
     \<and> vf_issuer vf \<noteq> [] \<and> vf_audience vf \<noteq> [] \<and> 0 \<le> vf_clock_skew vf \<and> vf_clock_skew vf \<le> seconds 60
     \<and> (\<exists>store. vf_runtime_control vf = Some (redis_read (pf_control_get pf) store))"

lemma verifier_built:
  "RuntimeAuthorizationVerifier candidate skew = Inr vf \<longleftrightarrow>
    vf_issuer candidate \<noteq> [] \<and> vf_audience candidate \<noteq> [] \<and> 0 \<le> skew \<and> skew \<le> 60
    \<and> vf_agent_bindings candidate \<noteq> [] \<and> vf = candidate\<lparr>vf_clock_skew := seconds skew\<rparr>"
  by (auto simp: RuntimeAuthorizationVerifier_def result_iffs)

lemma build_verifier_deployed:
  assumes "build_runtime_authorization_verifier pf w settings control app_env redis_url = Inr built"
    and env: "deployed_env app_env"
  shows "as_required settings \<and> truthy redis_url \<and>
    (\<exists>vf. built = Some (vf, RedisReplay (as_replay_key_prefix settings) w) \<and> hardened pf vf) \<and>
    (\<exists>host. urlparse (pf_bracketed_ok pf) (the redis_url) = Inr (''rediss'', host) \<and> host \<noteq> [])"
proof -
  have req: "as_required settings" "cs_required control"
    using assms by (auto simp: build_runtime_authorization_verifier_def result_iffs)
  obtain path keys bindings guard rc vf where
    d: "lower_hex64 (as_policy_digest settings)" "lower_hex64 (as_catalog_digest settings)"
    and keys: "load_trusted_key_set (pf_fromiso pf) (pf_load_key pf) (as_max_key_set_bytes settings)
      (pf_read_file pf path) = Inr keys"
    and guard: "build_replay_guard pf w app_env redis_url (as_replay_key_prefix settings)
      (as_replay_max_entries settings) = Inr guard"
    and rc: "build_runtime_control_enforcer pf control app_env redis_url = Inr rc"
    and vf: "RuntimeAuthorizationVerifier
        \<lparr>vf_key_set = keys, vf_issuer = as_issuer settings, vf_audience = as_audience settings,
         vf_agent_bindings = bindings, vf_policy_id = as_policy_id settings,
         vf_policy_version = as_policy_version settings, vf_policy_digest = as_policy_digest settings,
         vf_control_catalog_id = as_catalog_id settings,
         vf_control_catalog_version = as_catalog_version settings,
         vf_control_catalog_digest = as_catalog_digest settings,
         vf_runtime_control = rc, vf_clock_skew = 0\<rparr> (as_clock_skew_seconds settings) = Inr vf"
    and built: "built = Some (vf, guard)"
    using assms(1) unfolding build_runtime_authorization_verifier_def
    by (elim rbind_elims, simp only: req not_True_eq_False if_False, elim rbind_elims)
      (simp add: require_digest_iff)
  from control_enforcer_deployed [OF rc env req(2)] obtain store host where
    c: "urlparse (pf_bracketed_ok pf) (the redis_url) = Inr (''rediss'', host)" "host \<noteq> []"
      "rc = Some (redis_read (pf_control_get pf) store)" by blast
  from keys obtain v where "parse_key_set (pf_fromiso pf) (pf_load_key pf) v = Inr keys"
    unfolding load_trusted_key_set_def
    by (elim rbind_elims) (auto split: sum.splits document_error.splits)
  from parse_key_set_Inr [OF this] have "hardened pf vf"
    using vf d c(3) by (auto simp: verifier_built hardened_def)
  with replay_guard_deployed [OF guard env] c req built show ?thesis by blast
qed

lemma all_entries_Some:
  "all_entries f xs = Some ys \<longleftrightarrow> list_all2 (\<lambda>x y. f x = Some y) xs ys"
  by (induction xs arbitrary: ys) (auto simp: list_all2_Cons1 split: option.splits)

lemma api_key_entry_Some: "api_key_entry e = Some (k, v) \<longleftrightarrow> e = (k, JStr v) \<and> k \<noteq> [] \<and> v \<noteq> []"
  by (cases e rule: api_key_entry.cases) auto

lemma required_api_keys_Inr:
  assumes "required_api_keys variable = Inr keys"
  shows "keys \<noteq> [] \<and> wf_dict keys \<and> (\<forall>(agent, key) \<in> set keys. agent \<noteq> [] \<and> key \<noteq> [])"
proof -
  from assms obtain raw d where d: "json_loads raw = Inr (JObj d)" "d \<noteq> []"
      "list_all2 (\<lambda>x y. api_key_entry x = Some y) d keys"
    by (auto simp: required_api_keys_def Let_def rbind_Inr_iff some_or_Inr_iff all_entries_Some
        split: sum.splits json_error.splits json.splits if_splits)
  have "list_all2 (\<lambda>x y. fst x = fst y) d keys"
    using d(3) by (rule list_all2_mono) (auto simp: api_key_entry_Some)
  then have "dict_keys d = dict_keys keys" by (simp add: list_all2_map1 list_all2_map2 list.rel_eq [symmetric])
  with json_loads_obj [OF d(1)] have "wf_dict keys" by simp
  moreover have "keys \<noteq> []" using d by auto
  moreover have "\<forall>(agent, key) \<in> set keys. agent \<noteq> [] \<and> key \<noteq> []"
    using list_all2_in2 [OF d(3)] by (fastforce simp: api_key_entry_Some)
  ultimately show ?thesis by blast
qed

lemma app_env_not_blank: "Settings e = Inr s \<Longrightarrow> st_app_env s \<noteq> []"
  by (auto simp: Settings_iff settings_ok_def app_envs_def)

lemma started_inv:
  assumes "coerces_dicts (pf_coerce pf)" "pf_version pf \<noteq> Some []" "lifespan pf w ev = Inr sv"
  shows "service_inv sv"
proof (rule lifespan_Inr [OF assms(3)])
  fix settings policy authorization control built
  assume s: "Settings (ev_settings ev) = Inr settings"
    and p: "load_routing_policy (pf_yaml_load pf) (pf_coerce pf)
       (pf_read_file pf (st_routing_policy_path settings)) = Inr policy"
    and uc: "sv_use_case sv = \<lparr>uc_policy = policy, uc_service_version = service_version (pf_version pf),
       uc_environment = st_app_env settings\<rparr>"
    and v: "sv_service_version sv = service_version (pf_version pf)" "sv_environment sv = st_app_env settings"
  have "service_version (pf_version pf) \<noteq> []"
    using assms(2) by (auto simp: service_version_def split: option.splits)
  with loaded_policy_fit [OF assms(1) p] app_env_not_blank [OF s] uc v show ?thesis
    by (simp add: service_inv_def deployed_def)
qed

section \<open>A production start\<close>

definition sample_platform :: "(bytes, string) platform" where
  "sample_platform =
    \<lparr>pf_version = Some ''0.5.0'', pf_redis_installed = True, pf_from_url = (\<lambda>url. True),
     pf_bracketed_ok = (\<lambda>authority. True),
     pf_read_file = (\<lambda>path. if path = ''keys'' then Some sample_key_file
       else if path = ''policy'' then Some (utf8_encode ''policy'') else None),
     pf_yaml_load = Inr, pf_coerce = sample_coerce, pf_fromiso = iso_basic,
     pf_load_key = sample_load_key, pf_control_get = sample_get, pf_times1000 = (\<lambda>x. 1000 * x),
     pf_random_secret = [], pf_guard_ping = Some (), pf_control_ping = Some (),
     pf_limiter_ping = Some ()\<rparr>"

definition sample_api_keys :: json where
  "sample_api_keys = JObj [(''planner'', JStr ''secret'')]"

definition sample_bindings :: json where
  "sample_bindings = JObj [(''planner'', JStr ''00000000-0000-0000-0000-000000000007'')]"

definition production :: environment where
  "production =
    \<lparr>ev_settings = \<lparr>en_routing_policy_path = Some ''policy'', en_app_env = Some ''production'',
       en_log_level = None, en_log_format = None, en_max_requests = None,
       en_per_ip_max_requests = None, en_window_seconds = None, en_max_tracked_keys = None,
       en_fingerprint_secret = None, en_redis_url = Some ''rediss://redis:6379/0'',
       en_enable_api_docs = None, en_max_request_body_bytes = None\<rparr>,
     ev_api_keys = Some (emit sample_api_keys),
     ev_authorization = \<lparr>ea_required = Some True, ea_issuer = None, ea_audience = None,
       ea_trusted_key_set_path = Some ''keys'', ea_agent_bindings_json = Some (emit sample_bindings),
       ea_policy_id = None, ea_policy_version = None, ea_policy_digest = Some (replicate 64 (CHR ''a'')),
       ea_catalog_id = None, ea_catalog_version = None,
       ea_catalog_digest = Some (replicate 64 (CHR ''a'')), ea_clock_skew_seconds = None,
       ea_max_key_set_bytes = Some 4096, ea_replay_key_prefix = None, ea_replay_max_entries = None\<rparr>,
     ev_control = \<lparr>ec_required = Some True, ec_redis_key_prefix = None, ec_max_snapshot_bytes = None,
       ec_timeout_seconds = None\<rparr>\<rparr>"

lemma production_settings:
  "\<exists>s. Settings (ev_settings production) = Inr s \<and> st_routing_policy_path s = ''policy'' \<and>
    st_app_env s = ''production'' \<and> st_redis_url s = Some ''rediss://redis:6379/0'' \<and>
    st_window_seconds s = Finite 60"
  by (simp add: Settings_iff settings_ok_def env_defaults_def production_def default_or_def
      app_envs_def log_levels_def log_formats_def blank_env_value_means_unset_def)

lemma production_keys: "required_api_keys (ev_api_keys production) = Inr [(''planner'', ''secret'')]"
proof -
  have "json_loads (emit sample_api_keys) = Inr sample_api_keys"
    by (rule emit_reads) (simp add: sample_api_keys_def)
  moreover have "emit sample_api_keys \<noteq> []" by (simp add: sample_api_keys_def)
  ultimately show ?thesis
    by (simp add: required_api_keys_def production_def default_or_def raise_if_def)
      (simp add: sample_api_keys_def)
qed

lemma production_bindings: "parse_agent_bindings (emit sample_bindings) = Inr [(''planner'', 7)]"
proof -
  have "json_loads (emit sample_bindings) = Inr sample_bindings"
    by (rule emit_reads) (simp add: sample_bindings_def)
  moreover have "parse_uuid ''00000000-0000-0000-0000-000000000007'' = Some 7" by code_simp
  ultimately show ?thesis
    by (simp add: parse_agent_bindings_def loads_text_def) (simp add: sample_bindings_def parse_binding_def)
qed

lemma default_texts:
  "py_strip ''verifiable-ai-governance:production'' = ''verifiable-ai-governance:production''"
  "py_strip ''policy-model-router'' = ''policy-model-router''"
  "py_strip ''baseline-governance-policy'' = ''baseline-governance-policy''"
  "py_strip ''1.0.0'' = ''1.0.0''"
  "py_strip ''verifiable-ai-governance-baseline'' = ''verifiable-ai-governance-baseline''"
  "py_strip ''policy-model-router:runtime-auth:'' = ''policy-model-router:runtime-auth:''"
  "py_strip ''verifiable-ai-governance:runtime-control:v1:agent:'' = ''verifiable-ai-governance:runtime-control:v1:agent:''"
  by code_simp+

lemma production_authorization:
  "\<exists>a. AuthorizationSettings (ev_authorization production) = Inr a \<and> as_required a \<and>
    as_issuer a \<noteq> [] \<and> as_audience a \<noteq> [] \<and> as_trusted_key_set_path a = Some ''keys'' \<and>
    as_agent_bindings_json a = emit sample_bindings \<and> as_policy_digest a = replicate 64 (CHR ''a'') \<and>
    as_catalog_digest a = replicate 64 (CHR ''a'') \<and> as_clock_skew_seconds a = 0 \<and>
    as_max_key_set_bytes a = 4096 \<and> as_replay_key_prefix a \<noteq> []"
  by (simp add: AuthorizationSettings_def production_def default_or_def require_non_empty_def
      default_texts bounded_int_def require_field_def blank_env_value_means_unset_def)

lemma production_control:
  "\<exists>c. ControlSettings (ev_control production) = Inr c \<and> cs_required c \<and>
    cs_redis_key_prefix c = ''verifiable-ai-governance:runtime-control:v1:agent:'' \<and>
    cs_max_snapshot_bytes c = 4096"
  by (simp add: ControlSettings_def production_def default_or_def require_key_prefix_def
      default_texts bounded_int_def require_field_def)

lemma production_url: "urlparse (\<lambda>authority. True) ''rediss://redis:6379/0'' = Inr (''rediss'', ''redis'')"
  by code_simp

lemma production_starts: "\<exists>sv. lifespan sample_platform w production = Inr sv \<and> sv_environment sv = ''production''"
proof -
  obtain s where s: "Settings (ev_settings production) = Inr s" "st_routing_policy_path s = ''policy''"
    "st_app_env s = ''production''" "st_redis_url s = Some ''rediss://redis:6379/0''"
    "st_window_seconds s = Finite 60" using production_settings by blast
  obtain a where a: "AuthorizationSettings (ev_authorization production) = Inr a" "as_required a"
    "as_issuer a \<noteq> []" "as_audience a \<noteq> []" "as_trusted_key_set_path a = Some ''keys''"
    "as_agent_bindings_json a = emit sample_bindings" "as_policy_digest a = replicate 64 (CHR ''a'')"
    "as_catalog_digest a = replicate 64 (CHR ''a'')" "as_clock_skew_seconds a = 0"
    "as_max_key_set_bytes a = 4096" "as_replay_key_prefix a \<noteq> []"
    using production_authorization by blast
  obtain c where c: "ControlSettings (ev_control production) = Inr c" "cs_required c"
    "cs_redis_key_prefix c = ''verifiable-ai-governance:runtime-control:v1:agent:''"
    "cs_max_snapshot_bytes c = 4096" using production_control by blast
  have hex: "is_hex (CHR ''a'')" by code_simp
  have "lower_hex64 (replicate 64 (CHR ''a''))" by (simp add: lower_hex64_def list_all_iff hex)
  then have dig: "require_digest n (replicate 64 (CHR ''a'')) = Inr ()" for n
    by (simp add: require_digest_iff)
  have files: "pf_read_file sample_platform ''keys'' = Some sample_key_file"
    "pf_read_file sample_platform ''policy'' = Some (utf8_encode ''policy'')"
    by (simp_all add: sample_platform_def)
  have policy: "\<exists>p. load_routing_policy (pf_yaml_load sample_platform) (pf_coerce sample_platform)
      (Some (utf8_encode ''policy'')) = Inr p"
    using sample_policy_loads by (simp add: sample_platform_def)
  have keys: "load_trusted_key_set (pf_fromiso sample_platform) (pf_load_key sample_platform) 4096
      (Some sample_key_file) = Inr sample_key_set"
    using sample_key_loads by (simp add: sample_platform_def)
  have client: "redis_client sample_platform m u = Inr ()" for m u
    by (simp add: redis_client_def sample_platform_def)
  have guard: "build_replay_guard sample_platform w ''production'' (Some ''rediss://redis:6379/0'')
      (as_replay_key_prefix a) n = Inr (RedisReplay (as_replay_key_prefix a) w)" for n
    using a(11) by (simp add: build_replay_guard_def truthy_def client RedisGuard_def raise_if_def with_error_def)
  have "\<exists>st. RedisStore ''verifiable-ai-governance:runtime-control:v1:agent:'' 4096 = Inr st"
    by (simp add: RedisStore_def default_texts)
  then obtain st where store: "RedisStore ''verifiable-ai-governance:runtime-control:v1:agent:'' 4096 = Inr st" ..
  have control: "build_runtime_control_enforcer sample_platform c ''production''
      (Some ''rediss://redis:6379/0'') = Inr (Some (redis_read (pf_control_get sample_platform) st))"
    using c store production_url client
    by (simp add: build_runtime_control_enforcer_def truthy_def with_error_def)
      (simp add: sample_platform_def)
  obtain built where built: "build_runtime_authorization_verifier sample_platform w a c ''production''
      (Some ''rediss://redis:6379/0'') = Inr (Some built)"
    using a c dig files keys production_bindings guard control
    by (simp add: build_runtime_authorization_verifier_def RuntimeAuthorizationVerifier_def with_error_def)
  have ping: "(case built of (vf, guard) \<Rightarrow> with_error AuthorizationError (verifier_ping vf
      (guard_ping sample_platform guard) (redis_ping (pf_control_ping sample_platform)))) = Inr ()"
    by (cases built; cases "snd built") (simp_all add: verifier_ping_def guard_ping_def redis_ping_def
        enforcer_ping_def sample_platform_def with_error_def)
  have limiter: "\<exists>l. build_rate_limiter sample_platform w n (Finite 60) m (Some ''rediss://redis:6379/0'') x
      = Inr (SharedLimiter l w)" for n m x
    by (simp add: build_rate_limiter_def truthy_def client RedisRateLimiter_def max_window_seconds_def
        with_error_def)
  have lping: "limiter_ping sample_platform (SharedLimiter l w) = Inr ()" for l
    by (simp add: limiter_ping_def redis_limiter_ping_def sample_platform_def with_error_def)
  obtain p where p: "load_routing_policy (pf_yaml_load sample_platform) (pf_coerce sample_platform)
      (Some (utf8_encode ''policy'')) = Inr p" using policy ..
  obtain l1 where l1: "build_rate_limiter sample_platform w (st_max_requests s) (Finite 60)
      (st_max_tracked_keys s) (Some ''rediss://redis:6379/0'')
      (map_option utf8_encode (st_fingerprint_secret s)) = Inr (SharedLimiter l1 w)" using limiter by blast
  obtain l2 where l2: "build_rate_limiter sample_platform w (st_per_ip_max_requests s) (Finite 60)
      (st_max_tracked_keys s) (Some ''rediss://redis:6379/0'')
      (map_option utf8_encode (st_fingerprint_secret s)) = Inr (SharedLimiter l2 w)" using limiter by blast
  show ?thesis
    unfolding lifespan_def Let_def
    using ping lping by (simp add: s a(1) c(1) files p production_keys built l1 l2 with_error_def)
qed

section \<open>Properties\<close>

text \<open>
  C35. A deployment fails closed: in staging and production a service that starts enforces signed
  authorization and the kill switch. Its verifier has an active trusted key, exact digests, agent
  bindings, at most a minute of clock skew and a Redis control store; its replay guard is shared
  through Redis; the Redis URL is a \<open>rediss\<close> URL with a host; and it has API keys.
\<close>

theorem deployed_startup_hardened:
  assumes "lifespan pf w ev = Inr sv" "deployed_env (sv_environment sv)"
  shows "sv_authorization_required sv \<and>
    (\<exists>vf prefix. sv_verifier sv = Some vf \<and> hardened pf vf \<and> sv_guard sv = Some (RedisReplay prefix w)) \<and>
    (\<exists>url host. en_redis_url (ev_settings ev) = Some url \<and>
       urlparse (pf_bracketed_ok pf) url = Inr (''rediss'', host) \<and> host \<noteq> []) \<and>
    sv_api_keys sv \<noteq> [] \<and> (\<forall>(agent, key) \<in> set (sv_api_keys sv). agent \<noteq> [] \<and> key \<noteq> [])"
proof (rule lifespan_Inr [OF assms(1)])
  fix settings policy authorization control built
  assume s: "Settings (ev_settings ev) = Inr settings"
    and keys: "required_api_keys (ev_api_keys ev) = Inr (sv_api_keys sv)"
    and b: "build_runtime_authorization_verifier pf w authorization control (st_app_env settings)
       (st_redis_url settings) = Inr built"
    and sv: "sv_environment sv = st_app_env settings"
      "sv_authorization_required sv = as_required authorization"
      "sv_verifier sv = map_option fst built" "sv_guard sv = map_option snd built"
  from build_verifier_deployed [OF b] assms(2) sv(1) have h: "as_required authorization"
      "truthy (st_redis_url settings)"
      "\<exists>vf. built = Some (vf, RedisReplay (as_replay_key_prefix authorization) w) \<and> hardened pf vf"
      "\<exists>host. urlparse (pf_bracketed_ok pf) (the (st_redis_url settings)) = Inr (''rediss'', host) \<and> host \<noteq> []"
    by auto
  have "st_redis_url settings = blank_env_value_means_unset (en_redis_url (ev_settings ev))"
    using s by (simp add: Settings_iff env_defaults_def)
  then obtain url where "en_redis_url (ev_settings ev) = Some url" "st_redis_url settings = Some url"
    using h(2) by (cases "en_redis_url (ev_settings ev)")
      (auto simp: truthy_def blank_env_value_means_unset_def split: if_splits)
  with h sv required_api_keys_Inr [OF keys] show ?thesis by auto
qed

theorem deployed_startup_hardened_witness:
  "\<exists>sv. lifespan sample_platform () production = Inr sv \<and> sv_authorization_required sv \<and>
    (\<exists>vf prefix. sv_verifier sv = Some vf \<and> hardened sample_platform vf \<and>
       sv_guard sv = Some (RedisReplay prefix ()))"
proof -
  obtain sv where sv: "lifespan sample_platform () production = Inr sv" "sv_environment sv = ''production''"
    using production_starts [of "()"] by blast
  have "deployed_env (sv_environment sv)" by (simp add: sv(2) deployed_env_def)
  from deployed_startup_hardened [OF sv(1) this] sv(1) show ?thesis by blast
qed

text \<open>
  C6. What startup established holds for as long as the service runs: whatever is served and
  however often the policy is reloaded, from whatever file, the active policy is closed and fit,
  the service's identity is not empty, and the keys, the verifier and the requirement of signed
  authorization are those of the startup. A policy that fails to load changes none of it.
\<close>

theorem running_service_invariant:
  assumes "coerces_dicts (pf_coerce pf)" "pf_version pf \<noteq> Some []" "lifespan pf w ev = Inr sv0"
    and "(service_step pt parse (pf_yaml_load pf) (pf_coerce pf))\<^sup>*\<^sup>* sv0 sv"
  shows "service_inv sv \<and> same_secrets sv0 sv"
  by (rule steps_inv [OF assms(4,1) started_inv [OF assms(1-3)]])

lemma sample_platform_ok:
  "coerces_dicts (pf_coerce sample_platform)" "pf_version sample_platform \<noteq> Some []"
  using sample_coerces by (simp_all add: sample_platform_def)

definition production_ports :: "(bytes, 'l, 'g) ports" where
  "production_ports =
    \<lparr>pt_allow = (\<lambda>_ s _. (s, True)), pt_consume = (\<lambda>g _ _ _. (g, Inr True)),
     pt_edv = (\<lambda>_ _ _. True), pt_dump_time = sample_dump,
     pt_resolve = StaticAvailabilityProvider_resolve\<rparr>"

text \<open>A request and a failed reload later.\<close>

theorem running_service_invariant_witness:
  "\<exists>sv0. lifespan sample_platform () production = Inr sv0 \<and>
    service_inv (fst (reload_routing_policy (pf_yaml_load sample_platform) (pf_coerce sample_platform) None
      (fst (serve production_ports sample_env sample_parse sample_http_scope [Disconnect] sv0))))"
proof -
  obtain sv0 where sv0: "lifespan sample_platform () production = Inr sv0" using production_starts [of "()"] by blast
  let ?step = "service_step production_ports sample_parse (pf_yaml_load sample_platform) (pf_coerce sample_platform)"
  have "?step sv0 (fst (serve production_ports sample_env sample_parse sample_http_scope [Disconnect] sv0))"
    by (rule serves)
  from rtranclp.rtrancl_into_rtrancl [OF r_into_rtranclp [of ?step, OF this] reloads]
  have "?step\<^sup>*\<^sup>* sv0 (fst (reload_routing_policy (pf_yaml_load sample_platform)
      (pf_coerce sample_platform) None
      (fst (serve production_ports sample_env sample_parse sample_http_scope [Disconnect] sv0))))" .
  from running_service_invariant [OF sample_platform_ok sv0 this] sv0 show ?thesis by blast
qed

text \<open>A deployed service in operation: fit, with the keys of its startup, and authorization required.\<close>

lemma deployed_running:
  assumes "coerces_dicts (pf_coerce pf)" "pf_version pf \<noteq> Some []" "lifespan pf w ev = Inr sv0"
    and "(service_step pt parse (pf_yaml_load pf) (pf_coerce pf))\<^sup>*\<^sup>* sv0 sv"
    and "deployed_env (sv_environment sv0)"
  shows "service_inv sv" "sv_authorization_required sv" "sv_api_keys sv = sv_api_keys sv0"
proof -
  have "service_inv sv \<and> same_secrets sv0 sv"
    using steps_inv [OF assms(4,1) started_inv [OF assms(1-3)]] .
  moreover have "sv_authorization_required sv0"
    using assms(3,5) by (elim lifespan_Inr) (auto dest: build_verifier_deployed)
  ultimately show "service_inv sv" "sv_authorization_required sv" "sv_api_keys sv = sv_api_keys sv0"
    by (simp_all add: same_secrets_def)
qed

lemma decision_fits:
  assumes "service_inv sv" "ce_decision_id env \<noteq> []" "Option.bind parsed validate_body = Some body"
    and "route (sv_use_case sv) (pt_resolve pt) (ce_decision_id env) (ce_decided_at env)
      (to_domain_request (body_request body)) inc = Inr dd"
  shows "from_domain_decision dd = Inr d \<longleftrightarrow> d = wire_decision_of dd"
proof -
  obtain parsed_body where "validate_body parsed_body = Some body"
    using assms(3) by (auto simp: bind_eq_Some_conv)
  then have "request_ok (body_request body)"
    by (auto simp: validate_body_def validate_request_iff split: route_envelope.splits sum.splits)
  from route_outcome_ok [OF _ _ this assms(2), of "sv_use_case sv" "pt_resolve pt" "ce_decided_at env" inc]
  have "decision_ok dd" using assms(1,4) by (simp add: service_inv_def)
  from from_domain_decision_Inr [OF this] show ?thesis by auto
qed



end
