(* ===== verification/Loop_Schema.thy ===== *)
theory Loop_Schema
  imports Prelude Complex_Main
begin

text \<open>
  The JSON Schema evaluator of the engineering-loop scripts
  (\<open>_vendor_loop_schemas/_stdlib_jsonschema.py\<close>).

  \<^item> A decoded JSON value is a \<open>pyval\<close>; an object keeps its members in order, with distinct string
    keys. A float is an exact rational, an infinity or a NaN, so \<open>-0.0\<close> is \<open>0.0\<close>.
  \<^item> An error message is a \<open>complaint\<close>: one constructor per f-string, with the path the code
    builds and the values it prints.
  \<^item> \<open>re.search\<close> and \<open>datetime.fromisoformat\<close> are the arguments \<open>search\<close> (None for a pattern that
    does not compile) and \<open>aware\<close> (None for a text that is no timestamp, otherwise whether it carries
    an offset).
  \<^item> \<open>float(n)\<close> rounds to 53 bits, a tie to the even neighbour, and raises from
    \<open>2 ^ 1024 - 2 ^ 970\<close> on; \<open>math.isfinite\<close> converts the same way.
\<close>

section \<open>Values\<close>

datatype float_value = Fin rat | PosInf | NegInf | NaN

datatype pyval =
    VNone
  | VBool bool
  | VInt int
  | VFloat float_value
  | VStr string
  | VList "pyval list"
  | VDict "(string \<times> pyval) list"

type_synonym pydict = "(string \<times> pyval) list"

datatype schema_error =
    UnsupportedKeywords string "string list"
  | UnsupportedType string
  | TypeKeyword string
  | PropertiesKeyword string
  | OverflowError
  | PatternError

datatype complaint =
    WrongType string "string list" string
  | NotInEnum string
  | NotConst string pyval
  | MissingProperty string string
  | AdditionalProperty string
  | TooFewItems string int
  | DuplicateItem string
  | NothingContained string
  | TooFewCharacters string int
  | PatternMismatch string string
  | NotDateTime string
  | BelowMinimum string float_value
  | NotAboveMinimum string float_value
  | Forbidden string

fun type_name :: "pyval \<Rightarrow> string" where
  "type_name VNone = ''NoneType''"
| "type_name (VBool _) = ''bool''"
| "type_name (VInt _) = ''int''"
| "type_name (VFloat _) = ''float''"
| "type_name (VStr _) = ''str''"
| "type_name (VList _) = ''list''"
| "type_name (VDict _) = ''dict''"

subsection \<open>Numbers\<close>

fun bit_length :: "nat \<Rightarrow> nat" where
  "bit_length n = (if n = 0 then 0 else Suc (bit_length (n div 2)))"

declare bit_length.simps [simp del]

definition float_limit :: int where "float_limit = 2 ^ 1024 - 2 ^ 970"

definition round_to_53 :: "nat \<Rightarrow> nat" where
  "round_to_53 m =
    (let e = bit_length m - 53; q = m div 2 ^ e; r = 2 * (m mod 2 ^ e)
     in if 2 ^ e < r \<or> (r = 2 ^ e \<and> odd q) then (q + 1) * 2 ^ e else q * 2 ^ e)"

definition float_of_int :: "int \<Rightarrow> (schema_error, float_value) result" where
  "float_of_int n =
    (if float_limit \<le> \<bar>n\<bar> then Inl OverflowError
     else Inr (Fin (of_int (sgn n) * of_nat (round_to_53 (nat \<bar>n\<bar>)))))"

fun float_eq :: "float_value \<Rightarrow> float_value \<Rightarrow> bool" where
  "float_eq (Fin x) (Fin y) \<longleftrightarrow> x = y"
| "float_eq PosInf PosInf \<longleftrightarrow> True"
| "float_eq NegInf NegInf \<longleftrightarrow> True"
| "float_eq _ _ \<longleftrightarrow> False"

fun float_less :: "float_value \<Rightarrow> float_value \<Rightarrow> bool" where
  "float_less NaN _ \<longleftrightarrow> False"
| "float_less _ NaN \<longleftrightarrow> False"
| "float_less (Fin x) (Fin y) \<longleftrightarrow> x < y"
| "float_less NegInf y \<longleftrightarrow> y \<noteq> NegInf"
| "float_less x PosInf \<longleftrightarrow> x \<noteq> PosInf"
| "float_less _ _ \<longleftrightarrow> False"

definition float_le :: "float_value \<Rightarrow> float_value \<Rightarrow> bool" where
  "float_le x y \<longleftrightarrow> float_less x y \<or> float_eq x y"

text \<open>
  What \<open>isinstance(v, int)\<close> and \<open>isinstance(v, (int, float))\<close> admit: a \<open>bool\<close> is an \<open>int\<close>.
  An ordering of an \<open>int\<close> and a \<open>float\<close> is exact.
\<close>

fun as_int :: "pyval \<Rightarrow> int option" where
  "as_int (VInt n) = Some n"
| "as_int (VBool b) = Some (of_bool b)"
| "as_int _ = None"

fun as_number :: "pyval \<Rightarrow> float_value option" where
  "as_number (VFloat x) = Some x"
| "as_number v = map_option (\<lambda>n. Fin (of_int n)) (as_int v)"

fun is_bool :: "pyval \<Rightarrow> bool" where
  "is_bool (VBool _) \<longleftrightarrow> True"
| "is_bool _ \<longleftrightarrow> False"

definition is_number :: "pyval \<Rightarrow> bool" where
  "is_number v \<longleftrightarrow> as_number v \<noteq> None"

text \<open>\<open>float(v)\<close> of a number that is no \<open>bool\<close>.\<close>

fun to_float :: "pyval \<Rightarrow> (schema_error, float_value) result" where
  "to_float (VInt n) = float_of_int n"
| "to_float (VFloat x) = Inr x"
| "to_float _ = Inr NaN"

section \<open>Loops that may raise\<close>

text \<open>\<open>any\<close> and \<open>all\<close> over a generator stop at the first deciding element.\<close>

fun any_r :: "('a \<Rightarrow> ('e, bool) result) \<Rightarrow> 'a list \<Rightarrow> ('e, bool) result" where
  "any_r f [] = Inr False"
| "any_r f (x # xs) = rbind (f x) (\<lambda>b. if b then Inr True else any_r f xs)"

fun all_r :: "('a \<Rightarrow> ('e, bool) result) \<Rightarrow> 'a list \<Rightarrow> ('e, bool) result" where
  "all_r f [] = Inr True"
| "all_r f (x # xs) = rbind (f x) (\<lambda>b. if b then all_r f xs else Inr False)"

text \<open>\<open>errors.extend(...)\<close> for every element.\<close>

definition concat_r :: "('a \<Rightarrow> ('e, 'b list) result) \<Rightarrow> 'a list \<Rightarrow> ('e, 'b list) result" where
  "concat_r f xs = rbind (rmap f xs) (\<lambda>ys. Inr (concat ys))"

definition append_r :: "('e, 'b list) result \<Rightarrow> ('e, 'b list) result \<Rightarrow> ('e, 'b list) result" where
  "append_r r t = rbind r (\<lambda>xs. rbind t (\<lambda>ys. Inr (xs @ ys)))"

lemma any_r_cong [fundef_cong]:
  "xs = ys \<Longrightarrow> (\<And>x. x \<in> set ys \<Longrightarrow> f x = g x) \<Longrightarrow> any_r f xs = any_r g ys"
  by (induction ys arbitrary: xs) (auto intro!: rbind_cong)

lemma all_r_cong [fundef_cong]:
  "xs = ys \<Longrightarrow> (\<And>x. x \<in> set ys \<Longrightarrow> f x = g x) \<Longrightarrow> all_r f xs = all_r g ys"
  by (induction ys arbitrary: xs) (auto intro!: rbind_cong)

lemma concat_r_cong [fundef_cong]:
  "xs = ys \<Longrightarrow> (\<And>x. x \<in> set ys \<Longrightarrow> f x = g x) \<Longrightarrow> concat_r f xs = concat_r g ys"
  unfolding concat_r_def by (simp cong: rmap_cong)

lemma append_r_cong [fundef_cong]:
  "r = r' \<Longrightarrow> t = t' \<Longrightarrow> append_r r t = append_r r' t'"
  by simp

lemma any_r_Inr: "any_r f xs = Inr b \<Longrightarrow> b \<longleftrightarrow> (\<exists>x \<in> set xs. f x = Inr True)"
  by (induction xs) (auto elim!: rbind_InrE split: if_splits)

lemma any_r_False: "any_r f xs = Inr False \<Longrightarrow> x \<in> set xs \<Longrightarrow> f x = Inr False"
  by (induction xs) (auto elim!: rbind_InrE split: if_splits)

lemma any_r_returns: "(\<And>x. x \<in> set xs \<Longrightarrow> returns (f x)) \<Longrightarrow> returns (any_r f xs)"
  by (induction xs) (auto simp: rbind_Inr_iff, metis)

lemma all_r_returns: "(\<And>x. x \<in> set xs \<Longrightarrow> returns (f x)) \<Longrightarrow> returns (all_r f xs)"
  by (induction xs) (auto simp: rbind_Inr_iff, metis)

lemma rmap_returns: "(\<And>x. x \<in> set xs \<Longrightarrow> returns (f x)) \<Longrightarrow> returns (rmap f xs)"
  by (induction xs) (auto simp: rbind_Inr_iff)

lemma concat_r_returns: "(\<And>x. x \<in> set xs \<Longrightarrow> returns (f x)) \<Longrightarrow> returns (concat_r f xs)"
  using rmap_returns [of xs f] by (auto simp: concat_r_def rbind_Inr_iff)

lemma append_r_returns: "returns r \<Longrightarrow> returns t \<Longrightarrow> returns (append_r r t)"
  by (auto simp: append_r_def rbind_Inr_iff)

lemma concat_r_Inr:
  "concat_r f xs = Inr es \<Longrightarrow> x \<in> set xs \<Longrightarrow> \<exists>ys. f x = Inr ys"
  "concat_r f xs = Inr es \<Longrightarrow> es = [] \<longleftrightarrow> (\<forall>x \<in> set xs. f x = Inr [])"
proof -
  have "(\<forall>x \<in> set xs. \<exists>ys. f x = Inr ys) \<and> (concat yss = [] \<longleftrightarrow> (\<forall>x \<in> set xs. f x = Inr []))"
    if "rmap f xs = Inr yss" for yss
    using that by (induction xs arbitrary: yss) (auto simp: rbind_Inr_iff)
  then show "concat_r f xs = Inr es \<Longrightarrow> x \<in> set xs \<Longrightarrow> \<exists>ys. f x = Inr ys"
    and "concat_r f xs = Inr es \<Longrightarrow> es = [] \<longleftrightarrow> (\<forall>x \<in> set xs. f x = Inr [])"
    unfolding concat_r_def by (auto elim!: rbind_InrE)
qed

lemma append_rE [rbind_elims]:
  "append_r r t = Inr es \<Longrightarrow> (\<And>xs ys. r = Inr xs \<Longrightarrow> t = Inr ys \<Longrightarrow> es = xs @ ys \<Longrightarrow> P) \<Longrightarrow> P"
  unfolding append_r_def by (auto elim!: rbind_InrE)


definition each_r :: "('a \<Rightarrow> ('e, unit) result) \<Rightarrow> 'a list \<Rightarrow> ('e, unit) result" where
  "each_r f xs = rbind (rmap f xs) (\<lambda>_. Inr ())"

lemma each_r_cong [fundef_cong]:
  "xs = ys \<Longrightarrow> (\<And>x. x \<in> set ys \<Longrightarrow> f x = g x) \<Longrightarrow> each_r f xs = each_r g ys"
  unfolding each_r_def by (simp cong: rmap_cong)

text \<open>One statement after another.\<close>

definition then_r :: "('e, unit) result \<Rightarrow> ('e, unit) result \<Rightarrow> ('e, unit) result" where
  "then_r r t = rbind r (\<lambda>_. t)"

lemma then_r_cong [fundef_cong]: "r = r' \<Longrightarrow> t = t' \<Longrightarrow> then_r r t = then_r r' t'"
  by simp

section \<open>Comparison and types\<close>

lemma list_member_size: "v \<in> set xs \<Longrightarrow> size v < size (VList xs)"
  by (simp, rule le_imp_less_Suc, rule size_list_estimation', assumption, simp)

lemma dict_member_size: "(k, v) \<in> set d \<Longrightarrow> size v < size (VDict d)"
  by (simp, rule le_imp_less_Suc, rule size_list_estimation', assumption, simp)

lemma dict_get_size: "dict_get d k = Some v \<Longrightarrow> size v < size (VDict d)"
  by (rule dict_member_size, rule map_of_SomeD)

lemma zip_member_size: "(v, w) \<in> set (zip xs ys) \<Longrightarrow> size v < size (VList xs)"
  by (rule list_member_size, rule set_zip_leftD)

lemma size_below:
  "dict_get s k = Some (VDict c) \<Longrightarrow> size (VDict c) < size (VDict s)"
  "dict_get s k = Some (VDict d) \<Longrightarrow> (n, VDict c) \<in> set d \<Longrightarrow> size (VDict c) < size (VDict s)"
  "dict_get s k = Some (VDict d) \<Longrightarrow> dict_get d n = Some (VDict c) \<Longrightarrow>
     size (VDict c) < size (VDict s)"
  "dict_get s k = Some (VList xs) \<Longrightarrow> VDict c \<in> set xs \<Longrightarrow> size (VDict c) < size (VDict s)"
  "dict_get s k = Some (VList xs) \<Longrightarrow> i < length xs \<Longrightarrow> xs ! i = VDict c \<Longrightarrow>
     size (VDict c) < size (VDict s)"
proof -
  show "dict_get s k = Some (VDict c) \<Longrightarrow> size (VDict c) < size (VDict s)"
    by (rule dict_get_size)
  show "dict_get s k = Some (VDict d) \<Longrightarrow> (n, VDict c) \<in> set d \<Longrightarrow> size (VDict c) < size (VDict s)"
    using dict_get_size [of s k "VDict d"] dict_member_size [of n "VDict c" d] by linarith
  show "dict_get s k = Some (VDict d) \<Longrightarrow> dict_get d n = Some (VDict c) \<Longrightarrow>
      size (VDict c) < size (VDict s)"
    using dict_get_size [of s k "VDict d"] dict_get_size [of d n "VDict c"] by linarith
  have inside: "size (VDict c) < size (VDict s)"
    if "dict_get s k = Some (VList xs)" and "VDict c \<in> set xs"
    using dict_get_size [OF that(1)] list_member_size [OF that(2)] by linarith
  then show "dict_get s k = Some (VList xs) \<Longrightarrow> VDict c \<in> set xs \<Longrightarrow> size (VDict c) < size (VDict s)" .
  show "dict_get s k = Some (VList xs) \<Longrightarrow> i < length xs \<Longrightarrow> xs ! i = VDict c \<Longrightarrow>
      size (VDict c) < size (VDict s)"
    using inside by (metis nth_mem)
qed

lemmas value_sizes = list_member_size dict_member_size dict_get_size zip_member_size

function json_equal :: "pyval \<Rightarrow> pyval \<Rightarrow> (schema_error, bool) result" where
  "json_equal l r =
    (if is_bool l \<or> is_bool r then Inr (l = r)
     else if is_number l \<and> is_number r then
       rbind (to_float l) (\<lambda>x. rbind (to_float r) (\<lambda>y. Inr (float_eq x y)))
     else if type_name l \<noteq> type_name r then Inr False
     else (case l of
         VDict a \<Rightarrow> (case r of
             VDict b \<Rightarrow>
               (if set (dict_keys a) \<noteq> set (dict_keys b) then Inr False
                else all_r (\<lambda>(k, v). case dict_get b k of
                    None \<Rightarrow> Inr False | Some w \<Rightarrow> json_equal v w) a)
           | _ \<Rightarrow> Inr False)
       | VList xs \<Rightarrow> (case r of
             VList ys \<Rightarrow>
               (if length xs \<noteq> length ys then Inr False
                else all_r (\<lambda>(v, w). json_equal v w) (zip xs ys))
           | _ \<Rightarrow> Inr False)
       | _ \<Rightarrow> Inr (l = r)))"
  by pat_completeness auto
termination
  by (relation "measure (\<lambda>(l, r). size l)") (auto intro: value_sizes simp del: pyval.size)

declare json_equal.simps [simp del]

fun finite_float :: "float_value \<Rightarrow> bool" where
  "finite_float (Fin _) \<longleftrightarrow> True"
| "finite_float _ \<longleftrightarrow> False"

definition matches_type :: "pyval \<Rightarrow> string \<Rightarrow> (schema_error, bool) result" where
  "matches_type v expected =
    (if expected = ''null'' then Inr (v = VNone)
     else if expected = ''boolean'' then Inr (is_bool v)
     else if expected = ''integer'' then Inr (\<exists>n \<in> set_option (as_int v). \<not> is_bool v)
     else if expected = ''number'' then
       (if is_number v \<and> \<not> is_bool v then rbind (to_float v) (\<lambda>x. Inr (finite_float x))
        else Inr False)
     else if expected = ''string'' then Inr (type_name v = ''str'')
     else if expected = ''array'' then Inr (type_name v = ''list'')
     else if expected = ''object'' then Inr (type_name v = ''dict'')
     else Inl (UnsupportedType expected))"

text \<open>\<open>datetime.fromisoformat(value.replace("Z", "+00:00"))\<close>, with an offset.\<close>

definition is_date_time :: "(string \<Rightarrow> bool option) \<Rightarrow> string \<Rightarrow> bool" where
  "is_date_time aware s =
    (aware (concat (map (\<lambda>c. if c = CHR ''Z'' then ''+00:00'' else [c]) s)) = Some True)"

section \<open>Checking a schema\<close>

definition supported_keywords :: "string list" where
  "supported_keywords =
    [''$id'', ''$schema'', ''additionalProperties'', ''allOf'', ''const'', ''contains'',
     ''description'', ''else'', ''enum'', ''exclusiveMinimum'', ''format'', ''if'', ''items'',
     ''minItems'', ''minLength'', ''minimum'', ''not'', ''pattern'', ''properties'', ''required'',
     ''then'', ''title'', ''type'', ''uniqueItems'']"

definition unsupported :: "pydict \<Rightarrow> string list" where
  "unsupported schema = sort (filter (\<lambda>k. k \<notin> set supported_keywords) (dict_keys schema))"

definition child_keywords :: "string list" where
  "child_keywords =
    [''items'', ''additionalProperties'', ''if'', ''then'', ''else'', ''not'', ''contains'']"

function assert_supported_schema :: "pydict \<Rightarrow> string \<Rightarrow> (schema_error, unit) result" where
  "assert_supported_schema schema path =
    then_r (raise_if (unsupported schema \<noteq> []) (UnsupportedKeywords path (unsupported schema)))
    (then_r (case dict_get schema ''properties'' of
        Some (VDict properties) \<Rightarrow> each_r (\<lambda>(name, child). case child of
            VDict c \<Rightarrow> assert_supported_schema c (path @ ''.properties.'' @ name)
          | _ \<Rightarrow> Inr ()) properties
      | _ \<Rightarrow> Inr ())
    (then_r (each_r (\<lambda>keyword. case dict_get schema keyword of
        Some (VDict c) \<Rightarrow> assert_supported_schema c (path @ ''.'' @ keyword)
      | _ \<Rightarrow> Inr ()) child_keywords)
    (case dict_get schema ''allOf'' of
      Some (VList children) \<Rightarrow> each_r (\<lambda>(i, child). case child of
          VDict c \<Rightarrow> assert_supported_schema c (path @ ''.allOf['' @ nat_str i @ '']'')
        | _ \<Rightarrow> Inr ()) (List.enumerate 0 children)
    | _ \<Rightarrow> Inr ())))"
  by pat_completeness auto
termination
  by (relation "measure (\<lambda>(s, p). size (VDict s))")
     (auto intro: size_below simp del: pyval.size simp: in_set_enumerate_eq)


declare assert_supported_schema.simps [simp del]

section \<open>Evaluating a schema\<close>

fun as_str :: "pyval \<Rightarrow> string option" where
  "as_str (VStr s) = Some s"
| "as_str _ = None"

definition checked_types :: "pyval \<Rightarrow> string \<Rightarrow> (schema_error, string list) result" where
  "checked_types expected path = (case expected of
      VStr t \<Rightarrow> Inr [t]
    | VList xs \<Rightarrow> (if \<forall>x \<in> set xs. as_str x \<noteq> None then Inr (map (the \<circ> as_str) xs)
                 else Inl (TypeKeyword path))
    | _ \<Rightarrow> Inl (TypeKeyword path))"

definition type_errors :: "pyval \<Rightarrow> pydict \<Rightarrow> string \<Rightarrow> (schema_error, complaint list) result" where
  "type_errors v schema path = (case dict_get schema ''type'' of
      None \<Rightarrow> Inr []
    | Some VNone \<Rightarrow> Inr []
    | Some expected \<Rightarrow>
        rbind (checked_types expected path) (\<lambda>types.
        rbind (any_r (matches_type v) types) (\<lambda>matched.
        Inr (if matched then [] else [WrongType path types (type_name v)]))))"

definition scalar_errors ::
  "(string \<Rightarrow> string \<Rightarrow> bool option) \<Rightarrow> (string \<Rightarrow> bool option) \<Rightarrow> pyval \<Rightarrow> pydict \<Rightarrow> string \<Rightarrow>
    (schema_error, complaint list) result" where
  "scalar_errors search aware v schema path =
    append_r (case v of
      VStr s \<Rightarrow>
        append_r (case Option.bind (dict_get schema ''minLength'') as_int of
            Some m \<Rightarrow> Inr (if int (length s) < m then [TooFewCharacters path m] else [])
          | None \<Rightarrow> Inr [])
        (append_r (case dict_get schema ''pattern'' of
            Some (VStr p) \<Rightarrow> rbind (some_or (search p s) PatternError) (\<lambda>found.
              Inr (if found then [] else [PatternMismatch path p]))
          | _ \<Rightarrow> Inr [])
        (Inr (if dict_get schema ''format'' = Some (VStr ''date-time'') \<and> \<not> is_date_time aware s
              then [NotDateTime path] else [])))
    | _ \<Rightarrow> Inr [])
    (case as_number v of
      None \<Rightarrow> Inr []
    | Some x \<Rightarrow> (if is_bool v then Inr [] else
        append_r (case Option.bind (dict_get schema ''minimum'') as_number of
            Some m \<Rightarrow> Inr (if float_less x m then [BelowMinimum path m] else [])
          | None \<Rightarrow> Inr [])
        (case Option.bind (dict_get schema ''exclusiveMinimum'') as_number of
            Some m \<Rightarrow> Inr (if float_le x m then [NotAboveMinimum path m] else [])
          | None \<Rightarrow> Inr [])))"

definition enum_errors :: "pyval \<Rightarrow> pydict \<Rightarrow> string \<Rightarrow> (schema_error, complaint list) result" where
  "enum_errors v schema path = (case dict_get schema ''enum'' of
      Some (VList allowed) \<Rightarrow> rbind (any_r (json_equal v) allowed) (\<lambda>found.
        Inr (if found then [] else [NotInEnum path]))
    | _ \<Rightarrow> Inr [])"

definition const_errors :: "pyval \<Rightarrow> pydict \<Rightarrow> string \<Rightarrow> (schema_error, complaint list) result" where
  "const_errors v schema path = (case dict_get schema ''const'' of
      Some c \<Rightarrow> rbind (json_equal v c) (\<lambda>same. Inr (if same then [] else [NotConst path c]))
    | None \<Rightarrow> Inr [])"

definition required_errors :: "pydict \<Rightarrow> pydict \<Rightarrow> string \<Rightarrow> complaint list" where
  "required_errors d schema path = (case dict_get schema ''required'' of
      Some (VList names) \<Rightarrow> concat (map (\<lambda>n. case n of
          VStr name \<Rightarrow> (if dict_has d name then [] else [MissingProperty path name])
        | _ \<Rightarrow> []) names)
    | _ \<Rightarrow> [])"

definition property_schemas :: "pydict \<Rightarrow> string \<Rightarrow> (schema_error, pydict) result" where
  "property_schemas schema path = (case dict_get schema ''properties'' of
      None \<Rightarrow> Inr []
    | Some (VDict d) \<Rightarrow> Inr d
    | Some _ \<Rightarrow> Inl (PropertiesKeyword path))"

definition min_items_errors :: "pyval list \<Rightarrow> pydict \<Rightarrow> string \<Rightarrow> complaint list" where
  "min_items_errors xs schema path =
    (case Option.bind (dict_get schema ''minItems'') as_int of
       Some m \<Rightarrow> (if int (length xs) < m then [TooFewItems path m] else [])
     | None \<Rightarrow> [])"

definition item_path :: "string \<Rightarrow> nat \<Rightarrow> string" where
  "item_path path i = path @ ''['' @ nat_str i @ '']''"

definition unique_errors :: "pyval list \<Rightarrow> pydict \<Rightarrow> string \<Rightarrow> (schema_error, complaint list) result" where
  "unique_errors xs schema path =
    (if dict_get schema ''uniqueItems'' = Some (VBool True) then
       concat_r (\<lambda>(i, x). rbind (any_r (json_equal x) (take i xs)) (\<lambda>dup.
         Inr (if dup then [DuplicateItem (item_path path i)] else []))) (List.enumerate 0 xs)
     else Inr [])"

lemma property_schemas_size:
  "property_schemas s path = Inr ps \<Longrightarrow> dict_get ps n = Some (VDict c) \<Longrightarrow>
    size (VDict c) < size (VDict s)"
  by (auto simp: property_schemas_def simp del: pyval.size intro: size_below
      split: option.splits pyval.splits)

function (sequential)
  validation_errors :: "(string \<Rightarrow> string \<Rightarrow> bool option) \<Rightarrow> (string \<Rightarrow> bool option) \<Rightarrow>
    pyval \<Rightarrow> pydict \<Rightarrow> string \<Rightarrow> (schema_error, complaint list) result" and
  object_errors :: "(string \<Rightarrow> string \<Rightarrow> bool option) \<Rightarrow> (string \<Rightarrow> bool option) \<Rightarrow>
    pydict \<Rightarrow> pydict \<Rightarrow> string \<Rightarrow> (schema_error, complaint list) result" and
  array_errors :: "(string \<Rightarrow> string \<Rightarrow> bool option) \<Rightarrow> (string \<Rightarrow> bool option) \<Rightarrow>
    pyval list \<Rightarrow> pydict \<Rightarrow> string \<Rightarrow> (schema_error, complaint list) result"
where
  "validation_errors search aware v schema path =
    rbind (type_errors v schema path) (\<lambda>errors. if errors \<noteq> [] then Inr errors else
    append_r (enum_errors v schema path)
    (append_r (const_errors v schema path)
    (append_r (case v of
        VDict d \<Rightarrow> object_errors search aware d schema path
      | VList xs \<Rightarrow> array_errors search aware xs schema path
      | _ \<Rightarrow> scalar_errors search aware v schema path)
    (append_r (case dict_get schema ''allOf'' of
        Some (VList children) \<Rightarrow> concat_r (\<lambda>child. case child of
            VDict c \<Rightarrow> validation_errors search aware v c path
          | _ \<Rightarrow> Inr []) children
      | _ \<Rightarrow> Inr [])
    (append_r (case dict_get schema ''if'' of
        Some (VDict condition) \<Rightarrow>
          rbind (validation_errors search aware v condition path) (\<lambda>failed.
          case dict_get schema (if failed = [] then ''then'' else ''else'') of
            Some (VDict branch) \<Rightarrow> validation_errors search aware v branch path
          | _ \<Rightarrow> Inr [])
      | _ \<Rightarrow> Inr [])
    (case dict_get schema ''not'' of
        Some (VDict negated) \<Rightarrow> rbind (validation_errors search aware v negated path) (\<lambda>failed.
          Inr (if failed = [] then [Forbidden path] else []))
      | _ \<Rightarrow> Inr []))))))"
| "object_errors search aware d schema path =
    append_r (Inr (required_errors d schema path))
    (rbind (property_schemas schema path) (\<lambda>properties.
      concat_r (\<lambda>(name, item). case dict_get properties name of
          Some (VDict c) \<Rightarrow> validation_errors search aware item c (path @ ''.'' @ name)
        | _ \<Rightarrow> (case dict_get schema ''additionalProperties'' of
            Some (VBool False) \<Rightarrow> Inr [AdditionalProperty (path @ ''.'' @ name)]
          | Some (VDict c) \<Rightarrow> validation_errors search aware item c (path @ ''.'' @ name)
          | _ \<Rightarrow> Inr [])) d))"
| "array_errors search aware xs schema path =
    append_r (Inr (min_items_errors xs schema path))
    (append_r (unique_errors xs schema path)
    (append_r (case dict_get schema ''items'' of
        Some (VDict c) \<Rightarrow> concat_r (\<lambda>(i, item).
          validation_errors search aware item c (item_path path i)) (List.enumerate 0 xs)
      | _ \<Rightarrow> Inr [])
    (case dict_get schema ''contains'' of
        Some (VDict c) \<Rightarrow>
          rbind (any_r (\<lambda>(i, item).
            rbind (validation_errors search aware item c (item_path path i)) (\<lambda>failed.
            Inr (failed = []))) (List.enumerate 0 xs)) (\<lambda>found.
          Inr (if found then [] else [NothingContained path]))
      | _ \<Rightarrow> Inr [])))"
  by pat_completeness auto

termination
  by (relation "measure (case_sum (\<lambda>(search, aware, v, s, p). 2 * size (VDict s) + 1)
        (case_sum (\<lambda>(search, aware, d, s, p). 2 * size (VDict s))
                  (\<lambda>(search, aware, xs, s, p). 2 * size (VDict s))))")
     (auto dest: size_below property_schemas_size simp del: pyval.size)

end
