(* ===== verification/Script_Tools.thy ===== *)
theory Script_Tools
  imports Loop_Schema "HOL-Library.Product_Lexorder"
begin

text \<open>
  What the scripts share: paths as lists of components, the string operations they use, the
  reading of decoded TOML and JSON tables, and how a run ends.
\<close>

section \<open>Strings\<close>

fun split_on :: "char \<Rightarrow> string \<Rightarrow> string list" where
  "split_on c [] = [[]]"
| "split_on c (x # xs) =
    (if x = c then [] # split_on c xs
     else (case split_on c xs of p # ps \<Rightarrow> (x # p) # ps | [] \<Rightarrow> [[x]]))"

definition starts_with :: "string \<Rightarrow> string \<Rightarrow> bool" where
  "starts_with p s \<longleftrightarrow> take (length p) s = p"

definition contains_text :: "string \<Rightarrow> string \<Rightarrow> bool" where
  "contains_text needle s \<longleftrightarrow> list_ex (\<lambda>i. starts_with needle (drop i s)) [0..<Suc (length s)]"

lemma split_on_not_Nil [simp]: "split_on c s \<noteq> []"
  by (induction s) (auto split: list.split)

lemma split_on_head: "hd (split_on c s) = takeWhile (\<lambda>x. x \<noteq> c) s"
proof (induction s)
  case (Cons x s)
  then show ?case by (cases "split_on c s") auto
qed simp

lemma split_on_tail:
  "tl (split_on c s) =
    (case dropWhile (\<lambda>x. x \<noteq> c) s of [] \<Rightarrow> [] | d # rest \<Rightarrow> split_on c rest)"
proof (induction s)
  case (Cons x s)
  then show ?case by (cases "split_on c s") auto
qed simp

lemma starts_with_iff: "starts_with p s \<longleftrightarrow> (\<exists>t. s = p @ t)"
  unfolding starts_with_def by (metis append_eq_conv_conj append_take_drop_id)

lemma contains_text_iff: "contains_text needle s \<longleftrightarrow> (\<exists>u v. s = u @ needle @ v)"
proof
  assume "contains_text needle s"
  then obtain i t where "drop i s = needle @ t"
    by (auto simp: contains_text_def starts_with_iff list_ex_iff)
  then have "s = take i s @ needle @ t" by (metis append_take_drop_id)
  then show "\<exists>u v. s = u @ needle @ v" by blast
next
  assume "\<exists>u v. s = u @ needle @ v"
  then obtain u v where s: "s = u @ needle @ v" by blast
  then have "starts_with needle (drop (length u) s)" by (simp add: starts_with_iff)
  moreover have "length u \<in> set [0..<Suc (length s)]" using s by simp
  ultimately show "contains_text needle s" unfolding contains_text_def list_ex_iff by blast
qed

section \<open>Paths\<close>

type_synonym path = "string list"

text \<open>
  A suffix starts at the last dot that is neither the first nor the last character of the name.
\<close>

definition name_suffix :: "string \<Rightarrow> string" where
  "name_suffix name =
    (let tail = rev (takeWhile (\<lambda>c. c \<noteq> CHR ''.'') (rev name))
     in if tail \<noteq> [] \<and> length tail + 1 < length name then CHR ''.'' # tail else [])"

definition path_suffix :: "path \<Rightarrow> string" where
  "path_suffix p = name_suffix (last p)"

text \<open>\<open>with_suffix("").parts\<close>.\<close>

definition without_suffix :: "path \<Rightarrow> path" where
  "without_suffix p =
    butlast p @ [take (length (last p) - length (path_suffix p)) (last p)]"

definition as_posix :: "path \<Rightarrow> string" where
  "as_posix p = str_join ''/'' p"

section \<open>Decoded tables\<close>

text \<open>\<open>bool(v)\<close>, and what a \<open>for\<close> loop over \<open>v\<close> yields (None where it raises \<open>TypeError\<close>).\<close>

fun truthy_value :: "pyval \<Rightarrow> bool" where
  "truthy_value VNone \<longleftrightarrow> False"
| "truthy_value (VBool b) \<longleftrightarrow> b"
| "truthy_value (VInt n) \<longleftrightarrow> n \<noteq> 0"
| "truthy_value (VFloat x) \<longleftrightarrow> x \<noteq> Fin 0"
| "truthy_value (VStr s) \<longleftrightarrow> s \<noteq> []"
| "truthy_value (VList xs) \<longleftrightarrow> xs \<noteq> []"
| "truthy_value (VDict d) \<longleftrightarrow> d \<noteq> []"

fun iterate :: "pyval \<Rightarrow> pyval list option" where
  "iterate (VList xs) = Some xs"
| "iterate (VStr s) = Some (map (\<lambda>c. VStr [c]) s)"
| "iterate (VDict d) = Some (map VStr (dict_keys d))"
| "iterate _ = None"

text \<open>\<open>sorted(set(xs) & set(ys))\<close>, \<open>sorted(set(xs) - set(ys))\<close> and \<open>sorted(set(xs))\<close>.\<close>

definition sorted_common :: "string list \<Rightarrow> string list \<Rightarrow> string list" where
  "sorted_common xs ys = sort (remdups (filter (\<lambda>x. x \<in> set ys) xs))"

definition sorted_minus :: "string list \<Rightarrow> string list \<Rightarrow> string list" where
  "sorted_minus xs ys = sort (remdups (filter (\<lambda>x. x \<notin> set ys) xs))"

definition sorted_set :: "('a :: linorder) list \<Rightarrow> 'a list" where
  "sorted_set xs = sort (remdups xs)"

lemma set_sorted_set [simp]: "set (sorted_set xs) = set xs"
  by (simp add: sorted_set_def)

lemma set_sorted_minus [simp]: "set (sorted_minus xs ys) = set xs - set ys"
  by (auto simp: sorted_minus_def)

lemma set_sorted_common [simp]: "set (sorted_common xs ys) = set xs \<inter> set ys"
  by (auto simp: sorted_common_def)

lemma sorted_common_Nil: "sorted_common xs ys = [] \<longleftrightarrow> set xs \<inter> set ys = {}"
  by (metis set_empty set_sorted_common)

lemma sorted_minus_Nil: "sorted_minus xs ys = [] \<longleftrightarrow> set xs \<subseteq> set ys"
  by (metis Diff_eq_empty_iff set_empty set_sorted_minus)

text \<open>How a run ends: with an exit status, or with the traceback of an exception nobody caught.\<close>

datatype ending = Status nat | Traceback

end
