(* ===== verification/Loop_Contract.thy ===== *)
theory Loop_Contract
  imports Script_Tools
begin

text \<open>
  The loop-contract validator of the scripts: the typed contract of \<open>models.py\<close>, the checks of
  \<open>validate_contract.py\<close> and the gate script \<open>validate_loop_contracts.py\<close>.

  \<^item> \<open>contract_schema\<close> is \<open>schemas/contract.schema.json\<close> without its annotations (\<open>$id\<close>, \<open>$schema\<close>,
    \<open>title\<close>, \<open>description\<close>), which no function of the evaluator reads.
  \<^item> A dataclass stores whatever it is given; the records here hold values of the annotated types,
    and reading another value is \<open>IllTyped\<close>. For a structurally valid document it does not happen
    (\<open>conforming_contract_loads\<close> in \<open>Loop_Contract_Properties\<close>).
  \<^item> Reading files, the packaged schema, and decoding JSON and YAML are arguments.
\<close>

section \<open>The canonical contract schema\<close>

definition nonempty_text :: pyval where
  "nonempty_text = VDict [(''type'', VStr ''string''), (''minLength'', VInt 1)]"

definition text_set :: pyval where
  "text_set = VDict [(''type'', VStr ''array''), (''items'', nonempty_text),
     (''uniqueItems'', VBool True)]"

definition closed_object :: "string list \<Rightarrow> (string \<times> pyval) list \<Rightarrow> pydict" where
  "closed_object names properties =
    [(''type'', VStr ''object''), (''additionalProperties'', VBool False),
     (''required'', VList (map VStr names)), (''properties'', VDict properties)]"

definition when_trigger :: "string \<Rightarrow> pydict \<Rightarrow> pyval" where
  "when_trigger t consequence = VDict
    [(''if'', VDict
       [(''properties'', VDict [(''type'', VDict [(''const'', VStr t)])]),
        (''required'', VList [VStr ''type''])]),
     (''then'', VDict consequence)]"

definition without :: "string \<Rightarrow> string \<times> pyval" where
  "without name = (''not'', VDict [(''required'', VList [VStr name])])"

definition trigger_schema :: pydict where
  "trigger_schema = closed_object [''type'']
     [(''type'', VDict [(''type'', VStr ''string''),
         (''enum'', VList [VStr ''manual'', VStr ''schedule'', VStr ''event''])]),
      (''schedule'', nonempty_text), (''event'', nonempty_text)] @
     [(''allOf'', VList
        [when_trigger ''schedule'' [(''required'', VList [VStr ''schedule'']), without ''event''],
         when_trigger ''event'' [(''required'', VList [VStr ''event'']), without ''schedule''],
         when_trigger ''manual'' [without ''schedule''],
         when_trigger ''manual'' [without ''event'']])]"

definition selection_schema :: pydict where
  "selection_schema = closed_object [''strategy'']
     [(''strategy'', nonempty_text),
      (''max_items'', VDict [(''type'', VStr ''integer''), (''minimum'', VInt 1)]),
      (''filters'', text_set)]"

definition baseline_schema :: pydict where
  "baseline_schema = closed_object [''commands'']
     [(''commands'', VDict [(''type'', VStr ''array''), (''minItems'', VInt 1),
        (''items'', nonempty_text)])]"

definition acceptance_schema :: pydict where
  "acceptance_schema = closed_object [''hard_gates'']
     [(''hard_gates'', VDict [(''type'', VStr ''array''), (''minItems'', VInt 1),
        (''items'', nonempty_text), (''uniqueItems'', VBool True)])]"

definition positive :: "string \<Rightarrow> pyval" where
  "positive t = VDict [(''type'', VStr t), (''exclusiveMinimum'', VInt 0)]"

definition budgets_schema :: pydict where
  "budgets_schema = closed_object [''max_tokens'']
     [(''max_tokens'', positive ''integer''), (''max_cost_usd'', positive ''number''),
      (''max_wall_clock_minutes'', positive ''integer''), (''max_commands'', positive ''integer'')]"

definition scope_schema :: pydict where
  "scope_schema = closed_object [''allowlist'', ''denylist'']
     [(''allowlist'', text_set), (''denylist'', text_set)]"

definition actions_schema :: pydict where
  "actions_schema = closed_object [''allowed'', ''denied'']
     [(''allowed'', text_set), (''denied'', text_set)]"

definition human_review_schema :: pydict where
  "human_review_schema = closed_object [''required'']
     [(''required'', VDict [(''type'', VStr ''boolean''), (''const'', VBool True)]),
      (''reviewers'', text_set)]"

definition contract_schema :: pydict where
  "contract_schema = closed_object
     [''version'', ''id'', ''objective'', ''trigger'', ''selection'', ''baseline'', ''acceptance'',
      ''budgets'', ''scope'', ''actions'', ''human_review'']
     [(''version'', VDict [(''type'', VStr ''string''), (''const'', VStr ''1.0.0'')]),
      (''id'', VDict [(''type'', VStr ''string''),
         (''pattern'', VStr ''^[a-z0-9]+(-[a-z0-9]+)*$'')]),
      (''objective'', nonempty_text),
      (''trigger'', VDict trigger_schema), (''selection'', VDict selection_schema),
      (''baseline'', VDict baseline_schema), (''acceptance'', VDict acceptance_schema),
      (''budgets'', VDict budgets_schema), (''scope'', VDict scope_schema),
      (''actions'', VDict actions_schema), (''human_review'', VDict human_review_schema)]"

section \<open>The typed contract\<close>

record trigger =
  tr_type :: string
  tr_schedule :: "string option"
  tr_event :: "string option"

record selection =
  se_strategy :: string
  se_max_items :: "int option"
  se_filters :: "string list"

record budgets =
  bu_max_tokens :: int
  bu_max_cost_usd :: "float_value option"
  bu_max_wall_clock_minutes :: "int option"
  bu_max_commands :: "int option"

record contract_scope =
  sc_allowlist :: "string list"
  sc_denylist :: "string list"

record actions =
  ac_allowed :: "string list"
  ac_denied :: "string list"

record human_review =
  hr_required :: bool
  hr_reviewers :: "string list"

record contract =
  co_version :: string
  co_id :: string
  co_objective :: string
  co_trigger :: trigger
  co_selection :: selection
  co_baseline :: "string list"
  co_acceptance :: "string list"
  co_budgets :: budgets
  co_scope :: contract_scope
  co_actions :: actions
  co_human_review :: human_review

datatype field_error = MissingField string string | IllTyped

text \<open>\<open>_required\<close>; indexing what is no mapping raises as well.\<close>

fun required :: "pyval \<Rightarrow> string \<Rightarrow> string \<Rightarrow> (field_error, pyval) result" where
  "required (VDict d) key owner = some_or (dict_get d key) (MissingField owner key)"
| "required _ key owner = Inl IllTyped"

fun entry :: "pyval \<Rightarrow> string \<Rightarrow> pyval option" where
  "entry (VDict d) key = (if dict_get d key = Some VNone then None else dict_get d key)"
| "entry _ key = None"

fun want_str :: "pyval \<Rightarrow> (field_error, string) result" where
  "want_str (VStr s) = Inr s"
| "want_str _ = Inl IllTyped"

fun want_int :: "pyval \<Rightarrow> (field_error, int) result" where
  "want_int (VInt n) = Inr n"
| "want_int _ = Inl IllTyped"

fun want_bool :: "pyval \<Rightarrow> (field_error, bool) result" where
  "want_bool (VBool b) = Inr b"
| "want_bool _ = Inl IllTyped"

fun want_number :: "pyval \<Rightarrow> (field_error, float_value) result" where
  "want_number (VInt n) = Inr (Fin (of_int n))"
| "want_number (VFloat x) = Inr x"
| "want_number _ = Inl IllTyped"

fun want_strs :: "pyval \<Rightarrow> (field_error, string list) result" where
  "want_strs (VList xs) = rmap want_str xs"
| "want_strs _ = Inl IllTyped"

definition optional :: "(pyval \<Rightarrow> (field_error, 'a) result) \<Rightarrow> pyval option \<Rightarrow>
    (field_error, 'a option) result" where
  "optional want v = (case v of None \<Rightarrow> Inr None | Some x \<Rightarrow> rbind (want x) (\<lambda>y. Inr (Some y)))"

text \<open>\<open>tuple(data.get(key, ()))\<close>: an explicit null is no iterable.\<close>

fun optional_strs :: "pyval \<Rightarrow> string \<Rightarrow> (field_error, string list) result" where
  "optional_strs (VDict d) key = (case dict_get d key of None \<Rightarrow> Inr [] | Some v \<Rightarrow> want_strs v)"
| "optional_strs _ key = Inl IllTyped"

definition Trigger_from_dict :: "pyval \<Rightarrow> (field_error, trigger) result" where
  "Trigger_from_dict v =
    rbind (rbind (required v ''type'' ''trigger'') want_str) (\<lambda>t.
    rbind (optional want_str (entry v ''schedule'')) (\<lambda>sch.
    rbind (optional want_str (entry v ''event'')) (\<lambda>ev.
    Inr \<lparr>tr_type = t, tr_schedule = sch, tr_event = ev\<rparr>)))"

definition Selection_from_dict :: "pyval \<Rightarrow> (field_error, selection) result" where
  "Selection_from_dict v =
    rbind (rbind (required v ''strategy'' ''selection'') want_str) (\<lambda>s.
    rbind (optional want_int (entry v ''max_items'')) (\<lambda>m.
    rbind (optional_strs v ''filters'') (\<lambda>fs.
    Inr \<lparr>se_strategy = s, se_max_items = m, se_filters = fs\<rparr>)))"

definition Baseline_from_dict :: "pyval \<Rightarrow> (field_error, string list) result" where
  "Baseline_from_dict v = rbind (required v ''commands'' ''baseline'') want_strs"

definition Acceptance_from_dict :: "pyval \<Rightarrow> (field_error, string list) result" where
  "Acceptance_from_dict v = rbind (required v ''hard_gates'' ''acceptance'') want_strs"

definition Budgets_from_dict :: "pyval \<Rightarrow> (field_error, budgets) result" where
  "Budgets_from_dict v =
    rbind (rbind (required v ''max_tokens'' ''budgets'') want_int) (\<lambda>t.
    rbind (optional want_number (entry v ''max_cost_usd'')) (\<lambda>c.
    rbind (optional want_int (entry v ''max_wall_clock_minutes'')) (\<lambda>w.
    rbind (optional want_int (entry v ''max_commands'')) (\<lambda>m.
    Inr \<lparr>bu_max_tokens = t, bu_max_cost_usd = c, bu_max_wall_clock_minutes = w,
         bu_max_commands = m\<rparr>))))"

definition Scope_from_dict :: "pyval \<Rightarrow> (field_error, contract_scope) result" where
  "Scope_from_dict v =
    rbind (rbind (required v ''allowlist'' ''scope'') want_strs) (\<lambda>a.
    rbind (rbind (required v ''denylist'' ''scope'') want_strs) (\<lambda>d.
    Inr \<lparr>sc_allowlist = a, sc_denylist = d\<rparr>))"

definition Actions_from_dict :: "pyval \<Rightarrow> (field_error, actions) result" where
  "Actions_from_dict v =
    rbind (rbind (required v ''allowed'' ''actions'') want_strs) (\<lambda>a.
    rbind (rbind (required v ''denied'' ''actions'') want_strs) (\<lambda>d.
    Inr \<lparr>ac_allowed = a, ac_denied = d\<rparr>))"

definition HumanReview_from_dict :: "pyval \<Rightarrow> (field_error, human_review) result" where
  "HumanReview_from_dict v =
    rbind (rbind (required v ''required'' ''human_review'') want_bool) (\<lambda>r.
    rbind (optional_strs v ''reviewers'') (\<lambda>rs.
    Inr \<lparr>hr_required = r, hr_reviewers = rs\<rparr>))"

definition Contract_from_dict :: "pyval \<Rightarrow> (field_error, contract) result" where
  "Contract_from_dict v =
    rbind (rbind (required v ''version'' ''contract'') want_str) (\<lambda>version.
    rbind (rbind (required v ''id'' ''contract'') want_str) (\<lambda>id.
    rbind (rbind (required v ''objective'' ''contract'') want_str) (\<lambda>objective.
    rbind (rbind (required v ''trigger'' ''contract'') Trigger_from_dict) (\<lambda>trigger.
    rbind (rbind (required v ''selection'' ''contract'') Selection_from_dict) (\<lambda>selection.
    rbind (rbind (required v ''baseline'' ''contract'') Baseline_from_dict) (\<lambda>baseline.
    rbind (rbind (required v ''acceptance'' ''contract'') Acceptance_from_dict) (\<lambda>acceptance.
    rbind (rbind (required v ''budgets'' ''contract'') Budgets_from_dict) (\<lambda>budgets.
    rbind (rbind (required v ''scope'' ''contract'') Scope_from_dict) (\<lambda>scope.
    rbind (rbind (required v ''actions'' ''contract'') Actions_from_dict) (\<lambda>actions.
    rbind (rbind (required v ''human_review'' ''contract'') HumanReview_from_dict) (\<lambda>human_review.
    Inr \<lparr>co_version = version, co_id = id, co_objective = objective, co_trigger = trigger,
         co_selection = selection, co_baseline = baseline, co_acceptance = acceptance,
         co_budgets = budgets, co_scope = scope, co_actions = actions,
         co_human_review = human_review\<rparr>)))))))))))"

section \<open>Checking a contract\<close>

datatype doc_kind = ContractDoc | EvidenceDoc | VerdictDoc | BuilderResultDoc

datatype resource_error = SchemaMissing | SchemaNotJson | SchemaNotObject

datatype validator_error =
    ContractValidationError
  | SchemaRaised schema_error
  | ResourceRaised resource_error
  | LoadRaised field_error

datatype contract_complaint =
    Structural complaint
  | InvalidGlob string
  | ScopeOverlap "string list"
  | ActionOverlap "string list"
  | NotPositive string float_value
  | UnsupportedGates "string list"
  | ScheduleRequired
  | EventRequired

datatype verdict_complaint =
    VerdictStructural complaint
  | ContractComplaint contract_complaint
  | ContractIdMismatch
  | DuplicateGates "string list"
  | MissingGates "string list"
  | UnexpectedGates "string list"

definition map_error :: "('e \<Rightarrow> 'f) \<Rightarrow> ('e, 'a) result \<Rightarrow> ('f, 'a) result" where
  "map_error g r = (case r of Inl e \<Rightarrow> Inl (g e) | Inr x \<Rightarrow> Inr x)"

definition supported_hard_gates :: "string list" where
  "supported_hard_gates =
    [''lock'', ''lint'', ''format'', ''typing'', ''tests'', ''security'', ''dependencies'',
     ''architecture'', ''mcp'', ''governance'']"

text \<open>\<open>load_schema\<close>: the packaged text is an argument, and so is \<open>json.loads\<close>.\<close>

definition load_schema ::
  "(doc_kind \<Rightarrow> (resource_error, pyval) result) \<Rightarrow> doc_kind \<Rightarrow> (resource_error, pydict) result" where
  "load_schema packaged kind = rbind (packaged kind) (\<lambda>document. case document of
      VDict d \<Rightarrow> Inr d
    | _ \<Rightarrow> Inl SchemaNotObject)"

definition canonical_schema ::
  "(doc_kind \<Rightarrow> (resource_error, pyval) result) \<Rightarrow> doc_kind \<Rightarrow> (validator_error, pydict) result" where
  "canonical_schema packaged kind =
    rbind (map_error ResourceRaised (load_schema packaged kind)) (\<lambda>schema.
    rbind (map_error SchemaRaised (assert_supported_schema schema ''$'')) (\<lambda>_.
    Inr schema))"

definition validate_document ::
  "(string \<Rightarrow> string \<Rightarrow> bool option) \<Rightarrow> (string \<Rightarrow> bool option) \<Rightarrow>
    (doc_kind \<Rightarrow> (resource_error, pyval) result) \<Rightarrow> pydict \<Rightarrow> doc_kind \<Rightarrow>
    (validator_error, complaint list) result" where
  "validate_document search aware packaged data kind =
    rbind (canonical_schema packaged kind) (\<lambda>schema.
    map_error SchemaRaised (validation_errors search aware (VDict data) schema ''$''))"

definition is_valid_glob :: "string \<Rightarrow> bool" where
  "is_valid_glob p \<longleftrightarrow> p \<noteq> [] \<and> CHR 0x00 \<notin> set p"

definition validate_globs_disjoint :: "string list \<Rightarrow> string list \<Rightarrow> contract_complaint list" where
  "validate_globs_disjoint allowlist denylist =
    (let overlap = sorted_common allowlist denylist
     in if overlap \<noteq> [] then [ScopeOverlap overlap] else [])"

definition budget_fields :: "budgets \<Rightarrow> (string \<times> float_value option) list" where
  "budget_fields b =
    [(''budgets.max_tokens'', Some (Fin (of_int (bu_max_tokens b)))),
     (''budgets.max_cost_usd'', bu_max_cost_usd b),
     (''budgets.max_wall_clock_minutes'',
        map_option (\<lambda>n. Fin (of_int n)) (bu_max_wall_clock_minutes b)),
     (''budgets.max_commands'', map_option (\<lambda>n. Fin (of_int n)) (bu_max_commands b))]"

definition budget_errors :: "budgets \<Rightarrow> contract_complaint list" where
  "budget_errors b = concat (map (\<lambda>(name, v). case v of
      None \<Rightarrow> []
    | Some x \<Rightarrow> (if float_le x (Fin 0) then [NotPositive name x] else [])) (budget_fields b))"

definition missing_text :: "string option \<Rightarrow> bool" where
  "missing_text t \<longleftrightarrow> t = None \<or> t = Some []"

definition contract_errors :: "contract \<Rightarrow> contract_complaint list" where
  "contract_errors c =
    map InvalidGlob (filter (\<lambda>p. \<not> is_valid_glob p)
      (sc_allowlist (co_scope c) @ sc_denylist (co_scope c))) @
    validate_globs_disjoint (sc_allowlist (co_scope c)) (sc_denylist (co_scope c)) @
    (let overlap = sorted_common (ac_allowed (co_actions c)) (ac_denied (co_actions c))
     in if overlap \<noteq> [] then [ActionOverlap overlap] else []) @
    budget_errors (co_budgets c) @
    (let gates = sorted_minus (co_acceptance c) supported_hard_gates
     in if gates \<noteq> [] then [UnsupportedGates gates] else []) @
    (if tr_type (co_trigger c) = ''schedule'' \<and> missing_text (tr_schedule (co_trigger c))
     then [ScheduleRequired] else []) @
    (if tr_type (co_trigger c) = ''event'' \<and> missing_text (tr_event (co_trigger c))
     then [EventRequired] else [])"

text \<open>
  \<open>validate\<close> turns an unavailable or unsupported schema into \<open>ContractValidationError\<close>; what else
  the evaluator raises passes through.
\<close>

fun caught :: "validator_error \<Rightarrow> validator_error" where
  "caught (ResourceRaised SchemaMissing) = ContractValidationError"
| "caught (ResourceRaised SchemaNotJson) = ContractValidationError"
| "caught (SchemaRaised (UnsupportedKeywords p ks)) = ContractValidationError"
| "caught (SchemaRaised (UnsupportedType t)) = ContractValidationError"
| "caught (SchemaRaised (TypeKeyword p)) = ContractValidationError"
| "caught (SchemaRaised (PropertiesKeyword p)) = ContractValidationError"
| "caught e = e"

definition validate_contract ::
  "(string \<Rightarrow> string \<Rightarrow> bool option) \<Rightarrow> (string \<Rightarrow> bool option) \<Rightarrow>
    (doc_kind \<Rightarrow> (resource_error, pyval) result) \<Rightarrow> pydict \<Rightarrow>
    (validator_error, contract_complaint list) result" where
  "validate_contract search aware packaged data =
    rbind (map_error caught (validate_document search aware packaged data ContractDoc)) (\<lambda>structural.
    if structural \<noteq> [] then Inr (map Structural structural)
    else rbind (map_error LoadRaised (Contract_from_dict (VDict data))) (\<lambda>c.
      Inr (contract_errors c)))"

definition validate_evidence where
  "validate_evidence search aware packaged data =
    validate_document search aware packaged data EvidenceDoc"

definition validate_builder_result where
  "validate_builder_result search aware packaged data =
    validate_document search aware packaged data BuilderResultDoc"

text \<open>The gate names a verdict reports, and those its contract declares.\<close>

definition verdict_gates :: "pydict \<Rightarrow> (field_error, string list) result" where
  "verdict_gates data =
    rbind (required (VDict data) ''justification'' ''verdict'') (\<lambda>j.
    rbind (required j ''gate_results'' ''justification'') (\<lambda>gs. case gs of
      VList results \<Rightarrow>
        rmap (\<lambda>g. rbind (required g ''gate'' ''gate_results'') want_str) results
    | _ \<Rightarrow> Inl IllTyped))"

definition gate_errors :: "string list \<Rightarrow> string list \<Rightarrow> verdict_complaint list" where
  "gate_errors names expected =
    (let duplicates = sort (remdups (filter (\<lambda>n. 1 < count_list names n) names));
         missing = sorted_minus expected names;
         unexpected = sorted_minus names expected
     in (if duplicates \<noteq> [] then [DuplicateGates duplicates] else []) @
        (if missing \<noteq> [] then [MissingGates missing] else []) @
        (if unexpected \<noteq> [] then [UnexpectedGates unexpected] else []))"

definition validate_verdict ::
  "(string \<Rightarrow> string \<Rightarrow> bool option) \<Rightarrow> (string \<Rightarrow> bool option) \<Rightarrow>
    (doc_kind \<Rightarrow> (resource_error, pyval) result) \<Rightarrow> pydict \<Rightarrow> pydict option \<Rightarrow>
    (validator_error, verdict_complaint list) result" where
  "validate_verdict search aware packaged data contract =
    rbind (validate_document search aware packaged data VerdictDoc) (\<lambda>errors.
    case contract of
      None \<Rightarrow> Inr (map VerdictStructural errors)
    | Some c \<Rightarrow>
        (if errors \<noteq> [] then Inr (map VerdictStructural errors)
         else rbind (validate_contract search aware packaged c) (\<lambda>contract_errors.
           if contract_errors \<noteq> [] then Inr (map ContractComplaint contract_errors)
           else map_error LoadRaised (
             rbind (required (VDict data) ''contract_id'' ''verdict'') (\<lambda>claimed.
             rbind (required (VDict c) ''id'' ''contract'') (\<lambda>id.
             rbind (verdict_gates data) (\<lambda>names.
             rbind (rbind (required (VDict c) ''acceptance'' ''contract'') Acceptance_from_dict) (\<lambda>expected.
             Inr ((if claimed \<noteq> id then [ContractIdMismatch] else []) @
                  gate_errors names expected)))))))))"

section \<open>The command line\<close>

text \<open>
  \<open>Unreadable\<close> is \<open>OSError\<close> and \<open>NotJson\<close> \<open>JSONDecodeError\<close>; \<open>Undecodable\<close> is a text that is not UTF-8
  or not YAML.
\<close>

datatype contract_file_error =
    YamlUnavailable
  | TopLevelNotMapping
  | Unreadable
  | NotJson
  | Undecodable

definition load_document ::
  "(string \<Rightarrow> (contract_file_error, pyval) result) \<Rightarrow>
    (string \<Rightarrow> (contract_file_error, pyval) result) option \<Rightarrow> string \<Rightarrow> (contract_file_error, string) result \<Rightarrow>
    (contract_file_error, pydict) result" where
  "load_document json_loads yaml suffix contents =
    rbind contents (\<lambda>t.
    rbind (if suffix \<in> {''.yaml'', ''.yml''}
           then (case yaml of None \<Rightarrow> Inl YamlUnavailable | Some safe_load \<Rightarrow> safe_load t)
           else json_loads t) (\<lambda>document. case document of
      VDict d \<Rightarrow> Inr d
    | _ \<Rightarrow> Inl TopLevelNotMapping))"

fun load_status :: "contract_file_error \<Rightarrow> ending" where
  "load_status Undecodable = Traceback"
| "load_status _ = Status 2"

definition validate_contract_main ::
  "(pydict \<Rightarrow> (validator_error, contract_complaint list) result) \<Rightarrow>
    (contract_file_error, pydict) result \<Rightarrow> ending" where
  "validate_contract_main validate document = (case document of
      Inl e \<Rightarrow> load_status e
    | Inr d \<Rightarrow> (case validate d of
        Inl ContractValidationError \<Rightarrow> Status 2
      | Inl _ \<Rightarrow> Traceback
      | Inr errors \<Rightarrow> Status (if errors \<noteq> [] then 1 else 0)))"

text \<open>\<open>ContractValidationError\<close> is all \<open>validate_loop_contracts.main\<close> catches, around loading only.\<close>

datatype failure = NotLoaded contract_file_error | Invalid "contract_complaint list"

fun check_contracts ::
  "(pydict \<Rightarrow> (validator_error, contract_complaint list) result) \<Rightarrow>
    (contract_file_error, pydict) result list \<Rightarrow> failure list option" where
  "check_contracts validate [] = Some []"
| "check_contracts validate (Inl e # rest) =
    (if e = YamlUnavailable \<or> e = TopLevelNotMapping
     then map_option ((#) (NotLoaded e)) (check_contracts validate rest) else None)"
| "check_contracts validate (Inr d # rest) = (case validate d of
      Inl _ \<Rightarrow> None
    | Inr errors \<Rightarrow> map_option (\<lambda>fs. if errors \<noteq> [] then Invalid errors # fs else fs)
        (check_contracts validate rest))"

definition validate_loop_contracts_main ::
  "(pydict \<Rightarrow> (validator_error, contract_complaint list) result) \<Rightarrow>
    (contract_file_error, pydict) result list \<Rightarrow> ending" where
  "validate_loop_contracts_main validate contracts =
    (if contracts = [] then Status 0
     else case check_contracts validate contracts of
       None \<Rightarrow> Traceback
     | Some failures \<Rightarrow> Status (if failures \<noteq> [] then 1 else 0))"

text \<open>
  \<open>find_contracts\<close>: the files under the directory with a contract suffix, in path order.
\<close>

definition find_contracts :: "bool \<Rightarrow> (path \<times> bool) list \<Rightarrow> path list" where
  "find_contracts is_dir entries =
    (if is_dir then sort (map fst (filter (\<lambda>(path, is_file).
       is_file \<and> path_suffix path \<in> {''.json'', ''.yaml'', ''.yml''}) entries)) else [])"

end
