(* ===== verification/Loop_Schema_Properties.thy ===== *)
theory Loop_Schema_Properties
  imports Loop_Schema
begin

text \<open>
  What the schema evaluator of \<open>Loop_Schema\<close> decides.

  \<^item> \<open>conforms\<close> says keyword by keyword when a value satisfies a schema, without messages, paths
    or exceptions; whenever the evaluator returns, its list of errors is empty exactly for the
    values that conform.
  \<^item> The evaluator returns for every schema whose type names are known and whose patterns compile,
    on every value without integers beyond the range of a float.
  \<^item> A schema the closed-surface check accepts has no unknown keyword in any part the evaluator
    reaches.
\<close>

section \<open>The reference\<close>

definition type_ok :: "pyval \<Rightarrow> pydict \<Rightarrow> bool" where
  "type_ok v s = (case dict_get s ''type'' of
      None \<Rightarrow> True
    | Some VNone \<Rightarrow> True
    | Some (VStr t) \<Rightarrow> matches_type v t = Inr True
    | Some (VList ts) \<Rightarrow> list_ex (\<lambda>x. case as_str x of
          Some t \<Rightarrow> matches_type v t = Inr True | None \<Rightarrow> False) ts
    | Some _ \<Rightarrow> False)"

definition literal_ok :: "pyval \<Rightarrow> pydict \<Rightarrow> bool" where
  "literal_ok v s \<longleftrightarrow>
    (case dict_get s ''enum'' of
       Some (VList xs) \<Rightarrow> list_ex (\<lambda>x. json_equal v x = Inr True) xs | _ \<Rightarrow> True) \<and>
    (case dict_get s ''const'' of Some c \<Rightarrow> json_equal v c = Inr True | None \<Rightarrow> True)"

definition at_least :: "pydict \<Rightarrow> string \<Rightarrow> nat \<Rightarrow> bool" where
  "at_least s keyword n = (case Option.bind (dict_get s keyword) as_int of
      Some m \<Rightarrow> m \<le> int n | None \<Rightarrow> True)"

definition string_ok ::
  "(string \<Rightarrow> string \<Rightarrow> bool option) \<Rightarrow> (string \<Rightarrow> bool option) \<Rightarrow> string \<Rightarrow> pydict \<Rightarrow> bool" where
  "string_ok search aware x s \<longleftrightarrow>
    at_least s ''minLength'' (length x) \<and>
    (case dict_get s ''pattern'' of Some (VStr p) \<Rightarrow> search p x = Some True | _ \<Rightarrow> True) \<and>
    (dict_get s ''format'' = Some (VStr ''date-time'') \<longrightarrow> is_date_time aware x)"

definition number_ok :: "float_value \<Rightarrow> pydict \<Rightarrow> bool" where
  "number_ok x s \<longleftrightarrow>
    (case Option.bind (dict_get s ''minimum'') as_number of
       Some m \<Rightarrow> \<not> float_less x m | None \<Rightarrow> True) \<and>
    (case Option.bind (dict_get s ''exclusiveMinimum'') as_number of
       Some m \<Rightarrow> \<not> float_le x m | None \<Rightarrow> True)"

definition scalar_ok ::
  "(string \<Rightarrow> string \<Rightarrow> bool option) \<Rightarrow> (string \<Rightarrow> bool option) \<Rightarrow> pyval \<Rightarrow> pydict \<Rightarrow> bool" where
  "scalar_ok search aware v s = (case v of
      VStr x \<Rightarrow> string_ok search aware x s
    | VInt n \<Rightarrow> number_ok (Fin (of_int n)) s
    | VFloat x \<Rightarrow> number_ok x s
    | _ \<Rightarrow> True)"

definition names_present :: "pydict \<Rightarrow> pydict \<Rightarrow> bool" where
  "names_present d s = (case dict_get s ''required'' of
      Some (VList names) \<Rightarrow> list_all (\<lambda>n. case n of VStr k \<Rightarrow> dict_has d k | _ \<Rightarrow> True) names
    | _ \<Rightarrow> True)"

fun as_dict :: "pyval \<Rightarrow> pydict option" where
  "as_dict (VDict d) = Some d"
| "as_dict _ = None"

lemma as_dict_Some_iff: "as_dict v = Some d \<longleftrightarrow> v = VDict d"
  by (cases v) auto

text \<open>The schema an object's member answers to: its own, else the additional one.\<close>

definition member_schema :: "pydict \<Rightarrow> string \<Rightarrow> pyval option" where
  "member_schema s name =
    (case Option.bind (Option.bind (dict_get s ''properties'') as_dict) (\<lambda>ps. dict_get ps name) of
       Some (VDict c) \<Rightarrow> Some (VDict c)
     | _ \<Rightarrow> dict_get s ''additionalProperties'')"

lemma member_schema_size:
  "member_schema s name = Some (VDict c) \<Longrightarrow> size (VDict c) < size (VDict s)"
  by (auto simp: member_schema_def bind_eq_Some_conv as_dict_Some_iff simp del: pyval.size
      intro: size_below split: option.splits pyval.splits)

definition items_distinct :: "pyval list \<Rightarrow> bool" where
  "items_distinct xs \<longleftrightarrow>
    (\<forall>i < length xs. \<forall>j < i. json_equal (xs ! i) (xs ! j) \<noteq> Inr True)"

function conforms ::
  "(string \<Rightarrow> string \<Rightarrow> bool option) \<Rightarrow> (string \<Rightarrow> bool option) \<Rightarrow> pyval \<Rightarrow> pydict \<Rightarrow> bool" where
  "conforms search aware v s \<longleftrightarrow>
    type_ok v s \<and> literal_ok v s \<and> scalar_ok search aware v s \<and>
    (case v of
       VDict d \<Rightarrow> names_present d s \<and>
         list_all (\<lambda>(name, x). case member_schema s name of
             Some (VDict c) \<Rightarrow> conforms search aware x c
           | Some (VBool b) \<Rightarrow> b
           | _ \<Rightarrow> True) d
     | VList xs \<Rightarrow> at_least s ''minItems'' (length xs) \<and>
         (dict_get s ''uniqueItems'' = Some (VBool True) \<longrightarrow> items_distinct xs) \<and>
         (case dict_get s ''items'' of
            Some (VDict c) \<Rightarrow> list_all (\<lambda>x. conforms search aware x c) xs | _ \<Rightarrow> True) \<and>
         (case dict_get s ''contains'' of
            Some (VDict c) \<Rightarrow> list_ex (\<lambda>x. conforms search aware x c) xs | _ \<Rightarrow> True)
     | _ \<Rightarrow> True) \<and>
    (case dict_get s ''allOf'' of
       Some (VList cs) \<Rightarrow> list_all (\<lambda>c. case c of
           VDict c \<Rightarrow> conforms search aware v c | _ \<Rightarrow> True) cs
     | _ \<Rightarrow> True) \<and>
    (case dict_get s ''if'' of
       Some (VDict i) \<Rightarrow>
         (case dict_get s (if conforms search aware v i then ''then'' else ''else'') of
            Some (VDict c) \<Rightarrow> conforms search aware v c | _ \<Rightarrow> True)
     | _ \<Rightarrow> True) \<and>
    (case dict_get s ''not'' of
       Some (VDict n) \<Rightarrow> \<not> conforms search aware v n | _ \<Rightarrow> True)"
  by pat_completeness auto
termination
  by (relation "measure (\<lambda>(search, aware, v, s). size (VDict s))")
     (auto intro: size_below member_schema_size simp del: pyval.size)

declare conforms.simps [simp del]
declare validation_errors.simps [simp del] object_errors.simps [simp del]
  array_errors.simps [simp del]

section \<open>One keyword at a time\<close>

lemma type_errors_decides:
  assumes "type_errors v s p = Inr es"
  shows "es = [] \<longleftrightarrow> type_ok v s"
  using assms
  by (auto simp: type_errors_def type_ok_def checked_types_def list_ex_iff
      elim!: rbind_elims dest!: any_r_Inr split: option.splits pyval.splits if_splits) force+

lemma enum_const_decides:
  assumes "enum_errors v s p = Inr es" and "const_errors v s p = Inr fs"
  shows "es = [] \<and> fs = [] \<longleftrightarrow> literal_ok v s"
  using assms
  by (auto simp: enum_errors_def const_errors_def literal_ok_def list_ex_iff
      elim!: rbind_elims dest!: any_r_Inr split: option.splits pyval.splits if_splits)

lemma scalar_errors_decides:
  assumes "scalar_errors search aware v s p = Inr es"
  shows "es = [] \<longleftrightarrow> scalar_ok search aware v s"
proof (cases v)
  case (VStr x)
  with assms show ?thesis
    by (auto simp: scalar_errors_def scalar_ok_def string_ok_def at_least_def some_or_Inr_iff
        elim!: rbind_elims split: option.splits pyval.splits if_splits)
qed (use assms in \<open>auto simp: scalar_errors_def scalar_ok_def number_ok_def
      elim!: rbind_elims split: option.splits if_splits\<close>)

lemma required_errors_decides: "required_errors d s p = [] \<longleftrightarrow> names_present d s"
  by (auto simp: required_errors_def names_present_def list_all_iff
      split: option.splits pyval.splits)

lemma min_items_decides: "min_items_errors xs s p = [] \<longleftrightarrow> at_least s ''minItems'' (length xs)"
  by (auto simp: min_items_errors_def at_least_def split: option.splits)

lemma concat_r_enumerate:
  assumes "concat_r f (List.enumerate 0 xs) = Inr es"
  shows "i < length xs \<Longrightarrow> \<exists>ys. f (i, xs ! i) = Inr ys"
    and "es = [] \<longleftrightarrow> (\<forall>i < length xs. f (i, xs ! i) = Inr [])"
proof -
  have in_enum: "(i, xs ! i) \<in> set (List.enumerate 0 xs)" if "i < length xs" for i
    using that by (simp add: in_set_enumerate_eq)
  show "i < length xs \<Longrightarrow> \<exists>ys. f (i, xs ! i) = Inr ys"
    by (rule concat_r_Inr(1) [OF assms in_enum])
  show "es = [] \<longleftrightarrow> (\<forall>i < length xs. f (i, xs ! i) = Inr [])"
    unfolding concat_r_Inr(2) [OF assms] using in_enum by (auto simp: in_set_enumerate_eq)
qed

lemma unique_errors_decides:
  assumes "unique_errors xs s p = Inr es"
  shows "es = [] \<longleftrightarrow> (dict_get s ''uniqueItems'' = Some (VBool True) \<longrightarrow> items_distinct xs)"
proof (cases "dict_get s ''uniqueItems'' = Some (VBool True)")
  case True
  define f where "f = (\<lambda>(i, x). rbind (any_r (json_equal x) (take i xs)) (\<lambda>dup.
      Inr (if dup then [DuplicateItem (item_path p i)] else [])))"
  have run: "concat_r f (List.enumerate 0 xs) = Inr es"
    using assms True by (simp add: unique_errors_def f_def)
  have "f (i, xs ! i) = Inr [] \<longleftrightarrow> (\<forall>j < i. json_equal (xs ! i) (xs ! j) \<noteq> Inr True)"
    if i: "i < length xs" for i
  proof -
    obtain ys where "f (i, xs ! i) = Inr ys" using concat_r_enumerate(1) [OF run i] by blast
    then obtain b where b: "any_r (json_equal (xs ! i)) (take i xs) = Inr b"
      by (auto simp: f_def elim!: rbind_elims)
    from any_r_Inr [OF this] i have "b \<longleftrightarrow> (\<exists>j < i. json_equal (xs ! i) (xs ! j) = Inr True)"
      by (force simp: in_set_conv_nth)
    with b show ?thesis by (auto simp: f_def)
  qed
  with concat_r_enumerate(2) [OF run] True show ?thesis by (simp add: items_distinct_def)
qed (use assms in \<open>simp add: unique_errors_def\<close>)

section \<open>The evaluator decides conformance\<close>

definition decided_below ::
  "(string \<Rightarrow> string \<Rightarrow> bool option) \<Rightarrow> (string \<Rightarrow> bool option) \<Rightarrow> pydict \<Rightarrow> bool" where
  "decided_below search aware s \<longleftrightarrow> (\<forall>c v p es. size (VDict c) < size (VDict s) \<longrightarrow>
     validation_errors search aware v c p = Inr es \<longrightarrow> (es = [] \<longleftrightarrow> conforms search aware v c))"

lemma decided_belowD:
  "decided_below search aware s \<Longrightarrow> size (VDict c) < size (VDict s) \<Longrightarrow>
    validation_errors search aware v c p = Inr es \<Longrightarrow> es = [] \<longleftrightarrow> conforms search aware v c"
  by (simp add: decided_below_def)

text \<open>\<open>_object_errors\<close> asks each member about the one schema it answers to.\<close>

definition member_errors ::
  "(string \<Rightarrow> string \<Rightarrow> bool option) \<Rightarrow> (string \<Rightarrow> bool option) \<Rightarrow> pyval option \<Rightarrow> pyval \<Rightarrow> string \<Rightarrow>
    (schema_error, complaint list) result" where
  "member_errors search aware schema item path = (case schema of
      Some (VDict c) \<Rightarrow> validation_errors search aware item c path
    | Some (VBool b) \<Rightarrow> Inr (if b then [] else [AdditionalProperty path])
    | _ \<Rightarrow> Inr [])"

lemma member_schema_of:
  "property_schemas s p = Inr ps \<Longrightarrow> member_schema s name = (case dict_get ps name of
      Some (VDict c) \<Rightarrow> Some (VDict c) | _ \<Rightarrow> dict_get s ''additionalProperties'')"
  by (auto simp: member_schema_def property_schemas_def split: option.splits pyval.splits)

lemma object_errors_members:
  "object_errors search aware d s p =
    append_r (Inr (required_errors d s p)) (rbind (property_schemas s p) (\<lambda>_.
      concat_r (\<lambda>(name, x). member_errors search aware (member_schema s name) x (p @ ''.'' @ name)) d))"
proof -
  have member: "(case dict_get ps name of
          Some (VDict c) \<Rightarrow> validation_errors search aware item c (p @ ''.'' @ name)
        | _ \<Rightarrow> (case dict_get s ''additionalProperties'' of
            Some (VBool False) \<Rightarrow> Inr [AdditionalProperty (p @ ''.'' @ name)]
          | Some (VDict c) \<Rightarrow> validation_errors search aware item c (p @ ''.'' @ name)
          | _ \<Rightarrow> Inr [])) =
      member_errors search aware (member_schema s name) item (p @ ''.'' @ name)"
    if "property_schemas s p = Inr ps" for ps name item
    unfolding member_schema_of [OF that] member_errors_def
    by (simp split: option.split pyval.split bool.split)
  show ?thesis
    unfolding object_errors.simps
    by (intro append_r_cong refl rbind_cong concat_r_cong) (auto simp: member)
qed

lemma object_errors_decides:
  assumes below: "decided_below search aware s"
    and run: "object_errors search aware d s p = Inr es"
  shows "es = [] \<longleftrightarrow> names_present d s \<and>
    list_all (\<lambda>(name, x). case member_schema s name of
        Some (VDict c) \<Rightarrow> conforms search aware x c | Some (VBool b) \<Rightarrow> b | _ \<Rightarrow> True) d"
proof -
  let ?f = "\<lambda>(name, x). member_errors search aware (member_schema s name) x (p @ ''.'' @ name)"
  obtain fs where es: "es = required_errors d s p @ fs" and members: "concat_r ?f d = Inr fs"
    using run by (auto simp: object_errors_members elim!: rbind_elims)
  have "?f (name, x) = Inr [] \<longleftrightarrow> (case member_schema s name of
        Some (VDict c) \<Rightarrow> conforms search aware x c | Some (VBool b) \<Rightarrow> b | _ \<Rightarrow> True)"
    if mem: "(name, x) \<in> set d" for name x
  proof -
    obtain ys where "?f (name, x) = Inr ys" using concat_r_Inr(1) [OF members mem] by blast
    then show ?thesis
      using decided_belowD [OF below member_schema_size, of name _ x "p @ ''.'' @ name" ys]
      by (auto simp: member_errors_def split: option.splits pyval.splits if_splits)
  qed
  with concat_r_Inr(2) [OF members] show ?thesis
    unfolding es by (auto simp: required_errors_decides list_all_iff)
qed

lemma array_errors_decides:
  assumes below: "decided_below search aware s"
    and run: "array_errors search aware xs s p = Inr es"
  shows "es = [] \<longleftrightarrow> at_least s ''minItems'' (length xs) \<and>
     (dict_get s ''uniqueItems'' = Some (VBool True) \<longrightarrow> items_distinct xs) \<and>
     (case dict_get s ''items'' of
        Some (VDict c) \<Rightarrow> list_all (\<lambda>x. conforms search aware x c) xs | _ \<Rightarrow> True) \<and>
     (case dict_get s ''contains'' of
        Some (VDict c) \<Rightarrow> list_ex (\<lambda>x. conforms search aware x c) xs | _ \<Rightarrow> True)"
proof -
  obtain us ts cs where uniq: "unique_errors xs s p = Inr us"
    and items: "(case dict_get s ''items'' of
        Some (VDict c) \<Rightarrow> concat_r (\<lambda>(i, item).
          validation_errors search aware item c (item_path p i)) (List.enumerate 0 xs)
      | _ \<Rightarrow> Inr []) = Inr ts"
    and holds: "(case dict_get s ''contains'' of
        Some (VDict c) \<Rightarrow>
          rbind (any_r (\<lambda>(i, item).
            rbind (validation_errors search aware item c (item_path p i)) (\<lambda>failed.
            Inr (failed = []))) (List.enumerate 0 xs)) (\<lambda>found.
          Inr (if found then [] else [NothingContained p]))
      | _ \<Rightarrow> Inr []) = Inr cs"
    and es: "es = min_items_errors xs s p @ us @ ts @ cs"
    using run by (auto simp: array_errors.simps elim!: append_rE)
  have "ts = [] \<longleftrightarrow> list_all (\<lambda>x. conforms search aware x c) xs"
    if c: "dict_get s ''items'' = Some (VDict c)" for c
  proof -
    let ?f = "\<lambda>(i, item). validation_errors search aware item c (item_path p i)"
    have run: "concat_r ?f (List.enumerate 0 xs) = Inr ts" using items c by simp
    have "?f (i, xs ! i) = Inr [] \<longleftrightarrow> conforms search aware (xs ! i) c" if "i < length xs" for i
      using concat_r_enumerate(1) [OF run that] decided_belowD [OF below size_below(1) [OF c]] by auto
    with concat_r_enumerate(2) [OF run] show ?thesis by (simp add: list_all_length)
  qed
  moreover have "cs = [] \<longleftrightarrow> list_ex (\<lambda>x. conforms search aware x c) xs"
    if c: "dict_get s ''contains'' = Some (VDict c)" for c
  proof -
    let ?g = "\<lambda>(i, item). rbind (validation_errors search aware item c (item_path p i)) (\<lambda>failed.
        Inr (failed = []))"
    obtain found where run: "any_r ?g (List.enumerate 0 xs) = Inr found"
      and cs: "cs = (if found then [] else [NothingContained p])"
      using holds c by (auto elim!: rbind_elims)
    have decided: "b \<longleftrightarrow> conforms search aware (xs ! i) c" if "?g (i, xs ! i) = Inr b" for i b
      using that decided_belowD [OF below size_below(1) [OF c]] by (auto elim!: rbind_elims)
    show ?thesis
    proof (cases found)
      case True
      then obtain i where "i < length xs" "?g (i, xs ! i) = Inr True"
        using any_r_Inr [OF run] by (auto simp: in_set_enumerate_eq)
      with decided [of i True] True cs show ?thesis by (auto simp: list_ex_length)
    next
      case False
      have "\<not> conforms search aware (xs ! i) c" if "i < length xs" for i
      proof -
        have "(i, xs ! i) \<in> set (List.enumerate 0 xs)" using that by (simp add: in_set_enumerate_eq)
        moreover have "any_r ?g (List.enumerate 0 xs) = Inr False" using run False by simp
        ultimately have "?g (i, xs ! i) = Inr False" by (rule any_r_False [rotated])
        then show ?thesis using decided [of i False] by simp
      qed
      with False cs show ?thesis by (auto simp: list_ex_length)
    qed
  qed
  ultimately show ?thesis
    using items holds unfolding es
    by (auto simp: min_items_decides unique_errors_decides [OF uniq] split: option.splits pyval.splits)
qed

lemma all_of_decides:
  assumes below: "decided_below search aware s"
    and run: "(case dict_get s ''allOf'' of
        Some (VList children) \<Rightarrow> concat_r (\<lambda>child. case child of
            VDict c \<Rightarrow> validation_errors search aware v c p | _ \<Rightarrow> Inr []) children
      | _ \<Rightarrow> Inr []) = Inr es"
  shows "es = [] \<longleftrightarrow> (case dict_get s ''allOf'' of
       Some (VList cs) \<Rightarrow> list_all (\<lambda>c. case c of
           VDict c \<Rightarrow> conforms search aware v c | _ \<Rightarrow> True) cs
     | _ \<Rightarrow> True)"
proof (cases "\<exists>cs. dict_get s ''allOf'' = Some (VList cs)")
  case True
  then obtain cs where cs: "dict_get s ''allOf'' = Some (VList cs)" by blast
  let ?f = "\<lambda>child. case child of VDict c \<Rightarrow> validation_errors search aware v c p | _ \<Rightarrow> Inr []"
  have children: "concat_r ?f cs = Inr es" using run cs by simp
  have "?f c = Inr [] \<longleftrightarrow> (case c of VDict c \<Rightarrow> conforms search aware v c | _ \<Rightarrow> True)"
    if mem: "c \<in> set cs" for c
  proof (cases c)
    case (VDict d)
    obtain fs where "?f c = Inr fs" using concat_r_Inr(1) [OF children mem] by blast
    moreover have "size (VDict d) < size (VDict s)" using size_below(4) [OF cs] mem VDict by blast
    ultimately show ?thesis using decided_belowD [OF below, of d v p fs] VDict by auto
  qed simp_all
  with concat_r_Inr(2) [OF children] cs show ?thesis by (simp add: list_all_iff)
next
  case False
  with run show ?thesis by (auto split: option.splits pyval.splits)
qed

lemma if_decides:
  assumes below: "decided_below search aware s"
    and run: "(case dict_get s ''if'' of
        Some (VDict condition) \<Rightarrow>
          rbind (validation_errors search aware v condition p) (\<lambda>failed.
          case dict_get s (if failed = [] then ''then'' else ''else'') of
            Some (VDict branch) \<Rightarrow> validation_errors search aware v branch p
          | _ \<Rightarrow> Inr [])
      | _ \<Rightarrow> Inr []) = Inr es"
  shows "es = [] \<longleftrightarrow> (case dict_get s ''if'' of
       Some (VDict i) \<Rightarrow>
         (case dict_get s (if conforms search aware v i then ''then'' else ''else'') of
            Some (VDict c) \<Rightarrow> conforms search aware v c | _ \<Rightarrow> True)
     | _ \<Rightarrow> True)"
proof (cases "\<exists>i. dict_get s ''if'' = Some (VDict i)")
  case True
  then obtain i where i: "dict_get s ''if'' = Some (VDict i)" by blast
  obtain failed where failed: "validation_errors search aware v i p = Inr failed"
    and rest: "(case dict_get s (if failed = [] then ''then'' else ''else'') of
        Some (VDict branch) \<Rightarrow> validation_errors search aware v branch p | _ \<Rightarrow> Inr []) = Inr es"
    using run i by (auto elim!: rbind_elims)
  have choice: "failed = [] \<longleftrightarrow> conforms search aware v i"
    by (rule decided_belowD [OF below size_below(1) [OF i] failed])
  let ?b = "dict_get s (if conforms search aware v i then ''then'' else ''else'')"
  show ?thesis
  proof (cases "\<exists>c. ?b = Some (VDict c)")
    case True
    then obtain c where c: "?b = Some (VDict c)" by blast
    with rest have "validation_errors search aware v c p = Inr es" by (simp add: choice)
    from decided_belowD [OF below size_below(1) [OF c] this] i c show ?thesis by simp
  next
    case False
    then have "es = []" using rest unfolding choice by (auto split: option.splits pyval.splits)
    with False i show ?thesis by (auto split: option.splits pyval.splits)
  qed
qed (use run in \<open>auto split: option.splits pyval.splits\<close>)

lemma not_decides:
  assumes below: "decided_below search aware s"
    and run: "(case dict_get s ''not'' of
        Some (VDict negated) \<Rightarrow> rbind (validation_errors search aware v negated p) (\<lambda>failed.
          Inr (if failed = [] then [Forbidden p] else []))
      | _ \<Rightarrow> Inr []) = Inr es"
  shows "es = [] \<longleftrightarrow> (case dict_get s ''not'' of
       Some (VDict n) \<Rightarrow> \<not> conforms search aware v n | _ \<Rightarrow> True)"
  using run decided_belowD [OF below size_below(1)]
  by (auto elim!: rbind_elims split: option.splits pyval.splits if_splits)

text \<open>The part of \<open>conforms\<close> that depends on what the value is.\<close>

definition contents_ok ::
  "(string \<Rightarrow> string \<Rightarrow> bool option) \<Rightarrow> (string \<Rightarrow> bool option) \<Rightarrow> pyval \<Rightarrow> pydict \<Rightarrow> bool" where
  "contents_ok search aware v s = (case v of
       VDict d \<Rightarrow> names_present d s \<and>
         list_all (\<lambda>(name, x). case member_schema s name of
             Some (VDict c) \<Rightarrow> conforms search aware x c
           | Some (VBool b) \<Rightarrow> b
           | _ \<Rightarrow> True) d
     | VList xs \<Rightarrow> at_least s ''minItems'' (length xs) \<and>
         (dict_get s ''uniqueItems'' = Some (VBool True) \<longrightarrow> items_distinct xs) \<and>
         (case dict_get s ''items'' of
            Some (VDict c) \<Rightarrow> list_all (\<lambda>x. conforms search aware x c) xs | _ \<Rightarrow> True) \<and>
         (case dict_get s ''contains'' of
            Some (VDict c) \<Rightarrow> list_ex (\<lambda>x. conforms search aware x c) xs | _ \<Rightarrow> True)
     | _ \<Rightarrow> True)"

lemma contents_decides:
  assumes below: "decided_below search aware s"
    and run: "(case v of
        VDict d \<Rightarrow> object_errors search aware d s p
      | VList xs \<Rightarrow> array_errors search aware xs s p
      | _ \<Rightarrow> scalar_errors search aware v s p) = Inr es"
  shows "es = [] \<longleftrightarrow> scalar_ok search aware v s \<and> contents_ok search aware v s"
  using run object_errors_decides [where s = s and p = p and es = es, OF below]
    array_errors_decides [where s = s and p = p and es = es, OF below] scalar_errors_decides
  by (cases v) (auto simp: scalar_ok_def contents_ok_def)

lemma evaluator_decides_conforms:
  "validation_errors search aware v schema path = Inr errors \<Longrightarrow>
    errors = [] \<longleftrightarrow> conforms search aware v schema"
proof (induction "size (VDict schema)" arbitrary: v schema path errors rule: less_induct)
  case less
  have below: "decided_below search aware schema"
    using less.hyps by (auto simp: decided_below_def simp del: pyval.size)
  obtain te where te: "type_errors v schema path = Inr te"
    using less.prems by (auto simp: validation_errors.simps elim!: rbind_InrE)
  show ?case
  proof (cases "te = []")
    case False
    with te less.prems have "errors = te" by (simp add: validation_errors.simps)
    with False type_errors_decides [OF te] show ?thesis by (simp add: conforms.simps)
  next
    case True
    obtain en co bo al br ne where parts: "enum_errors v schema path = Inr en"
        "const_errors v schema path = Inr co"
      and bo: "(case v of
          VDict d \<Rightarrow> object_errors search aware d schema path
        | VList xs \<Rightarrow> array_errors search aware xs schema path
        | _ \<Rightarrow> scalar_errors search aware v schema path) = Inr bo"
      and al: "(case dict_get schema ''allOf'' of
          Some (VList children) \<Rightarrow> concat_r (\<lambda>child. case child of
              VDict c \<Rightarrow> validation_errors search aware v c path | _ \<Rightarrow> Inr []) children
        | _ \<Rightarrow> Inr []) = Inr al"
      and br: "(case dict_get schema ''if'' of
          Some (VDict condition) \<Rightarrow>
            rbind (validation_errors search aware v condition path) (\<lambda>failed.
            case dict_get schema (if failed = [] then ''then'' else ''else'') of
              Some (VDict branch) \<Rightarrow> validation_errors search aware v branch path
            | _ \<Rightarrow> Inr [])
        | _ \<Rightarrow> Inr []) = Inr br"
      and ne: "(case dict_get schema ''not'' of
          Some (VDict negated) \<Rightarrow> rbind (validation_errors search aware v negated path) (\<lambda>failed.
            Inr (if failed = [] then [Forbidden path] else []))
        | _ \<Rightarrow> Inr []) = Inr ne"
      and errors: "errors = en @ co @ bo @ al @ br @ ne"
      using less.prems te True by (auto simp: validation_errors.simps elim!: append_rE)
    have "type_ok v schema" using True type_errors_decides [OF te] by simp
    moreover note enum_const_decides [OF parts]
    moreover have "bo = [] \<longleftrightarrow> scalar_ok search aware v schema \<and> contents_ok search aware v schema"
      by (rule contents_decides [OF below bo])
    moreover note all_of_decides [OF below al] if_decides [OF below br] not_decides [OF below ne]
    ultimately show ?thesis
      unfolding errors conforms.simps [of search aware v schema] append_is_Nil_conv
        contents_ok_def [symmetric]
      by blast
  qed
qed

section \<open>When the evaluator returns\<close>

fun in_float_range :: "pyval \<Rightarrow> bool" where
  "in_float_range (VInt n) \<longleftrightarrow> \<bar>n\<bar> < float_limit"
| "in_float_range (VList xs) \<longleftrightarrow> list_all in_float_range xs"
| "in_float_range (VDict d) \<longleftrightarrow> list_all (\<lambda>(k, v). in_float_range v) d"
| "in_float_range _ \<longleftrightarrow> True"

definition known_types :: "string list" where
  "known_types =
    [''null'', ''boolean'', ''integer'', ''number'', ''string'', ''array'', ''object'']"

definition type_known :: "pydict \<Rightarrow> bool" where
  "type_known s = (case dict_get s ''type'' of
      None \<Rightarrow> True
    | Some VNone \<Rightarrow> True
    | Some (VStr t) \<Rightarrow> t \<in> set known_types
    | Some (VList ts) \<Rightarrow> list_all (\<lambda>x. case as_str x of
          Some t \<Rightarrow> t \<in> set known_types | None \<Rightarrow> False) ts
    | Some _ \<Rightarrow> False)"

definition literals_in_range :: "pydict \<Rightarrow> bool" where
  "literals_in_range s \<longleftrightarrow>
    (case dict_get s ''enum'' of Some (VList xs) \<Rightarrow> list_all in_float_range xs | _ \<Rightarrow> True) \<and>
    (case dict_get s ''const'' of Some c \<Rightarrow> in_float_range c | None \<Rightarrow> True)"

text \<open>
  A schema whose every part names known types, compiling patterns and comparable literals, and
  whose \<open>properties\<close> are objects.
\<close>

function well_formed_schema :: "(string \<Rightarrow> bool) \<Rightarrow> pydict \<Rightarrow> bool" where
  "well_formed_schema compiles s \<longleftrightarrow>
    type_known s \<and> literals_in_range s \<and>
    (case dict_get s ''pattern'' of Some (VStr p) \<Rightarrow> compiles p | _ \<Rightarrow> True) \<and>
    (case dict_get s ''properties'' of
       None \<Rightarrow> True
     | Some (VDict ps) \<Rightarrow> list_all (\<lambda>(name, c). case c of
           VDict d \<Rightarrow> well_formed_schema compiles d | _ \<Rightarrow> True) ps
     | Some _ \<Rightarrow> False) \<and>
    list_all (\<lambda>k. case dict_get s k of
        Some (VDict c) \<Rightarrow> well_formed_schema compiles c | _ \<Rightarrow> True) child_keywords \<and>
    (case dict_get s ''allOf'' of
       Some (VList cs) \<Rightarrow> list_all (\<lambda>c. case c of
           VDict d \<Rightarrow> well_formed_schema compiles d | _ \<Rightarrow> True) cs
     | _ \<Rightarrow> True)"
  by pat_completeness auto
termination
  by (relation "measure (\<lambda>(compiles, s). size (VDict s))")
     (auto intro: size_below simp del: pyval.size)

declare well_formed_schema.simps [simp del]

lemma float_of_int_returns: "\<bar>n\<bar> < float_limit \<Longrightarrow> returns (float_of_int n)"
  by (simp add: float_of_int_def)

lemma to_float_returns: "in_float_range v \<Longrightarrow> returns (to_float v)"
  by (cases v) (auto simp: float_of_int_returns)

lemma rbind_returns: "returns r \<Longrightarrow> (\<And>x. r = Inr x \<Longrightarrow> returns (f x)) \<Longrightarrow> returns (rbind r f)"
  by auto

lemma json_equal_returns:
  "in_float_range l \<Longrightarrow> in_float_range r \<Longrightarrow> returns (json_equal l r)"
proof (induction "size l" arbitrary: l r rule: less_induct)
  case less
  show ?case
  proof (cases "is_bool l \<or> is_bool r \<or> is_number l \<and> is_number r \<or> type_name l \<noteq> type_name r")
    case True
    then show ?thesis
      using less.prems by (subst json_equal.simps) (auto intro!: rbind_returns to_float_returns)
  next
    case False
    then consider (obj) a b where "l = VDict a" "r = VDict b" | (arr) xs ys where "l = VList xs" "r = VList ys"
      | (other) "returns (json_equal l r)"
      by (cases l; cases r) (auto simp: json_equal.simps [of VNone VNone]
          json_equal.simps [of "VStr x" "VStr y" for x y] is_number_def)
    then show ?thesis
    proof cases
      case obj
      have "returns (json_equal v w)" if "(k, v) \<in> set a" "dict_get b k = Some w" for k v w
      proof (rule less.hyps)
        show "size v < size l" using that(1) unfolding obj by (rule dict_member_size)
        show "in_float_range v" "in_float_range w"
          using less.prems that(1) map_of_SomeD [OF that(2)] by (auto simp: obj list_all_iff)
      qed
      then show ?thesis unfolding obj
        by (subst json_equal.simps) (auto simp: is_number_def intro!: all_r_returns split: option.split)
    next
      case arr
      have "returns (json_equal v w)" if "(v, w) \<in> set (zip xs ys)" for v w
      proof (rule less.hyps)
        show "size v < size l" using that unfolding arr by (rule zip_member_size)
        show "in_float_range v" "in_float_range w"
          using less.prems set_zip_leftD [OF that] set_zip_rightD [OF that]
          by (auto simp: arr list_all_iff)
      qed
      then show ?thesis unfolding arr
        by (subst json_equal.simps) (auto simp: is_number_def intro!: all_r_returns)
    qed
  qed
qed

lemma matches_type_returns:
  "in_float_range v \<Longrightarrow> t \<in> set known_types \<Longrightarrow> returns (matches_type v t)"
proof -
  assume v: "in_float_range v" and t: "t \<in> set known_types"
  from to_float_returns [OF v] obtain x where "to_float v = Inr x" by blast
  moreover from t have "t = ''null'' \<or> t = ''boolean'' \<or> t = ''integer'' \<or> t = ''number'' \<or>
      t = ''string'' \<or> t = ''array'' \<or> t = ''object''"
    by (simp add: known_types_def)
  ultimately show ?thesis by (elim disjE) (simp_all add: matches_type_def, blast)
qed

lemma checked_types_known:
  assumes "type_known s" and "dict_get s ''type'' = Some e" and "e \<noteq> VNone"
  shows "\<exists>ts. checked_types e p = Inr ts \<and> set ts \<subseteq> set known_types"
proof (cases e)
  case (VList xs)
  have "\<forall>x \<in> set xs. \<exists>t. as_str x = Some t \<and> t \<in> set known_types"
    using assms by (auto simp: type_known_def VList list_all_iff split: option.splits)
  then show ?thesis by (force simp: checked_types_def VList)
qed (use assms in \<open>auto simp: type_known_def checked_types_def\<close>)

lemma type_errors_returns:
  assumes "in_float_range v" and "type_known s"
  shows "returns (type_errors v s p)"
proof -
  have "returns (rbind (checked_types e p) (\<lambda>types. rbind (any_r (matches_type v) types) (\<lambda>matched.
      Inr (if matched then [] else [WrongType p types (type_name v)]))))"
    if e: "dict_get s ''type'' = Some e" "e \<noteq> VNone" for e
  proof -
    obtain ts where ts: "checked_types e p = Inr ts" "set ts \<subseteq> set known_types"
      using checked_types_known [OF assms(2) e] by blast
    have "returns (any_r (matches_type v) ts)"
      by (rule any_r_returns, rule matches_type_returns [OF assms(1)]) (use ts(2) in blast)
    with ts(1) show ?thesis by auto
  qed
  then show ?thesis
    unfolding type_errors_def by (auto split: option.split pyval.split)
qed

lemma literals_return:
  assumes "in_float_range v" and "literals_in_range s"
  shows "returns (enum_errors v s p)" and "returns (const_errors v s p)"
  using assms
  by (auto simp: enum_errors_def const_errors_def literals_in_range_def list_all_iff
      intro!: rbind_returns any_r_returns json_equal_returns split: option.split pyval.split)

lemma unique_errors_returns:
  assumes "list_all in_float_range xs"
  shows "returns (unique_errors xs s p)"
  using assms
  by (auto simp: unique_errors_def list_all_iff in_set_enumerate_eq dest!: in_set_takeD
      intro!: concat_r_returns rbind_returns any_r_returns json_equal_returns)

lemma scalar_errors_return:
  assumes "\<And>q x. compiles q \<Longrightarrow> search q x \<noteq> None"
    and "case dict_get s ''pattern'' of Some (VStr q) \<Rightarrow> compiles q | _ \<Rightarrow> True"
  shows "returns (scalar_errors search aware v s p)"
proof -
  have "returns (case dict_get s ''pattern'' of
      Some (VStr q) \<Rightarrow> rbind (some_or (search q x) PatternError) (\<lambda>found.
        Inr (if found then [] else [PatternMismatch p q]))
    | _ \<Rightarrow> Inr [])" for x
    using assms(2) by (auto dest!: assms(1) [of _ x] split: option.splits pyval.splits)
  then show ?thesis
    unfolding scalar_errors_def
    by (intro append_r_returns) (auto intro!: append_r_returns split: pyval.splits option.splits)
qed

text \<open>The parts of a well-formed schema are well formed.\<close>

lemma well_formed_parts:
  assumes "well_formed_schema compiles s"
  shows "type_known s" and "literals_in_range s"
    and "case dict_get s ''pattern'' of Some (VStr q) \<Rightarrow> compiles q | _ \<Rightarrow> True"
    and "returns (property_schemas s p)"
    and "k \<in> set child_keywords \<Longrightarrow> dict_get s k = Some (VDict c) \<Longrightarrow> well_formed_schema compiles c"
    and "dict_get s ''allOf'' = Some (VList cs) \<Longrightarrow> VDict c \<in> set cs \<Longrightarrow>
      well_formed_schema compiles c"
    and "member_schema s name = Some (VDict c) \<Longrightarrow> well_formed_schema compiles c"
proof -
  note wf = assms [unfolded well_formed_schema.simps [of compiles s]]
  show "type_known s" "literals_in_range s"
    "case dict_get s ''pattern'' of Some (VStr q) \<Rightarrow> compiles q | _ \<Rightarrow> True"
    using wf by blast+
  show "returns (property_schemas s p)"
    using wf by (auto simp: property_schemas_def split: option.splits pyval.splits)
  show keyword: "k \<in> set child_keywords \<Longrightarrow> dict_get s k = Some (VDict c) \<Longrightarrow>
      well_formed_schema compiles c" for k c
    using wf by (auto simp: list_all_iff)
  show "dict_get s ''allOf'' = Some (VList cs) \<Longrightarrow> VDict c \<in> set cs \<Longrightarrow>
      well_formed_schema compiles c"
    using wf by (auto simp: list_all_iff)
  have "well_formed_schema compiles c"
    if "dict_get s ''properties'' = Some (VDict ps)" "dict_get ps name = Some (VDict c)" for ps
    using wf that map_of_SomeD [OF that(2)] by (auto simp: list_all_iff)
  moreover have "''additionalProperties'' \<in> set child_keywords" by (simp add: child_keywords_def)
  ultimately show "member_schema s name = Some (VDict c) \<Longrightarrow> well_formed_schema compiles c"
    using keyword
    by (auto simp: member_schema_def bind_eq_Some_conv as_dict_Some_iff
        split: option.splits pyval.splits)
qed

lemma child_keyword_parts:
  assumes "well_formed_schema compiles s"
  shows "dict_get s ''items'' = Some (VDict c) \<Longrightarrow> well_formed_schema compiles c"
    and "dict_get s ''if'' = Some (VDict c) \<Longrightarrow> well_formed_schema compiles c"
    and "dict_get s ''then'' = Some (VDict c) \<Longrightarrow> well_formed_schema compiles c"
    and "dict_get s ''else'' = Some (VDict c) \<Longrightarrow> well_formed_schema compiles c"
    and "dict_get s ''not'' = Some (VDict c) \<Longrightarrow> well_formed_schema compiles c"
    and "dict_get s ''contains'' = Some (VDict c) \<Longrightarrow> well_formed_schema compiles c"
  by (rule well_formed_parts(5) [OF assms, rotated], assumption, simp add: child_keywords_def)+

lemma dict_case_returns:
  "(\<And>c. x = Some (VDict c) \<Longrightarrow> returns (f c)) \<Longrightarrow>
    returns (case x of Some (VDict c) \<Rightarrow> f c | _ \<Rightarrow> Inr [])"
  by (simp split: option.split pyval.split)

lemma list_case_returns:
  "(\<And>cs. x = Some (VList cs) \<Longrightarrow> returns (f cs)) \<Longrightarrow>
    returns (case x of Some (VList cs) \<Rightarrow> f cs | _ \<Rightarrow> Inr [])"
  by (simp split: option.split pyval.split)

definition returns_below ::
  "(string \<Rightarrow> string \<Rightarrow> bool option) \<Rightarrow> (string \<Rightarrow> bool option) \<Rightarrow> (string \<Rightarrow> bool) \<Rightarrow> pydict \<Rightarrow> bool" where
  "returns_below search aware compiles s \<longleftrightarrow> (\<forall>c v p. size (VDict c) < size (VDict s) \<longrightarrow>
     well_formed_schema compiles c \<longrightarrow> in_float_range v \<longrightarrow>
     returns (validation_errors search aware v c p))"

lemma returns_belowD:
  "returns_below search aware compiles s \<Longrightarrow> size (VDict c) < size (VDict s) \<Longrightarrow>
    well_formed_schema compiles c \<Longrightarrow> in_float_range v \<Longrightarrow>
    returns (validation_errors search aware v c p)"
  by (simp add: returns_below_def)

lemma object_errors_return:
  assumes below: "returns_below search aware compiles s" and wf: "well_formed_schema compiles s"
    and range: "in_float_range (VDict d)"
  shows "returns (object_errors search aware d s p)"
proof -
  note parts = well_formed_parts [OF wf]
  have "returns (member_errors search aware (member_schema s name) x q)"
    if "(name, x) \<in> set d" for name x q
    using that range returns_belowD [OF below member_schema_size parts(7), of name _ name x q]
    by (auto simp: member_errors_def list_all_iff split: option.split pyval.split)
  with parts(4) show ?thesis
    unfolding object_errors_members by (auto intro!: append_r_returns rbind_returns concat_r_returns)
qed

lemma array_errors_return:
  assumes below: "returns_below search aware compiles s" and wf: "well_formed_schema compiles s"
    and range: "list_all in_float_range xs"
  shows "returns (array_errors search aware xs s p)"
proof -
  note keyword_parts = child_keyword_parts [OF wf]
  have item: "returns (case y of (i, x) \<Rightarrow> validation_errors search aware x c (q i))"
    if "y \<in> set (List.enumerate 0 xs)" "dict_get s k = Some (VDict c)" "well_formed_schema compiles c"
    for y c q k
    using returns_belowD [OF below size_below(1) [OF that(2)] that(3)] range that(1)
    by (cases y) (auto simp: list_all_length in_set_enumerate_eq)
  have "returns (any_r (\<lambda>(i, x). rbind (validation_errors search aware x c (item_path p i))
      (\<lambda>failed. Inr (failed = []))) (List.enumerate 0 xs))"
    if "dict_get s ''contains'' = Some (VDict c)" for c
    using item [OF _ that keyword_parts(6) [OF that]]
    by (intro any_r_returns) (auto intro!: rbind_returns)
  then show ?thesis
    unfolding array_errors.simps
    by (intro append_r_returns unique_errors_returns [OF range] dict_case_returns
        concat_r_returns item keyword_parts(1) rbind_returns) auto
qed

lemma evaluator_returns:
  assumes compile: "\<And>q x. compiles q \<Longrightarrow> search q x \<noteq> None"
  shows "well_formed_schema compiles s \<Longrightarrow> in_float_range v \<Longrightarrow>
    returns (validation_errors search aware v s p)"
proof (induction "size (VDict s)" arbitrary: v s p rule: less_induct)
  case less
  note parts = well_formed_parts [OF less.prems(1)]
  note keyword_parts = child_keyword_parts [OF less.prems(1)]
  have below: "returns_below search aware compiles s"
    using less.hyps by (auto simp: returns_below_def simp del: pyval.size)
  have body: "returns (case v of
        VDict d \<Rightarrow> object_errors search aware d s p
      | VList xs \<Rightarrow> array_errors search aware xs s p
      | _ \<Rightarrow> scalar_errors search aware v s p)"
    using object_errors_return [OF below less.prems(1)] array_errors_return [OF below less.prems(1)]
      less.prems(2) scalar_errors_return [where compiles = compiles, OF compile parts(3)]
    by (auto split: pyval.split)
  have same: "returns (validation_errors search aware v c p)"
    if "dict_get s k = Some (VDict c)" "well_formed_schema compiles c" for c k
    by (rule returns_belowD [OF below size_below(1) [OF that(1)] that(2) less.prems(2)])
  have every: "returns (case c of VDict d \<Rightarrow> validation_errors search aware v d p | _ \<Rightarrow> Inr [])"
    if "c \<in> set cs" "dict_get s ''allOf'' = Some (VList cs)" for c cs
    using that returns_belowD [OF below size_below(4) [OF that(2)] parts(6) [OF that(2)] less.prems(2)]
    by (auto split: pyval.split)
  have branch: "returns (case dict_get s (if b then ''then'' else ''else'') of
      Some (VDict c) \<Rightarrow> validation_errors search aware v c p | _ \<Rightarrow> Inr [])" for b
    by (cases b) (auto intro!: dict_case_returns dest: same [OF _ keyword_parts(3)]
        same [OF _ keyword_parts(4)])
  have "returns (case dict_get s ''allOf'' of
      Some (VList cs) \<Rightarrow> concat_r (\<lambda>c. case c of
          VDict d \<Rightarrow> validation_errors search aware v d p | _ \<Rightarrow> Inr []) cs
    | _ \<Rightarrow> Inr [])"
    by (intro list_case_returns concat_r_returns every)
  moreover have "returns (case dict_get s ''if'' of
      Some (VDict c) \<Rightarrow> rbind (validation_errors search aware v c p) (\<lambda>failed.
        case dict_get s (if failed = [] then ''then'' else ''else'') of
          Some (VDict b) \<Rightarrow> validation_errors search aware v b p | _ \<Rightarrow> Inr [])
    | _ \<Rightarrow> Inr [])"
    by (intro dict_case_returns rbind_returns branch same keyword_parts(2))
  moreover have "returns (case dict_get s ''not'' of
      Some (VDict c) \<Rightarrow> rbind (validation_errors search aware v c p) (\<lambda>failed.
        Inr (if failed = [] then [Forbidden p] else []))
    | _ \<Rightarrow> Inr [])"
    by (intro dict_case_returns rbind_returns same keyword_parts(5)) auto
  ultimately show ?case
    unfolding validation_errors.simps [of search aware v s p]
    using body literals_return [OF less.prems(2) parts(2)]
      type_errors_returns [OF less.prems(2) parts(1)]
    by (intro rbind_returns) (auto intro!: append_r_returns)
qed


definition sample_schema :: pydict where
  "sample_schema =
    [(''type'', VStr ''object''), (''required'', VList [VStr ''name'']),
     (''additionalProperties'', VBool False),
     (''properties'', VDict
       [(''name'', VDict [(''type'', VStr ''string''), (''minLength'', VInt 1)]),
        (''tags'', VDict [(''type'', VStr ''array''), (''uniqueItems'', VBool True),
           (''items'', VDict [(''enum'', VList [VInt 1, VInt 2])])])])]"


section \<open>The closed surface\<close>

text \<open>The schemas the evaluator reaches from a schema.\<close>

inductive subschema :: "pydict \<Rightarrow> pydict \<Rightarrow> bool" for s where
  whole: "subschema s s"
| property: "subschema s t \<Longrightarrow> dict_get t ''properties'' = Some (VDict ps) \<Longrightarrow>
    (name, VDict c) \<in> set ps \<Longrightarrow> subschema s c"
| keyword: "subschema s t \<Longrightarrow> k \<in> set child_keywords \<Longrightarrow> dict_get t k = Some (VDict c) \<Longrightarrow>
    subschema s c"
| alternative: "subschema s t \<Longrightarrow> dict_get t ''allOf'' = Some (VList cs) \<Longrightarrow>
    VDict c \<in> set cs \<Longrightarrow> subschema s c"

lemma then_r_Inr_iff: "then_r r t = Inr u \<longleftrightarrow> returns r \<and> t = Inr u"
  by (auto simp: then_r_def rbind_Inr_iff)

lemma each_r_in:
  assumes "each_r f xs = Inr u" and "x \<in> set xs"
  shows "f x = Inr ()"
proof -
  obtain ys where "rmap f xs = Inr ys" using assms(1) by (auto simp: each_r_def rbind_Inr_iff)
  then have "\<exists>y. f x = Inr y"
    using assms(2) by (induction xs arbitrary: ys) (auto simp: rbind_Inr_iff)
  then show ?thesis by simp
qed

lemma accepted_child:
  assumes "assert_supported_schema s p = Inr ()"
  shows "dict_get s ''properties'' = Some (VDict ps) \<Longrightarrow> (name, VDict c) \<in> set ps \<Longrightarrow>
      \<exists>q. assert_supported_schema c q = Inr ()"
    and "k \<in> set child_keywords \<Longrightarrow> dict_get s k = Some (VDict c) \<Longrightarrow>
      \<exists>q. assert_supported_schema c q = Inr ()"
    and "dict_get s ''allOf'' = Some (VList cs) \<Longrightarrow> VDict c \<in> set cs \<Longrightarrow>
      \<exists>q. assert_supported_schema c q = Inr ()"
    and "set (dict_keys s) \<subseteq> set supported_keywords"
proof -
  note ok = assms [unfolded assert_supported_schema.simps [of s p] then_r_Inr_iff]
  show "dict_get s ''properties'' = Some (VDict ps) \<Longrightarrow> (name, VDict c) \<in> set ps \<Longrightarrow>
      \<exists>q. assert_supported_schema c q = Inr ()"
    using ok by (auto dest!: each_r_in)
  show "k \<in> set child_keywords \<Longrightarrow> dict_get s k = Some (VDict c) \<Longrightarrow>
      \<exists>q. assert_supported_schema c q = Inr ()"
    using ok by (auto dest!: each_r_in [of _ child_keywords])
  show "\<exists>q. assert_supported_schema c q = Inr ()"
    if all: "dict_get s ''allOf'' = Some (VList cs)" and mem: "VDict c \<in> set cs"
  proof -
    obtain i where "i < length cs" "cs ! i = VDict c" using mem by (auto simp: in_set_conv_nth)
    then have "(i, VDict c) \<in> set (List.enumerate 0 cs)" by (simp add: in_set_enumerate_eq)
    moreover from ok all obtain u where "each_r (\<lambda>(i, child). case child of
          VDict c \<Rightarrow> assert_supported_schema c (p @ ''.allOf['' @ nat_str i @ '']'')
        | _ \<Rightarrow> Inr ()) (List.enumerate 0 cs) = Inr u" by auto
    ultimately show ?thesis using each_r_in by fastforce
  qed
  show "set (dict_keys s) \<subseteq> set supported_keywords"
  proof -
    from ok have "unsupported s = []" by (simp add: raise_if_Inr_iff)
    then have "set (unsupported s) = {}" by simp
    then show ?thesis unfolding unsupported_def set_sort by auto
  qed
qed

text \<open>
  After the closed-surface check accepts a schema, every part the evaluator can reach uses
  only supported keywords.
\<close>

theorem accepted_schema_closed:
  assumes "assert_supported_schema schema path = Inr ()" and "subschema schema part"
  shows "set (dict_keys part) \<subseteq> set supported_keywords"
proof -
  from assms(2) have "\<exists>q. assert_supported_schema part q = Inr ()"
    by induction (use assms(1) accepted_child in blast)+
  then show ?thesis using accepted_child(4) by blast
qed

theorem accepted_schema_closed_witness:
  "set (dict_keys [(''type'', VStr ''string''), (''minLength'', VInt 1)]) \<subseteq> set supported_keywords"
proof (rule accepted_schema_closed)
  show "assert_supported_schema sample_schema ''$'' = Inr ()"
    by (simp add: sample_schema_def assert_supported_schema.simps unsupported_def
        supported_keywords_def child_keywords_def each_r_def then_r_def)
  show "subschema sample_schema [(''type'', VStr ''string''), (''minLength'', VInt 1)]"
    by (rule subschema.property [OF subschema.whole]) (auto simp: sample_schema_def)
qed

end
