(* ===== verification/Loop_Contract_Properties.thy ===== *)
theory Loop_Contract_Properties
  imports Loop_Contract Loop_Schema_Properties
begin

text \<open>
  What a loop contract that passes the validator of \<open>Loop_Contract\<close> satisfies.

  \<^item> A document that conforms to the canonical schema loads: no field is missing and every field
    has its annotated type.
  \<^item> A valid contract is \<open>sound_contract\<close>: a fitting trigger, positive budgets, supported gates,
    disjoint scopes and actions, and a mandatory human review.
  \<^item> The gate script ends with status 0 exactly when every contract loads and is valid.
\<close>

section \<open>Reading conformance\<close>

lemma conforms_type_ok: "conforms search aware v s \<Longrightarrow> type_ok v s"
  by (simp add: conforms.simps [of search aware v s])

lemma conforms_literal_ok: "conforms search aware v s \<Longrightarrow> literal_ok v s"
  by (simp add: conforms.simps [of search aware v s])

lemma conforms_scalar_ok: "conforms search aware v s \<Longrightarrow> scalar_ok search aware v s"
  by (simp add: conforms.simps [of search aware v s])

lemma conforms_contents_ok: "conforms search aware v s \<Longrightarrow> contents_ok search aware v s"
  by (simp add: conforms.simps [of search aware v s] contents_ok_def)

lemma conforms_alternative:
  "conforms search aware v s \<Longrightarrow> dict_get s ''allOf'' = Some (VList cs) \<Longrightarrow> VDict c \<in> set cs \<Longrightarrow>
    conforms search aware v c"
  by (auto simp: conforms.simps [of search aware v s] list_all_iff)

lemma conforms_then:
  "conforms search aware v s \<Longrightarrow> dict_get s ''if'' = Some (VDict i) \<Longrightarrow> conforms search aware v i \<Longrightarrow>
    dict_get s ''then'' = Some (VDict c) \<Longrightarrow> conforms search aware v c"
  by (simp add: conforms.simps [of search aware v s])

lemma conforms_member:
  assumes "conforms search aware (VDict d) s" and "dict_get d k = Some x"
    and "member_schema s k = Some (VDict c)"
  shows "conforms search aware x c"
  using conforms_contents_ok [OF assms(1)] map_of_SomeD [OF assms(2)] assms(3)
  by (auto simp: contents_ok_def list_all_iff)

lemma conforms_present:
  assumes "conforms search aware (VDict d) s"
    and "dict_get s ''required'' = Some (VList (map VStr names))" and "n \<in> set names"
  shows "\<exists>x. dict_get d n = Some x"
  using conforms_contents_ok [OF assms(1)] assms(2,3)
  by (auto simp: contents_ok_def names_present_def list_all_iff dict_has_def)

lemma typed_object:
  "conforms search aware v s \<Longrightarrow> dict_get s ''type'' = Some (VStr ''object'') \<Longrightarrow> \<exists>d. v = VDict d"
  by (cases v) (auto dest!: conforms_type_ok simp: type_ok_def matches_type_def)

lemma typed_string:
  "conforms search aware v s \<Longrightarrow> dict_get s ''type'' = Some (VStr ''string'') \<Longrightarrow> \<exists>x. v = VStr x"
  by (cases v) (auto dest!: conforms_type_ok simp: type_ok_def matches_type_def)

lemma typed_array:
  "conforms search aware v s \<Longrightarrow> dict_get s ''type'' = Some (VStr ''array'') \<Longrightarrow> \<exists>xs. v = VList xs"
  by (cases v) (auto dest!: conforms_type_ok simp: type_ok_def matches_type_def)

lemma typed_integer:
  "conforms search aware v s \<Longrightarrow> dict_get s ''type'' = Some (VStr ''integer'') \<Longrightarrow> \<exists>n. v = VInt n"
  by (cases v) (auto dest!: conforms_type_ok simp: type_ok_def matches_type_def)

lemma typed_boolean:
  "conforms search aware v s \<Longrightarrow> dict_get s ''type'' = Some (VStr ''boolean'') \<Longrightarrow> \<exists>b. v = VBool b"
  by (cases v) (auto dest!: conforms_type_ok simp: type_ok_def matches_type_def)

lemma typed_number:
  "conforms search aware v s \<Longrightarrow> dict_get s ''type'' = Some (VStr ''number'') \<Longrightarrow>
    \<exists>x. as_number v = Some x \<and> finite_float x \<and> want_number v = Inr x"
  by (cases v) (auto dest!: conforms_type_ok simp: type_ok_def matches_type_def is_number_def)

lemma closed_object_simps [simp]:
  "dict_get (closed_object ns ps) ''type'' = Some (VStr ''object'')"
  "dict_get (closed_object ns ps) ''required'' = Some (VList (map VStr ns))"
  "dict_get (closed_object ns ps) ''properties'' = Some (VDict ps)"
  "dict_get (closed_object ns ps) ''additionalProperties'' = Some (VBool False)"
  "dict_get (closed_object ns ps) ''allOf'' = None"
  by (simp_all add: closed_object_def)

lemma member_closed_object:
  "dict_get ps k = Some (VDict c) \<Longrightarrow> member_schema (closed_object ns ps) k = Some (VDict c)"
  by (simp add: member_schema_def)

section \<open>The kinds of field\<close>

lemma text_conforms:
  assumes "conforms search aware v c" and "nonempty_text = VDict c"
  shows "\<exists>x. v = VStr x \<and> x \<noteq> []"
proof -
  obtain x where x: "v = VStr x" using typed_string [OF assms(1)] assms(2) by (auto simp: nonempty_text_def)
  then show ?thesis
    using conforms_scalar_ok [OF assms(1)] assms(2)
    by (auto simp: nonempty_text_def scalar_ok_def string_ok_def at_least_def)
qed

text \<open>A list of non-empty texts, as its strings.\<close>

lemma texts_conform:
  assumes "conforms search aware v c" and "dict_get c ''type'' = Some (VStr ''array'')"
    and "dict_get c ''items'' = Some nonempty_text"
  shows "\<exists>xs. v = VList (map VStr xs) \<and> [] \<notin> set xs \<and> want_strs v = Inr xs \<and>
    (dict_get c ''minItems'' = Some (VInt 1) \<longrightarrow> xs \<noteq> []) \<and>
    (dict_get c ''uniqueItems'' = Some (VBool True) \<longrightarrow> distinct xs)"
proof -
  obtain vs where v: "v = VList vs" using typed_array [OF assms(1,2)] by blast
  obtain t where t: "nonempty_text = VDict t" by (simp add: nonempty_text_def)
  note ok = conforms_contents_ok [OF assms(1), unfolded v contents_ok_def]
  have "\<forall>x \<in> set vs. conforms search aware x t"
    using ok assms(3) [unfolded t] by (simp add: list_all_iff)
  then have "\<forall>x \<in> set vs. \<exists>s. x = VStr s \<and> s \<noteq> []" using text_conforms [OF _ t] by blast
  then have "\<exists>xs. vs = map VStr xs \<and> [] \<notin> set xs"
  proof (induction vs)
    case (Cons a vs)
    then obtain s xs where "a = VStr s" "s \<noteq> []" "vs = map VStr xs" "[] \<notin> set xs" by auto
    then show ?case by (intro exI [of _ "s # xs"]) simp
  qed simp
  then obtain xs where xs: "vs = map VStr xs" "[] \<notin> set xs" by blast
  have "rmap want_str (map VStr xs) = Inr xs" by (induction xs) simp_all
  moreover have "distinct xs" if "dict_get c ''uniqueItems'' = Some (VBool True)"
    using ok that
    by (auto simp: items_distinct_def xs(1) distinct_conv_nth json_equal.simps is_number_def)
       (metis linorder_neqE_nat)
  moreover have "xs \<noteq> []" if "dict_get c ''minItems'' = Some (VInt 1)"
    using ok that by (auto simp: at_least_def xs(1))
  ultimately show ?thesis using v xs by auto
qed

lemma text_set_conforms:
  assumes "conforms search aware v c" and "text_set = VDict c"
  shows "\<exists>xs. [] \<notin> set xs \<and> distinct xs \<and> want_strs v = Inr xs"
  using texts_conform [OF assms(1)] assms(2) by (auto simp: text_set_def)

lemma positive_integer_conforms:
  assumes "conforms search aware v c" and "positive ''integer'' = VDict c"
  shows "\<exists>n. v = VInt n \<and> 0 < n"
proof -
  obtain n where n: "v = VInt n" using typed_integer [OF assms(1)] assms(2) by (auto simp: positive_def)
  then show ?thesis
    using conforms_scalar_ok [OF assms(1)] assms(2)
    by (auto simp: positive_def scalar_ok_def number_ok_def float_le_def)
qed

lemma positive_number_conforms:
  assumes "conforms search aware v c" and "positive ''number'' = VDict c"
  shows "\<exists>q. want_number v = Inr (Fin q) \<and> 0 < q"
proof -
  obtain x where x: "as_number v = Some x" "finite_float x" "want_number v = Inr x"
    using typed_number [OF assms(1)] assms(2) by (auto simp: positive_def)
  have "number_ok x c"
    using conforms_scalar_ok [OF assms(1)] x(3) by (cases v) (auto simp: scalar_ok_def)
  then show ?thesis
    using x assms(2) by (cases x) (auto simp: positive_def number_ok_def float_le_def)
qed

section \<open>The fields of an object\<close>

lemma field_present:
  assumes "conforms search aware (VDict d) s"
    and "dict_get s ''required'' = Some (VList (map VStr names))" and "n \<in> set names"
    and "member_schema s n = Some (VDict c)"
  shows "\<exists>x. dict_get d n = Some x \<and> required (VDict d) n owner = Inr x \<and> conforms search aware x c"
  using conforms_present [OF assms(1-3)] conforms_member [OF assms(1) _ assms(4)] by auto

lemma closed_field:
  assumes "conforms search aware (VDict d) (closed_object names ps)" and "n \<in> set names"
    and "dict_get ps n = Some (VDict c)"
  shows "\<exists>x. required (VDict d) n owner = Inr x \<and> conforms search aware x c"
  using field_present [OF assms(1) closed_object_simps(2) assms(2) member_closed_object [OF assms(3)]]
  by blast

lemma optional_field:
  assumes "conforms search aware (VDict d) s" and "member_schema s k = Some (VDict c)"
    and "\<And>x. conforms search aware x c \<Longrightarrow> \<exists>y. want x = Inr y \<and> P y" and "want VNone = Inl IllTyped"
  shows "\<exists>y. optional want (entry (VDict d) k) = Inr y \<and> (y = None \<longleftrightarrow> dict_get d k = None) \<and>
    (\<forall>z. y = Some z \<longrightarrow> P z)"
proof (cases "dict_get d k")
  case None
  then show ?thesis by (simp add: optional_def)
next
  case (Some x)
  obtain y where "want x = Inr y" "P y" using assms(3) [OF conforms_member [OF assms(1) Some assms(2)]] by blast
  moreover have "x \<noteq> VNone" using calculation(1) assms(4) by auto
  ultimately show ?thesis using Some by (simp add: optional_def)
qed

lemma closed_optional:
  assumes "conforms search aware (VDict d) (closed_object names ps)"
    and "dict_get ps k = Some (VDict c)"
    and "\<And>x. conforms search aware x c \<Longrightarrow> \<exists>y. want x = Inr y \<and> P y" and "want VNone = Inl IllTyped"
  shows "\<exists>y. optional want (entry (VDict d) k) = Inr y \<and> (\<forall>z. y = Some z \<longrightarrow> P z)"
  using optional_field [OF assms(1) member_closed_object [OF assms(2)], of want P] assms(3,4) by blast

lemma optional_texts:
  assumes "conforms search aware (VDict d) s" and "member_schema s k = Some text_set"
  shows "\<exists>xs. optional_strs (VDict d) k = Inr xs \<and> [] \<notin> set xs \<and> distinct xs"
proof (cases "dict_get d k")
  case (Some x)
  obtain c where c: "text_set = VDict c" by (simp add: text_set_def)
  from conforms_member [OF assms(1) Some] assms(2) c have "conforms search aware x c" by simp
  from text_set_conforms [OF this c] Some show ?thesis by auto
qed simp

text \<open>A decoded object has distinct keys.\<close>

fun distinct_keys :: "pyval \<Rightarrow> bool" where
  "distinct_keys (VList xs) \<longleftrightarrow> list_all distinct_keys xs"
| "distinct_keys (VDict d) \<longleftrightarrow> wf_dict d \<and> list_all (\<lambda>(k, v). distinct_keys v) d"
| "distinct_keys _ \<longleftrightarrow> True"

section \<open>The trigger\<close>

lemma only_required:
  "conforms search aware (VDict d) [(''required'', VList [VStr n])] \<longleftrightarrow> dict_has d n"
  by (simp add: conforms.simps [of search aware "VDict d"] type_ok_def literal_ok_def scalar_ok_def
      names_present_def member_schema_def list_all_iff)

lemma without_excludes:
  assumes "conforms search aware (VDict d) c" and "without n \<in> set c" and "wf_dict c"
  shows "dict_get d n = None"
proof -
  from assms(2,3) have "dict_get c ''not'' = Some (VDict [(''required'', VList [VStr n])])"
    by (simp add: without_def)
  with assms(1) have "\<not> conforms search aware (VDict d) [(''required'', VList [VStr n])]"
    by (simp add: conforms.simps [of search aware "VDict d" c])
  then show ?thesis by (simp add: only_required dict_has_def)
qed

lemma when_trigger_fires:
  assumes "conforms search aware (VDict d) w" and "when_trigger t c = VDict w"
    and "wf_dict d" and "dict_get d ''type'' = Some (VStr t)"
  shows "conforms search aware (VDict d) c"
proof -
  let ?i = "[(''properties'', VDict [(''type'', VDict [(''const'', VStr t)])]),
        (''required'', VList [VStr ''type''])]"
  have const: "conforms search aware (VStr t) [(''const'', VStr t)]"
    by (simp add: conforms.simps [of search aware "VStr t"] type_ok_def literal_ok_def scalar_ok_def
        string_ok_def at_least_def json_equal.simps is_number_def)
  have "x = VStr t" if "(''type'', x) \<in> set d" for x
    using dict_get_unique [OF assms(3) that] assms(4) by simp
  then have "conforms search aware (VDict d) ?i"
    using const assms(4)
    by (auto simp: conforms.simps [of search aware "VDict d" ?i] type_ok_def literal_ok_def
        scalar_ok_def names_present_def member_schema_def list_all_iff dict_has_def)
  moreover have "dict_get w ''if'' = Some (VDict ?i)" "dict_get w ''then'' = Some (VDict c)"
    using assms(2) by (auto simp: when_trigger_def)
  ultimately show ?thesis using conforms_then [OF assms(1)] by blast
qed

definition trigger_sound :: "trigger \<Rightarrow> bool" where
  "trigger_sound t \<longleftrightarrow>
    tr_type t \<in> {''manual'', ''schedule'', ''event''} \<and>
    (tr_schedule t \<noteq> None \<longleftrightarrow> tr_type t = ''schedule'') \<and>
    (tr_event t \<noteq> None \<longleftrightarrow> tr_type t = ''event'') \<and>
    tr_schedule t \<noteq> Some [] \<and> tr_event t \<noteq> Some []"

lemma trigger_lookup:
  "dict_get trigger_schema ''type'' = Some (VStr ''object'')"
  "dict_get trigger_schema ''required'' = Some (VList (map VStr [''type'']))"
  "member_schema trigger_schema ''type'' = Some (VDict [(''type'', VStr ''string''),
     (''enum'', VList [VStr ''manual'', VStr ''schedule'', VStr ''event''])])"
  "member_schema trigger_schema ''schedule'' = Some nonempty_text"
  "member_schema trigger_schema ''event'' = Some nonempty_text"
  "dict_get trigger_schema ''allOf'' = Some (VList
        [when_trigger ''schedule'' [(''required'', VList [VStr ''schedule'']), without ''event''],
         when_trigger ''event'' [(''required'', VList [VStr ''event'']), without ''schedule''],
         when_trigger ''manual'' [without ''schedule''],
         when_trigger ''manual'' [without ''event'']])"
  by (simp_all add: trigger_schema_def member_schema_def closed_object_def nonempty_text_def)

lemma trigger_alternatives:
  assumes "conforms search aware (VDict d) trigger_schema" and "wf_dict d"
    and "when_trigger t c \<in> set
        [when_trigger ''schedule'' [(''required'', VList [VStr ''schedule'']), without ''event''],
         when_trigger ''event'' [(''required'', VList [VStr ''event'']), without ''schedule''],
         when_trigger ''manual'' [without ''schedule''],
         when_trigger ''manual'' [without ''event'']]"
    and "dict_get d ''type'' = Some (VStr t)"
  shows "conforms search aware (VDict d) c"
proof -
  obtain w where w: "when_trigger t c = VDict w" by (simp add: when_trigger_def)
  have "conforms search aware (VDict d) w"
    using conforms_alternative [OF assms(1) trigger_lookup(6)] assms(3) unfolding w by blast
  from when_trigger_fires [OF this w assms(2,4)] show ?thesis .
qed

lemma trigger_presence:
  assumes "conforms search aware (VDict d) trigger_schema" and "wf_dict d"
    and "dict_get d ''type'' = Some (VStr t)" and "t \<in> {''manual'', ''schedule'', ''event''}"
  shows "dict_get d ''schedule'' \<noteq> None \<longleftrightarrow> t = ''schedule''"
    and "dict_get d ''event'' \<noteq> None \<longleftrightarrow> t = ''event''"
proof -
  note fires = trigger_alternatives [OF assms(1,2) _ assms(3)]
  note excluded = without_excludes [where search = search and aware = aware and d = d]
  note present = conforms_present [where search = search and aware = aware and d = d, of _ "[n]" n for n]
  have "t = ''schedule'' \<Longrightarrow> dict_get d ''schedule'' \<noteq> None \<and> dict_get d ''event'' = None"
    using present [OF fires, of "[(''required'', VList [VStr ''schedule'']), without ''event'']" "''schedule''"]
      excluded [OF fires, of "[(''required'', VList [VStr ''schedule'']), without ''event'']" "''event''"]
    by (simp add: without_def)
  moreover have "t = ''event'' \<Longrightarrow> dict_get d ''event'' \<noteq> None \<and> dict_get d ''schedule'' = None"
    using present [OF fires, of "[(''required'', VList [VStr ''event'']), without ''schedule'']" "''event''"]
      excluded [OF fires, of "[(''required'', VList [VStr ''event'']), without ''schedule'']" "''schedule''"]
    by (simp add: without_def)
  moreover have "t = ''manual'' \<Longrightarrow> dict_get d ''event'' = None \<and> dict_get d ''schedule'' = None"
    using excluded [OF fires, of "[without ''schedule'']" "''schedule''"]
      excluded [OF fires, of "[without ''event'']" "''event''"]
    by (simp add: without_def)
  ultimately show "dict_get d ''schedule'' \<noteq> None \<longleftrightarrow> t = ''schedule''"
    and "dict_get d ''event'' \<noteq> None \<longleftrightarrow> t = ''event''"
    using assms(4) by auto
qed

lemma conforming_trigger_loads:
  assumes "conforms search aware v trigger_schema" and "distinct_keys v"
  shows "\<exists>t. Trigger_from_dict v = Inr t \<and> trigger_sound t"
proof -
  obtain d where v: "v = VDict d" using typed_object [OF assms(1) trigger_lookup(1)] by blast
  have wf: "wf_dict d" using assms(2) v by simp
  note here = assms(1) [unfolded v]
  obtain ty where ty: "required v ''type'' ''trigger'' = Inr ty" "dict_get d ''type'' = Some ty"
    and conf: "conforms search aware ty [(''type'', VStr ''string''),
     (''enum'', VList [VStr ''manual'', VStr ''schedule'', VStr ''event''])]"
    using field_present [OF here trigger_lookup(2) _ trigger_lookup(3)] v by auto
  obtain t where t: "ty = VStr t" using typed_string [OF conf] by auto
  have kind: "t \<in> {''manual'', ''schedule'', ''event''}"
    using conforms_literal_ok [OF conf] unfolding t
    by (auto simp: literal_ok_def json_equal.simps is_number_def)
  obtain c where c: "nonempty_text = VDict c" by (simp add: nonempty_text_def)
  have nonempty: "\<exists>y. want_str x = Inr y \<and> y \<noteq> []" if "conforms search aware x c" for x
    using text_conforms [OF that c] by auto
  note sch = optional_field [OF here, of "''schedule''" c want_str "\<lambda>y. y \<noteq> []", OF _ nonempty]
  note ev = optional_field [OF here, of "''event''" c want_str "\<lambda>y. y \<noteq> []", OF _ nonempty]
  obtain s where s: "optional want_str (entry v ''schedule'') = Inr s" "s \<noteq> Some []"
    "s = None \<longleftrightarrow> dict_get d ''schedule'' = None"
    using sch trigger_lookup(4) c v by auto
  obtain e where e: "optional want_str (entry v ''event'') = Inr e" "e \<noteq> Some []"
    "e = None \<longleftrightarrow> dict_get d ''event'' = None"
    using ev trigger_lookup(5) c v by auto
  have "s \<noteq> None \<longleftrightarrow> t = ''schedule''" "e \<noteq> None \<longleftrightarrow> t = ''event''"
    using trigger_presence [OF here wf ty(2) [unfolded t] kind] s(3) e(3) by metis+
  then show ?thesis
    using ty(1) t s(1,2) e(1,2) kind by (simp del: not_None_eq add: Trigger_from_dict_def trigger_sound_def)
qed

lemma selection_loads:
  assumes "conforms search aware v selection_schema"
  shows "\<exists>x. Selection_from_dict v = Inr x \<and> se_strategy x \<noteq> [] \<and>
    (\<forall>n. se_max_items x = Some n \<longrightarrow> 1 \<le> n)"
proof -
  obtain d where v: "v = VDict d" using typed_object [OF assms] by (auto simp: selection_schema_def)
  note here = assms [unfolded v selection_schema_def]
  obtain c where c: "nonempty_text = VDict c" by (simp add: nonempty_text_def)
  obtain x where x: "required v ''strategy'' ''selection'' = Inr x" "conforms search aware x c"
    using closed_field [OF here, of "''strategy''" c ] c v by auto
  obtain y where y: "want_str x = Inr y" "y \<noteq> []" using text_conforms [OF x(2) c] by auto
  have items: "\<exists>n. want_int x = Inr n \<and> 1 \<le> n"
    if m: "conforms search aware x [(''type'', VStr ''integer''), (''minimum'', VInt 1)]" for x
  proof -
    obtain n where n: "x = VInt n" using typed_integer [OF m] by auto
    then show ?thesis
      using conforms_scalar_ok [OF m] by (simp add: scalar_ok_def number_ok_def not_less)
  qed
  obtain m where m: "optional want_int (entry v ''max_items'') = Inr m" "\<forall>n. m = Some n \<longrightarrow> 1 \<le> n"
    using closed_optional [where want = want_int and P = "\<lambda>n. 1 \<le> n" and k = "''max_items''",
        OF here _ items] v by auto
  obtain fs where "optional_strs v ''filters'' = Inr fs"
    using optional_texts [OF here, of "''filters''"] v
    by (auto simp: member_schema_def text_set_def)
  with x y m show ?thesis by (simp add: Selection_from_dict_def)
qed

lemma baseline_loads:
  assumes "conforms search aware v baseline_schema"
  shows "\<exists>xs. Baseline_from_dict v = Inr xs \<and> xs \<noteq> [] \<and> [] \<notin> set xs"
proof -
  obtain d where v: "v = VDict d" using typed_object [OF assms] by (auto simp: baseline_schema_def)
  obtain x where "required v ''commands'' ''baseline'' = Inr x"
    and x: "conforms search aware x [(''type'', VStr ''array''), (''minItems'', VInt 1), (''items'', nonempty_text)]"
    using closed_field [OF assms [unfolded v baseline_schema_def], of "''commands''"] v by auto
  with texts_conform [OF x] show ?thesis by (auto simp: Baseline_from_dict_def)
qed

lemma acceptance_loads:
  assumes "conforms search aware v acceptance_schema"
  shows "\<exists>xs. Acceptance_from_dict v = Inr xs \<and> xs \<noteq> [] \<and> distinct xs"
proof -
  obtain d where v: "v = VDict d" using typed_object [OF assms] by (auto simp: acceptance_schema_def)
  obtain x where "required v ''hard_gates'' ''acceptance'' = Inr x"
    and x: "conforms search aware x [(''type'', VStr ''array''), (''minItems'', VInt 1),
        (''items'', nonempty_text), (''uniqueItems'', VBool True)]"
    using closed_field [OF assms [unfolded v acceptance_schema_def], of "''hard_gates''"] v by auto
  with texts_conform [OF x] show ?thesis by (auto simp: Acceptance_from_dict_def)
qed

text \<open>Two required sets of texts: the scope and the actions.\<close>

lemma two_sets_load:
  assumes "conforms search aware v (closed_object [j, k] [(j, text_set), (k, text_set)])" and "j \<noteq> k"
  shows "\<exists>xs ys. rbind (required v j owner) want_strs = Inr xs \<and>
    rbind (required v k owner) want_strs = Inr ys \<and> [] \<notin> set xs \<and> [] \<notin> set ys"
proof -
  obtain d where v: "v = VDict d" using typed_object [OF assms(1)] by auto
  obtain c where c: "text_set = VDict c" by (simp add: text_set_def)
  have "\<exists>x. required v n owner = Inr x \<and> conforms search aware x c" if "n = j \<or> n = k" for n
    using closed_field [OF assms(1) [unfolded v], of n c owner] that assms(2) c v by auto
  with text_set_conforms [OF _ c] show ?thesis by (metis rbind.simps(2))
qed

lemma scope_loads:
  assumes "conforms search aware v scope_schema"
  shows "\<exists>s. Scope_from_dict v = Inr s"
  using two_sets_load [OF assms [unfolded scope_schema_def], of "''scope''"]
  by (auto simp: Scope_from_dict_def)

lemma actions_load:
  assumes "conforms search aware v actions_schema"
  shows "\<exists>a. Actions_from_dict v = Inr a"
  using two_sets_load [OF assms [unfolded actions_schema_def], of "''actions''"]
  by (auto simp: Actions_from_dict_def)

lemma budgets_load:
  assumes "conforms search aware v budgets_schema"
  shows "\<exists>b. Budgets_from_dict v = Inr b \<and> 0 < bu_max_tokens b \<and>
    (\<forall>x. bu_max_cost_usd b = Some x \<longrightarrow> (\<exists>q. x = Fin q \<and> 0 < q)) \<and>
    (\<forall>n. bu_max_wall_clock_minutes b = Some n \<longrightarrow> 0 < n) \<and>
    (\<forall>n. bu_max_commands b = Some n \<longrightarrow> 0 < n)"
proof -
  obtain d where v: "v = VDict d" using typed_object [OF assms] by (auto simp: budgets_schema_def)
  note here = assms [unfolded v budgets_schema_def]
  obtain ic nc where ic: "positive ''integer'' = VDict ic" and nc: "positive ''number'' = VDict nc"
    by (simp add: positive_def)
  obtain x where x: "required v ''max_tokens'' ''budgets'' = Inr x" "conforms search aware x ic"
    using closed_field [OF here, of "''max_tokens''" ic] ic v by auto
  obtain t where t: "x = VInt t" "0 < t" using positive_integer_conforms [OF x(2) ic] by blast
  have int: "\<exists>n. want_int x = Inr n \<and> 0 < n" if "conforms search aware x ic" for x
    using positive_integer_conforms [OF that ic] by auto
  have num: "\<exists>f. want_number x = Inr f \<and> (\<exists>q. f = Fin q \<and> 0 < q)"
    if "conforms search aware x nc" for x
    using positive_number_conforms [OF that nc] by blast
  note field = closed_optional [where want = want_int and P = "\<lambda>n. 0 < n", OF here _ int]
  obtain c where "optional want_number (entry v ''max_cost_usd'') = Inr c"
      "\<forall>f. c = Some f \<longrightarrow> (\<exists>q. f = Fin q \<and> 0 < q)"
    using closed_optional [where want = want_number and P = "\<lambda>f. \<exists>q. f = Fin q \<and> 0 < q" and
        k = "''max_cost_usd''", OF here _ num] nc v by auto
  moreover obtain w where "optional want_int (entry v ''max_wall_clock_minutes'') = Inr w"
      "\<forall>n. w = Some n \<longrightarrow> 0 < n"
    using field [of "''max_wall_clock_minutes''"] ic v by auto
  moreover obtain m where "optional want_int (entry v ''max_commands'') = Inr m"
      "\<forall>n. m = Some n \<longrightarrow> 0 < n"
    using field [of "''max_commands''"] ic v by auto
  ultimately show ?thesis using x(1) t by (simp add: Budgets_from_dict_def)
qed

lemma human_review_loads:
  assumes "conforms search aware v human_review_schema"
  shows "\<exists>h. HumanReview_from_dict v = Inr h \<and> hr_required h"
proof -
  obtain d where v: "v = VDict d" using typed_object [OF assms] by (auto simp: human_review_schema_def)
  note here = assms [unfolded v human_review_schema_def]
  obtain x where x: "required v ''required'' ''human_review'' = Inr x"
    and c: "conforms search aware x [(''type'', VStr ''boolean''), (''const'', VBool True)]"
    using closed_field [OF here, of "''required''"] v by auto
  obtain b where b: "x = VBool b" using typed_boolean [OF c] by auto
  then have "b" using conforms_literal_ok [OF c] by (simp add: literal_ok_def json_equal.simps)
  moreover obtain rs where "optional_strs v ''reviewers'' = Inr rs"
    using optional_texts [OF here, of "''reviewers''"] v by (auto simp: member_schema_def text_set_def)
  ultimately show ?thesis using x b by (simp add: HumanReview_from_dict_def)
qed

section \<open>The contract\<close>

text \<open>What structural validation alone gives.\<close>

definition well_typed_contract :: "(string \<Rightarrow> string \<Rightarrow> bool option) \<Rightarrow> contract \<Rightarrow> bool" where
  "well_typed_contract search c \<longleftrightarrow>
    co_version c = ''1.0.0'' \<and>
    search ''^[a-z0-9]+(-[a-z0-9]+)*$'' (co_id c) = Some True \<and>
    co_objective c \<noteq> [] \<and>
    trigger_sound (co_trigger c) \<and>
    co_baseline c \<noteq> [] \<and>
    co_acceptance c \<noteq> [] \<and> distinct (co_acceptance c) \<and>
    0 < bu_max_tokens (co_budgets c) \<and>
    (\<forall>x. bu_max_cost_usd (co_budgets c) = Some x \<longrightarrow> (\<exists>q. x = Fin q \<and> 0 < q)) \<and>
    (\<forall>n. bu_max_wall_clock_minutes (co_budgets c) = Some n \<longrightarrow> 0 < n) \<and>
    (\<forall>n. bu_max_commands (co_budgets c) = Some n \<longrightarrow> 0 < n) \<and>
    hr_required (co_human_review c)"

definition sound_contract :: "(string \<Rightarrow> string \<Rightarrow> bool option) \<Rightarrow> contract \<Rightarrow> bool" where
  "sound_contract search c \<longleftrightarrow>
    well_typed_contract search c \<and>
    set (co_acceptance c) \<subseteq> set supported_hard_gates \<and>
    (\<forall>p \<in> set (sc_allowlist (co_scope c)) \<union> set (sc_denylist (co_scope c)). is_valid_glob p) \<and>
    set (sc_allowlist (co_scope c)) \<inter> set (sc_denylist (co_scope c)) = {} \<and>
    set (ac_allowed (co_actions c)) \<inter> set (ac_denied (co_actions c)) = {}"

lemma conforming_texts:
  assumes "conforms search aware (VDict d) contract_schema"
  shows "\<exists>i o'. rbind (required (VDict d) ''version'' ''contract'') want_str = Inr ''1.0.0'' \<and>
    rbind (required (VDict d) ''id'' ''contract'') want_str = Inr i \<and>
    search ''^[a-z0-9]+(-[a-z0-9]+)*$'' i = Some True \<and>
    rbind (required (VDict d) ''objective'' ''contract'') want_str = Inr o' \<and> o' \<noteq> []"
proof -
  note here = assms [unfolded contract_schema_def]
  obtain v where v: "required (VDict d) ''version'' ''contract'' = Inr v"
    and cv: "conforms search aware v [(''type'', VStr ''string''), (''const'', VStr ''1.0.0'')]"
    using closed_field [OF here, of "''version''"] by auto
  obtain x where x: "v = VStr x" using typed_string [OF cv] by auto
  then have "x = ''1.0.0''"
    using conforms_literal_ok [OF cv] by (simp add: literal_ok_def json_equal.simps is_number_def)
  moreover obtain i where i: "required (VDict d) ''id'' ''contract'' = Inr i"
    and ci: "conforms search aware i [(''type'', VStr ''string''),
         (''pattern'', VStr ''^[a-z0-9]+(-[a-z0-9]+)*$'')]"
    using closed_field [OF here, of "''id''"] by auto
  moreover obtain y where y: "i = VStr y" using typed_string [OF ci] by auto
  moreover have "search ''^[a-z0-9]+(-[a-z0-9]+)*$'' y = Some True"
    using conforms_scalar_ok [OF ci] y by (simp add: scalar_ok_def string_ok_def)
  moreover obtain c where c: "nonempty_text = VDict c" by (simp add: nonempty_text_def)
  moreover obtain o' where "required (VDict d) ''objective'' ''contract'' = Inr o'"
      "conforms search aware o' c"
    using closed_field [OF here, of "''objective''" c] c by auto
  moreover obtain z where "o' = VStr z" "z \<noteq> []" using text_conforms [OF calculation(8) c] by blast
  ultimately show ?thesis using v x by simp
qed

lemma closed_part:
  assumes "conforms search aware (VDict d) (closed_object names ps)" and "distinct_keys (VDict d)"
    and "n \<in> set names" and "dict_get ps n = Some (VDict s)"
  shows "\<exists>x. required (VDict d) n owner = Inr x \<and> conforms search aware x s \<and> distinct_keys x"
proof -
  obtain x where x: "required (VDict d) n owner = Inr x" "conforms search aware x s"
    using closed_field [OF assms(1,3,4)] by blast
  then have "(n, x) \<in> set d" by (auto simp: some_or_Inr_iff dest: map_of_SomeD)
  with assms(2) x show ?thesis by (auto simp: list_all_iff)
qed

lemma conforming_contract_loads:
  assumes "conforms search aware (VDict d) contract_schema" and "distinct_keys (VDict d)"
  shows "\<exists>c. Contract_from_dict (VDict d) = Inr c \<and> well_typed_contract search c"
proof -
  note here = assms(1) [unfolded contract_schema_def]
  obtain t where "rbind (required (VDict d) ''trigger'' ''contract'') Trigger_from_dict = Inr t"
      "trigger_sound t"
    using closed_part [OF here assms(2), of "''trigger''" trigger_schema "''contract''"]
      conforming_trigger_loads by force
  moreover obtain s where "rbind (required (VDict d) ''selection'' ''contract'') Selection_from_dict = Inr s"
    using closed_part [OF here assms(2), of "''selection''" selection_schema "''contract''"]
      selection_loads by force
  moreover obtain b where "rbind (required (VDict d) ''baseline'' ''contract'') Baseline_from_dict = Inr b"
      "b \<noteq> []"
    using closed_part [OF here assms(2), of "''baseline''" baseline_schema "''contract''"]
      baseline_loads by force
  moreover obtain a where "rbind (required (VDict d) ''acceptance'' ''contract'') Acceptance_from_dict = Inr a"
      "a \<noteq> []" "distinct a"
    using closed_part [OF here assms(2), of "''acceptance''" acceptance_schema "''contract''"]
      acceptance_loads by force
  moreover obtain u where "rbind (required (VDict d) ''budgets'' ''contract'') Budgets_from_dict = Inr u"
      "0 < bu_max_tokens u" "\<forall>x. bu_max_cost_usd u = Some x \<longrightarrow> (\<exists>q. x = Fin q \<and> 0 < q)"
      "\<forall>n. bu_max_wall_clock_minutes u = Some n \<longrightarrow> 0 < n" "\<forall>n. bu_max_commands u = Some n \<longrightarrow> 0 < n"
    using closed_part [OF here assms(2), of "''budgets''" budgets_schema "''contract''"]
      budgets_load by force
  moreover obtain p where "rbind (required (VDict d) ''scope'' ''contract'') Scope_from_dict = Inr p"
    using closed_part [OF here assms(2), of "''scope''" scope_schema "''contract''"]
      scope_loads by force
  moreover obtain q where "rbind (required (VDict d) ''actions'' ''contract'') Actions_from_dict = Inr q"
    using closed_part [OF here assms(2), of "''actions''" actions_schema "''contract''"]
      actions_load by force
  moreover obtain h where "rbind (required (VDict d) ''human_review'' ''contract'') HumanReview_from_dict = Inr h"
      "hr_required h"
    using closed_part [OF here assms(2), of "''human_review''" human_review_schema "''contract''"]
      human_review_loads by force
  ultimately show ?thesis
    using conforming_texts [OF assms(1)]
    by (auto simp del: required.simps simp: Contract_from_dict_def well_typed_contract_def)
qed

lemma positive_budgets: "well_typed_contract search c \<Longrightarrow> budget_errors (co_budgets c) = []"
  by (auto simp: well_typed_contract_def budget_errors_def budget_fields_def float_le_def
      split: option.splits)

lemma contract_errors_Nil_iff:
  assumes "well_typed_contract search c"
  shows "contract_errors c = [] \<longleftrightarrow> sound_contract search c"
proof -
  have "tr_type (co_trigger c) = ''schedule'' \<Longrightarrow> \<not> missing_text (tr_schedule (co_trigger c))"
    and "tr_type (co_trigger c) = ''event'' \<Longrightarrow> \<not> missing_text (tr_event (co_trigger c))"
    using assms by (auto simp: well_typed_contract_def trigger_sound_def missing_text_def)
  then show ?thesis
    using assms positive_budgets [OF assms]
    by (auto simp: contract_errors_def sound_contract_def validate_globs_disjoint_def Let_def
        sorted_common_Nil sorted_minus_Nil filter_empty_conv)
qed

lemma contract_schema_well_formed:
  "well_formed_schema (\<lambda>p. p = ''^[a-z0-9]+(-[a-z0-9]+)*$'') contract_schema"
  by (simp add: contract_schema_def trigger_schema_def selection_schema_def baseline_schema_def
      acceptance_schema_def budgets_schema_def scope_schema_def actions_schema_def
      human_review_schema_def closed_object_def nonempty_text_def text_set_def positive_def
      when_trigger_def without_def well_formed_schema.simps type_known_def known_types_def
      literals_in_range_def child_keywords_def float_limit_def)

lemma contract_schema_supported: "assert_supported_schema contract_schema ''$'' = Inr ()"
  by (simp add: contract_schema_def trigger_schema_def selection_schema_def baseline_schema_def
      acceptance_schema_def budgets_schema_def scope_schema_def actions_schema_def
      human_review_schema_def closed_object_def nonempty_text_def text_set_def positive_def
      when_trigger_def without_def assert_supported_schema.simps unsupported_def
      supported_keywords_def child_keywords_def each_r_def then_r_def)


text \<open>
  What \<open>re.search\<close> finds for the pattern of contract identifiers: \<open>$\<close> also matches before a
  final newline.
\<close>

definition kebab :: "string \<Rightarrow> bool" where
  "kebab s \<longleftrightarrow> s \<noteq> [] \<and> hd s \<noteq> CHR ''-'' \<and> last s \<noteq> CHR ''-'' \<and>
    list_all (\<lambda>c. is_lower c \<or> is_digit c \<or> c = CHR ''-'') s \<and>
    \<not> list_ex (\<lambda>(a, b). a = CHR ''-'' \<and> b = CHR ''-'') (zip s (tl s))"

definition id_search :: "string \<Rightarrow> string \<Rightarrow> bool option" where
  "id_search p s =
    (if p = ''^[a-z0-9]+(-[a-z0-9]+)*$''
     then Some (kebab s \<or> s \<noteq> [] \<and> last s = CHR 0x0A \<and> kebab (butlast s)) else None)"

definition sample_contract :: "string \<Rightarrow> pydict" where
  "sample_contract i =
    [(''version'', VStr ''1.0.0''), (''id'', VStr i), (''objective'', VStr ''fix''),
     (''trigger'', VDict [(''type'', VStr ''manual'')]),
     (''selection'', VDict [(''strategy'', VStr ''single-issue'')]),
     (''baseline'', VDict [(''commands'', VList [VStr ''pytest''])]),
     (''acceptance'', VDict [(''hard_gates'', VList [VStr ''tests''])]),
     (''budgets'', VDict [(''max_tokens'', VInt 1000), (''max_cost_usd'', VFloat (Fin (5 / 2)))]),
     (''scope'', VDict [(''allowlist'', VList [VStr ''src/**'']), (''denylist'', VList [])]),
     (''actions'', VDict [(''allowed'', VList []), (''denied'', VList [VStr ''push''])]),
     (''human_review'', VDict [(''required'', VBool True)])]"


section \<open>Verdicts and the gate script\<close>

lemma gate_errors_Nil_iff:
  "gate_errors names expected = [] \<longleftrightarrow> distinct names \<and> set names = set expected"
proof -
  have "sort (remdups (filter (\<lambda>n. 1 < count_list names n) names)) = [] \<longleftrightarrow>
      (\<forall>n \<in> set names. count_list names n \<le> 1)"
    by (metis (mono_tags, lifting) filter_empty_conv length_0_conv length_sort not_le remdups_eq_nil_iff)
  also have "\<dots> \<longleftrightarrow> distinct names"
    by (induction names) (auto simp: count_list_0_iff le_Suc_eq split: if_splits)
  finally show ?thesis by (auto simp: gate_errors_def Let_def sorted_minus_Nil)
qed

text \<open>
  A verdict accepted against a contract names that contract and reports each of its hard gates
  exactly once.
\<close>

lemma accepted_verdict:
  assumes "validate_verdict search aware packaged verdict (Some c) = Inr []"
  shows "validate_contract search aware packaged c = Inr []"
    and "dict_get verdict ''contract_id'' = dict_get c ''id''"
    and "\<exists>names expected. verdict_gates verdict = Inr names \<and>
      rbind (required (VDict c) ''acceptance'' ''contract'') Acceptance_from_dict = Inr expected \<and>
      distinct names \<and> set names = set expected"
  using assms
  by (auto simp: validate_verdict_def map_error_def some_or_Inr_iff gate_errors_Nil_iff
      elim!: rbind_elims split: if_splits sum.splits)

lemma check_contracts_Nil_iff:
  "check_contracts validate contracts = Some [] \<longleftrightarrow>
    (\<forall>r \<in> set contracts. \<exists>d. r = Inr d \<and> validate d = Inr [])"
  by (induction validate contracts rule: check_contracts.induct) (auto split: sum.splits if_splits)

text \<open>
  The gate script over the loop contracts ends with status 0 exactly when every contract found
  loads as a mapping and has no complaint.
\<close>

theorem loop_gate_passes_iff:
  "validate_loop_contracts_main (validate_contract search aware packaged) contracts = Status 0 \<longleftrightarrow>
    (\<forall>r \<in> set contracts. \<exists>d. r = Inr d \<and> validate_contract search aware packaged d = Inr [])"
  using check_contracts_Nil_iff [of "validate_contract search aware packaged" contracts]
  by (auto simp: validate_loop_contracts_main_def split: option.splits)

text \<open>A contract that is no JSON ends the script with a traceback, and no other contract is reported.\<close>

lemma malformed_contract_aborts:
  "Inl NotJson \<in> set contracts \<Longrightarrow> check_contracts validate contracts = None"
  by (induction validate contracts rule: check_contracts.induct) (auto split: sum.splits)

lemma trailing_newline_accepted:
  "id_search ''^[a-z0-9]+(-[a-z0-9]+)*$'' (''fix-1'' @ [CHR 0x0A]) = Some True"
  by (simp add: id_search_def kebab_def is_lower_def is_digit_def)

end
