(* ===== verification/Reload_Tasks.thy ===== *)
theory Reload_Tasks
  imports Http_Properties
begin

text \<open>
  The SIGHUP handler (\<open>_install_reload_signal_handler\<close>): every signal schedules a task of its own
  that runs \<open>reload_routing_policy\<close>.

  \<^item> A task reads the policy file in a thread (\<open>asyncio.to_thread\<close>) and swaps the policy in when the
    event loop resumes it, so the signals, the reads, the swaps and the operator's edits of the
    file interleave. The state holds the tasks that are not done, each with the content it has
    read.
  \<^item> When signals never overlap, the active policy is the one on disk once the last reload is done.
  \<^item> When two reloads overlap, the one that read the old file may finish last: the old policy is
    then active although a reload was requested after the edit.
\<close>

section \<open>Tasks\<close>

record ('k, 'l, 'g) reloading =
  rl_service :: "('k, 'l, 'g) service"
  rl_disk :: "bytes option"
  rl_tasks :: "(nat \<times> bytes option option) list"
  rl_next :: nat

datatype reload_event =
    Edit "bytes option"
  | Sighup
  | ReadFile nat
  | Finish nat

definition schedule_reload :: "('k, 'l, 'g) reloading \<Rightarrow> ('k, 'l, 'g) reloading" where
  "schedule_reload st =
    st\<lparr>rl_tasks := rl_tasks st @ [(rl_next st, None)], rl_next := Suc (rl_next st)\<rparr>"

fun reload_task ::
  "(string \<Rightarrow> (yaml_exc, 'o) result) \<Rightarrow> ('o \<Rightarrow> policy_config option) \<Rightarrow> reload_event \<Rightarrow>
    ('k, 'l, 'g) reloading \<Rightarrow> ('k, 'l, 'g) reloading" where
  "reload_task yaml_load coerce (Edit content) st = st\<lparr>rl_disk := content\<rparr>"
| "reload_task yaml_load coerce Sighup st = schedule_reload st"
| "reload_task yaml_load coerce (ReadFile i) st =
    (if dict_get (rl_tasks st) i = Some None
     then st\<lparr>rl_tasks := dict_set i (Some (rl_disk st)) (rl_tasks st)\<rparr> else st)"
| "reload_task yaml_load coerce (Finish i) st = (case dict_get (rl_tasks st) i of
      Some (Some content) \<Rightarrow>
        st\<lparr>rl_service := fst (reload_routing_policy yaml_load coerce content (rl_service st)),
           rl_tasks := filter (\<lambda>(j, r). j \<noteq> i) (rl_tasks st)\<rparr>
    | _ \<Rightarrow> st)"

definition reload_run ::
  "(string \<Rightarrow> (yaml_exc, 'o) result) \<Rightarrow> ('o \<Rightarrow> policy_config option) \<Rightarrow> reload_event list \<Rightarrow>
    ('k, 'l, 'g) reloading \<Rightarrow> ('k, 'l, 'g) reloading" where
  "reload_run yaml_load coerce events st = fold (reload_task yaml_load coerce) events st"

definition active_policy :: "('k, 'l, 'g) reloading \<Rightarrow> routing_policy" where
  "active_policy st = uc_policy (sv_use_case (rl_service st))"

lemma reload_loaded:
  "load_routing_policy yaml_load coerce content = Inr p \<Longrightarrow>
    uc_policy (sv_use_case (fst (reload_routing_policy yaml_load coerce content sv))) = p"
  by (simp add: reload_routing_policy_def count_def)

section \<open>Overlapping reloads\<close>

text \<open>
  C40. A reload can undo a later one: from any state without pending reloads whose file loads, an
  edit that overlaps a running reload, followed by a signal of its own, can end with every reload
  done, the new file on disk and the old policy active.
\<close>

theorem overlapping_reload_stale:
  assumes "load_routing_policy yaml_load coerce (rl_disk st) = Inr old"
    and "load_routing_policy yaml_load coerce new_file = Inr new" and "rl_tasks st = []"
  shows "\<exists>first second. let st' = reload_run yaml_load coerce
      [Sighup, ReadFile first, Edit new_file, Sighup, ReadFile second, Finish second, Finish first] st
    in rl_tasks st' = [] \<and> rl_disk st' = new_file \<and> active_policy st' = old"
  by (rule exI [of _ "rl_next st"], rule exI [of _ "Suc (rl_next st)"])
     (simp add: reload_run_def schedule_reload_def assms active_policy_def reload_loaded Let_def)

section \<open>Signals that wait\<close>

text \<open>Every signal arrives when no reload is pending, and one arrives after the last edit.\<close>

fun serialized ::
  "(string \<Rightarrow> (yaml_exc, 'o) result) \<Rightarrow> ('o \<Rightarrow> policy_config option) \<Rightarrow> reload_event list \<Rightarrow>
    ('k, 'l, 'g) reloading \<Rightarrow> bool" where
  "serialized yaml_load coerce [] st \<longleftrightarrow> True"
| "serialized yaml_load coerce (e # es) st \<longleftrightarrow>
    (e = Sighup \<longrightarrow> rl_tasks st = []) \<and> serialized yaml_load coerce es (reload_task yaml_load coerce e st)"

fun announced :: "bool \<Rightarrow> reload_event list \<Rightarrow> bool" where
  "announced b [] \<longleftrightarrow> b"
| "announced b (e # es) \<longleftrightarrow>
    announced (case e of Edit content \<Rightarrow> False | Sighup \<Rightarrow> True | _ \<Rightarrow> b) es"

text \<open>At most one reload is pending; after an announced edit it has read the file of the disk.\<close>

definition reload_inv ::
  "(string \<Rightarrow> (yaml_exc, 'o) result) \<Rightarrow> ('o \<Rightarrow> policy_config option) \<Rightarrow> bool \<Rightarrow>
    ('k, 'l, 'g) reloading \<Rightarrow> bool" where
  "reload_inv yaml_load coerce b st \<longleftrightarrow>
    (rl_tasks st = [] \<and>
       (b \<longrightarrow> (\<forall>p. load_routing_policy yaml_load coerce (rl_disk st) = Inr p \<longrightarrow> active_policy st = p))) \<or>
    (\<exists>i r. rl_tasks st = [(i, r)] \<and> (b \<longrightarrow> r = None \<or> r = Some (rl_disk st)))"

lemma reload_inv_task:
  assumes "reload_inv yaml_load coerce b st" and "e = Sighup \<longrightarrow> rl_tasks st = []"
  shows "reload_inv yaml_load coerce (case e of Edit content \<Rightarrow> False | Sighup \<Rightarrow> True | _ \<Rightarrow> b)
    (reload_task yaml_load coerce e st)"
proof (cases e)
  case (Finish i)
  show ?thesis
  proof (cases "\<exists>content. rl_tasks st = [(i, Some content)]")
    case True
    then obtain content where t: "rl_tasks st = [(i, Some content)]" by blast
    then have "b \<Longrightarrow> content = rl_disk st" using assms(1) by (auto simp: reload_inv_def)
    with t show ?thesis by (auto simp: Finish reload_inv_def active_policy_def reload_loaded)
  next
    case False
    then have "reload_task yaml_load coerce (Finish i) st = st"
      using assms(1) by (auto simp: reload_inv_def split: option.splits)
    with assms(1) show ?thesis by (simp add: Finish)
  qed
qed (use assms in \<open>auto simp: reload_inv_def schedule_reload_def active_policy_def split: if_splits\<close>)

lemma reload_inv_run:
  "reload_inv yaml_load coerce b st \<Longrightarrow> serialized yaml_load coerce events st \<Longrightarrow>
    reload_inv yaml_load coerce (announced b events) (reload_run yaml_load coerce events st)"
proof (induction events arbitrary: b st)
  case Nil
  then show ?case by (simp add: reload_run_def)
next
  case (Cons e events)
  then show ?case
    using reload_inv_task [OF Cons.prems(1), of e] by (simp add: reload_run_def)
qed


section \<open>Examples\<close>

text \<open>Two files that load, and whose policies differ in their digest.\<close>

definition either_coerce :: "string \<Rightarrow> policy_config option" where
  "either_coerce doc = (if doc = ''policy'' \<or> doc = ''newer'' then Some sample_policy_config else None)"

definition sample_reloading :: "(unit, unit, im_guard) reloading" where
  "sample_reloading = \<lparr>rl_service = sample_service, rl_disk = Some (utf8_encode ''policy''),
     rl_tasks = [], rl_next = 0\<rparr>"

lemma either_loads:
  "load_routing_policy Inr either_coerce (Some (utf8_encode ''policy'')) =
    Inr (to_domain sample_policy_config (config_digest ''policy''))"
  "load_routing_policy Inr either_coerce (Some (utf8_encode ''newer'')) =
    Inr (to_domain sample_policy_config (config_digest ''newer''))"
  unfolding load_routing_policy_iff
  using sample_config_ok by (auto simp: read_text_def utf8_decode_encode either_coerce_def)

theorem overlapping_reload_stale_witness:
  "\<exists>first second. let st' = reload_run Inr either_coerce
      [Sighup, ReadFile first, Edit (Some (utf8_encode ''newer'')), Sighup, ReadFile second,
       Finish second, Finish first] sample_reloading
    in rl_tasks st' = [] \<and> rl_disk st' = Some (utf8_encode ''newer'') \<and>
      active_policy st' = to_domain sample_policy_config (config_digest ''policy'')"
  by (rule overlapping_reload_stale) (use either_loads in \<open>simp_all add: sample_reloading_def\<close>)


end
