(* ===== verification/Architecture.thy ===== *)
theory Architecture
  imports Script_Tools
begin

text \<open>
  The architecture gate (\<open>scripts/validate_architecture.py\<close>): which modules the source roots may
  import, layer by layer, where modules must live, and default-deny boundaries.

  \<^item> \<open>ast.parse\<close> is an argument: the nodes of a file in the order \<open>ast.walk\<close> visits them, of which
    only imports and calls matter, or the line and message of the error that stopped it.
  \<^item> \<open>Path.rglob("*.py")\<close>, \<open>glob.glob\<close>, \<open>Path.resolve\<close>, \<open>Path.is_dir\<close>, \<open>str()\<close>, \<open>tomllib\<close> and the
    names of the standard library are arguments.
  \<^item> A file that is not UTF-8 ends the script with a traceback; the files here are UTF-8.
  \<^item> A path is the list of its components; a file of a source root is named by its components
    below the root.
\<close>

section \<open>Rules\<close>

definition layers :: "string list" where
  "layers = [''adapters'', ''application'', ''domain'', ''entrypoints'']"

definition infrastructure :: "string list" where
  "infrastructure =
    [''boto3'', ''botocore'', ''celery'', ''django'', ''fastapi'', ''flask'', ''httpx'', ''kafka'',
     ''redis'', ''requests'', ''sqlalchemy'']"

definition forbidden_local :: "(string, string list) dict" where
  "forbidden_local =
    [(''domain'', [''application'', ''adapters'', ''entrypoints'']),
     (''application'', [''adapters'', ''entrypoints''])]"

definition forbidden_external :: "(string, string list) dict" where
  "forbidden_external =
    [(''domain'', ''pydantic'' # infrastructure), (''application'', infrastructure)]"

definition dynamic_imports :: "string list" where
  "dynamic_imports = [''__import__'', ''importlib.import_module'']"

definition unlayered_exempt_filenames :: "string list" where
  "unlayered_exempt_filenames = [''__init__.py'']"

record violation =
  vi_path :: path
  vi_line :: int
  vi_message :: string

record boundary =
  bo_path :: path
  bo_allowed_imports :: "string list"
  bo_deny_dynamic_imports :: bool

definition layer_for :: "path \<Rightarrow> string option" where
  "layer_for p =
    (if length p < 2 then None else if p ! 1 \<in> set layers then Some (p ! 1) else None)"

section \<open>Imports\<close>

datatype callee = NameCallee string | AttributeCallee string string | OtherCallee

datatype node =
    Import int "string list"
  | ImportFrom int "string option" nat "string list"
  | Call int callee
  | OtherNode

definition nonempty :: "string list \<Rightarrow> string list" where
  "nonempty parts = filter (\<lambda>part. part \<noteq> []) parts"

definition import_base :: "path \<Rightarrow> string option \<Rightarrow> nat \<Rightarrow> string" where
  "import_base current_package modname level =
    (let module_parts = (case modname of
           None \<Rightarrow> [] | Some m \<Rightarrow> (if m = [] then [] else split_on CHR ''.'' m));
         target_parts = (if level \<noteq> 0
           then take (length current_package - (level - 1)) current_package @ module_parts
           else module_parts)
     in str_join ''.'' (nonempty target_parts))"

fun node_imports :: "path \<Rightarrow> node \<Rightarrow> (int \<times> string) list" where
  "node_imports current_package (Import line names) = map (\<lambda>n. (line, n)) names"
| "node_imports current_package (ImportFrom line modname level names) =
    map (\<lambda>n. (line, str_join ''.'' (nonempty [import_base current_package modname level, n]))) names"
| "node_imports current_package _ = []"

definition imported_modules :: "node list \<Rightarrow> path \<Rightarrow> (int \<times> string) list" where
  "imported_modules nodes current_module =
    sort (concat (map (node_imports (butlast current_module)) nodes))"

fun call_name :: "callee \<Rightarrow> string option" where
  "call_name (NameCallee f) = Some f"
| "call_name (AttributeCallee v f) = Some (v @ ''.'' @ f)"
| "call_name OtherCallee = None"

section \<open>One file\<close>

type_synonym parsed = "(int \<times> string) + node list"

definition layer_violation :: "path \<Rightarrow> string \<Rightarrow> string \<Rightarrow> int \<times> string \<Rightarrow> violation list" where
  "layer_violation relative layer package import = (case import of (line, imported) \<Rightarrow>
    (let parts = (if imported = [] then [] else split_on CHR ''.'' imported);
         top = hd (split_on CHR ''.'' imported)
     in if 1 < length parts \<and> parts ! 0 = package \<and>
           parts ! 1 \<in> set (the (dict_get forbidden_local layer))
        then [\<lparr>vi_path = relative, vi_line = line,
               vi_message = layer @ '' must not depend on local layer '' @ py_repr (parts ! 1) @
                 '': '' @ imported\<rparr>]
        else if top \<in> set (the (dict_get forbidden_external layer))
        then [\<lparr>vi_path = relative, vi_line = line,
               vi_message = layer @ '' must not import infrastructure package '' @ py_repr top @
                 '': '' @ imported\<rparr>]
        else []))"

definition validate_file :: "(path \<Rightarrow> parsed) \<Rightarrow> path \<Rightarrow> path \<Rightarrow> violation list" where
  "validate_file parse src_root relative = (case layer_for relative of
      None \<Rightarrow> []
    | Some layer \<Rightarrow>
        (if \<not> dict_has forbidden_local layer then [] else
         (case parse (src_root @ relative) of
            Inl (line, message) \<Rightarrow>
              [\<lparr>vi_path = relative, vi_line = (if line = 0 then 1 else line),
                vi_message = ''cannot parse file: '' @ message\<rparr>]
          | Inr nodes \<Rightarrow>
              (let current = without_suffix relative
               in concat (map (layer_violation relative layer (hd current))
                    (imported_modules nodes current))))))"

definition is_allowed :: "string list \<Rightarrow> string \<Rightarrow> string list \<Rightarrow> bool" where
  "is_allowed stdlib_names m allowed \<longleftrightarrow>
    ''stdlib'' \<in> set allowed \<and> hd (split_on CHR ''.'' m) \<in> set stdlib_names \<or>
    (\<exists>item \<in> set allowed. item \<noteq> ''stdlib'' \<and>
       (m = item \<or> starts_with (item @ ''.'') m))"

definition violation_key :: "violation \<Rightarrow> string \<times> int \<times> string" where
  "violation_key v = (as_posix (vi_path v), vi_line v, vi_message v)"

definition dynamic_violation :: "path \<Rightarrow> string \<Rightarrow> node \<Rightarrow> violation list" where
  "dynamic_violation relative name n = (case n of
      Call line f \<Rightarrow> (case call_name f of
          Some called \<Rightarrow> (if called \<in> set dynamic_imports
            then [\<lparr>vi_path = relative, vi_line = line,
                   vi_message = ''module '' @ name @ '' uses denied dynamic import '' @ py_repr called\<rparr>]
            else [])
        | None \<Rightarrow> [])
    | _ \<Rightarrow> [])"

text \<open>\<open>below\<close> is the file below the boundary, \<open>base\<close> the project.\<close>

definition validate_boundary_file ::
  "string list \<Rightarrow> (path \<Rightarrow> parsed) \<Rightarrow> path \<Rightarrow> boundary \<Rightarrow> path \<Rightarrow> violation list" where
  "validate_boundary_file stdlib_names parse base boundary below =
    (let file = bo_path boundary @ below;
         relative = drop (length base) file;
         current_module = last (bo_path boundary) # without_suffix below;
         name = str_join ''.'' current_module
     in case parse file of
          Inl (line, message) \<Rightarrow>
            [\<lparr>vi_path = relative, vi_line = (if line = 0 then 1 else line),
              vi_message = ''cannot parse module '' @ name @ '': '' @ message\<rparr>]
        | Inr nodes \<Rightarrow>
            sort_key violation_key
              (map (\<lambda>(line, imported). \<lparr>vi_path = relative, vi_line = line,
                  vi_message = ''module '' @ name @ '' imports denied module '' @ py_repr imported\<rparr>)
                (filter (\<lambda>(line, imported). imported \<noteq> [] \<and>
                    \<not> is_allowed stdlib_names imported (bo_allowed_imports boundary))
                  (imported_modules nodes current_module)) @
               (if bo_deny_dynamic_imports boundary
                then concat (map (dynamic_violation relative name) nodes) else [])))"

section \<open>Placement\<close>

definition unlayered_modules :: "path list \<Rightarrow> path list" where
  "unlayered_modules modules =
    filter (\<lambda>p. \<not> (length p < 2 \<or> p ! 1 \<in> set layers) \<and>
      \<not> (length p = 2 \<and> p ! 1 \<in> set unlayered_exempt_filenames)) (sort modules)"

text \<open>\<open>Path(text)\<close> of a module recorded in the allowlist.\<close>

definition validate_layer_placement ::
  "(string \<Rightarrow> path) \<Rightarrow> path list \<Rightarrow> string list \<Rightarrow> violation list" where
  "validate_layer_placement to_path modules allowlist =
    (let present = map as_posix (unlayered_modules modules)
     in map (\<lambda>m. \<lparr>vi_path = to_path m, vi_line = 1,
            vi_message = ''module sits outside every architecture layer ('' @ str_join '', '' layers @
              ''), so no dependency rule applies to it: move it into a layer, or record it in '' @
              ''tool.engineering-harness.architecture.unlayered-allowlist''\<rparr>)
          (sorted_minus present allowlist) @
        map (\<lambda>m. \<lparr>vi_path = to_path m, vi_line = 1,
            vi_message = ''stale unlayered-allowlist entry: this module no longer sits outside a layer, '' @
              ''so remove it from tool.engineering-harness.architecture.unlayered-allowlist''\<rparr>)
          (sorted_minus allowlist present))"

section \<open>Configuration\<close>

text \<open>
  \<open>main\<close> reports \<open>OSError\<close>, \<open>KeyError\<close>, \<open>TypeError\<close> and \<open>ValueError\<close> (\<open>Reported\<close>); the
  \<open>AttributeError\<close> of a \<open>get\<close> on what is no table escapes.
\<close>

datatype config_failure = Reported | AttributeError

fun table :: "pyval \<Rightarrow> (config_failure, pydict) result" where
  "table (VDict d) = Inr d"
| "table _ = Inl AttributeError"

definition sub_table :: "string \<Rightarrow> pydict \<Rightarrow> (config_failure, pydict) result" where
  "sub_table key d = (case dict_get d key of None \<Rightarrow> Inr [] | Some v \<Rightarrow> table v)"

definition texts :: "(pyval \<Rightarrow> string) \<Rightarrow> pyval \<Rightarrow> (config_failure, string list) result" where
  "texts py_str v = rbind (some_or (iterate v) Reported) (\<lambda>xs. Inr (map py_str xs))"

definition entry_or :: "pydict \<Rightarrow> string \<Rightarrow> pyval \<Rightarrow> pyval" where
  "entry_or d key other = (case dict_get d key of None \<Rightarrow> other | Some v \<Rightarrow> v)"

text \<open>
  One boundary: \<open>item["path"]\<close> raises on what is no table, and a boundary outside the project is a
  \<open>ValueError\<close>.
\<close>

definition load_boundary ::
  "(pyval \<Rightarrow> string) \<Rightarrow> (string \<Rightarrow> path) \<Rightarrow> path \<Rightarrow> pyval \<Rightarrow> (config_failure, boundary) result" where
  "load_boundary py_str resolve base item = (case item of
      VDict d \<Rightarrow>
        rbind (some_or (dict_get d ''path'') Reported) (\<lambda>p.
        rbind (raise_if (take (length base) (resolve (py_str p)) \<noteq> base) Reported) (\<lambda>_.
        rbind (texts py_str (entry_or d ''allowed-imports'' (VList [VStr ''stdlib'']))) (\<lambda>allowed.
        Inr \<lparr>bo_path = resolve (py_str p), bo_allowed_imports = allowed,
             bo_deny_dynamic_imports = truthy_value (entry_or d ''deny-dynamic-imports'' (VBool True))\<rparr>)))
    | _ \<Rightarrow> Inl Reported)"

record architecture_config =
  cfg_source_roots :: "path list"
  cfg_clean :: bool
  cfg_boundaries :: "boundary list"
  cfg_allowlist :: "string list"

definition load_config ::
  "(pyval \<Rightarrow> string) \<Rightarrow> (string \<Rightarrow> path) \<Rightarrow> (string \<Rightarrow> path list) \<Rightarrow> path \<Rightarrow>
    (config_failure, pydict) result \<Rightarrow> (config_failure, architecture_config) result" where
  "load_config py_str resolve glob_dirs base project =
    rbind project (\<lambda>p.
    rbind (sub_table ''tool'' p) (\<lambda>tool.
    rbind (sub_table ''engineering-harness'' tool) (\<lambda>harness.
    rbind (sub_table ''architecture'' harness) (\<lambda>config.
    rbind (texts py_str (entry_or config ''source-roots'' (VList [VStr ''src'']))) (\<lambda>patterns.
    rbind (some_or (iterate (entry_or config ''boundaries'' (VList []))) Reported) (\<lambda>items.
    rbind (rmap (load_boundary py_str resolve base) items) (\<lambda>boundaries.
    rbind (texts py_str (entry_or config ''unlayered-allowlist'' (VList []))) (\<lambda>allowlist.
    Inr \<lparr>cfg_source_roots = sorted_set (concat (map glob_dirs patterns)),
         cfg_clean = truthy_value (entry_or config ''clean-architecture'' (VBool False)),
         cfg_boundaries = boundaries, cfg_allowlist = allowlist\<rparr>))))))))"

section \<open>The gate\<close>

record code_base =
  cb_modules :: "path \<Rightarrow> path list"
  cb_is_dir :: "path \<Rightarrow> bool"
  cb_parse :: "path \<Rightarrow> parsed"
  cb_to_path :: "string \<Rightarrow> path"
  cb_stdlib_names :: "string list"

definition root_violations :: "code_base \<Rightarrow> string list \<Rightarrow> path \<Rightarrow> violation list" where
  "root_violations cb allowlist src_root =
    concat (map (validate_file (cb_parse cb) src_root) (sort (cb_modules cb src_root))) @
    validate_layer_placement (cb_to_path cb) (cb_modules cb src_root) allowlist"

definition boundary_violations :: "code_base \<Rightarrow> path \<Rightarrow> boundary \<Rightarrow> violation list" where
  "boundary_violations cb base b =
    concat (map (validate_boundary_file (cb_stdlib_names cb) (cb_parse cb) base b)
      (sort (cb_modules cb (bo_path b))))"

definition gate_violations :: "code_base \<Rightarrow> path \<Rightarrow> architecture_config \<Rightarrow> violation list" where
  "gate_violations cb base cfg =
    sort_key violation_key
      ((if cfg_clean cfg
        then concat (map (root_violations cb (cfg_allowlist cfg)) (cfg_source_roots cfg)) else []) @
       concat (map (boundary_violations cb base) (cfg_boundaries cfg)))"

definition architecture_main ::
  "code_base \<Rightarrow> path \<Rightarrow> (config_failure, architecture_config) result \<Rightarrow> ending" where
  "architecture_main cb base config = (case config of
      Inl Reported \<Rightarrow> Status 2
    | Inl AttributeError \<Rightarrow> Traceback
    | Inr cfg \<Rightarrow>
        (if \<exists>b \<in> set (cfg_boundaries cfg). \<not> cb_is_dir cb (bo_path b) then Status 2
         else if gate_violations cb base cfg = [] then Status 0 else Status 1))"

section \<open>What a passing gate shows\<close>

text \<open>A module is, or lies below, another.\<close>

definition depends_on :: "string \<Rightarrow> string \<Rightarrow> bool" where
  "depends_on m target \<longleftrightarrow> m = target \<or> (\<exists>rest. m = target @ ''.'' @ rest)"

definition dotless :: "string \<Rightarrow> bool" where
  "dotless s \<longleftrightarrow> CHR ''.'' \<notin> set s"

lemma top_module_iff:
  assumes "dotless e"
  shows "hd (split_on CHR ''.'' m) = e \<longleftrightarrow> depends_on m e"
  unfolding split_on_head
proof
  let ?top = "takeWhile (\<lambda>x. x \<noteq> CHR ''.'') m"
  assume top: "?top = e"
  show "depends_on m e"
  proof (cases "dropWhile (\<lambda>x. x \<noteq> CHR ''.'') m")
    case Nil
    then have "m = e" using top by (metis append_Nil2 takeWhile_dropWhile_id)
    then show ?thesis by (simp add: depends_on_def)
  next
    case (Cons d rest)
    then have "d = CHR ''.''" using hd_dropWhile [of "\<lambda>x. x \<noteq> CHR ''.''" m] by simp
    then have "m = e @ ''.'' @ rest"
      using Cons top takeWhile_dropWhile_id [of "\<lambda>x. x \<noteq> CHR ''.''" m] by simp
    then show ?thesis unfolding depends_on_def by blast
  qed
next
  have "takeWhile (\<lambda>x. x \<noteq> CHR ''.'') e = e"
    using assms by (auto simp: dotless_def takeWhile_eq_all_conv)
  moreover have "takeWhile (\<lambda>x. x \<noteq> CHR ''.'') (e @ ''.'' @ rest) = e" for rest
    using assms by (subst takeWhile_append2) (auto simp: dotless_def)
  moreover assume "depends_on m e"
  ultimately show "takeWhile (\<lambda>x. x \<noteq> CHR ''.'') m = e" unfolding depends_on_def by blast
qed

lemma second_module_iff:
  assumes "dotless package" and "dotless l"
  shows "1 < length (split_on CHR ''.'' m) \<and> split_on CHR ''.'' m ! 0 = package \<and>
      split_on CHR ''.'' m ! 1 = l \<longleftrightarrow> depends_on m (package @ ''.'' @ l)"
proof -
  let ?parts = "split_on CHR ''.'' m"
  have nth: "1 < length ?parts \<and> ?parts ! 0 = package \<and> ?parts ! 1 = l \<longleftrightarrow>
      hd ?parts = package \<and> tl ?parts \<noteq> [] \<and> hd (tl ?parts) = l"
    by (cases ?parts; cases "tl ?parts") auto
  have after: "tl (split_on CHR ''.'' (package @ ''.'' @ rest)) = split_on CHR ''.'' rest" for rest
    using assms(1) unfolding split_on_tail dotless_def
    by (subst dropWhile_append2) auto
  have whole: "tl (split_on CHR ''.'' package) = []"
  proof -
    have "dropWhile (\<lambda>x. x \<noteq> CHR ''.'') package = []"
      using assms(1) by (auto simp: dropWhile_eq_Nil_conv dotless_def)
    then show ?thesis unfolding split_on_tail by (simp only: list.case)
  qed
  show ?thesis
  proof
    assume "1 < length ?parts \<and> ?parts ! 0 = package \<and> ?parts ! 1 = l"
    then have parts: "hd ?parts = package" "tl ?parts \<noteq> []" "hd (tl ?parts) = l" unfolding nth by auto
    from parts(1,2) whole obtain rest where m: "m = package @ ''.'' @ rest"
      unfolding top_module_iff [OF assms(1)] depends_on_def by auto
    with parts(3) have "depends_on rest l" using after top_module_iff [OF assms(2)] by auto
    with m show "depends_on m (package @ ''.'' @ l)" by (auto simp: depends_on_def)
  next
    assume "depends_on m (package @ ''.'' @ l)"
    then obtain rest where m: "m = package @ ''.'' @ rest" and rest: "depends_on rest l"
      by (auto simp: depends_on_def)
    have "hd ?parts = package"
      unfolding top_module_iff [OF assms(1)] using m by (auto simp: depends_on_def)
    moreover have "hd (tl ?parts) = l" "tl ?parts \<noteq> []"
      unfolding m after using rest top_module_iff [OF assms(2)] by auto
    ultimately show "1 < length ?parts \<and> ?parts ! 0 = package \<and> ?parts ! 1 = l" unfolding nth by blast
  qed
qed

text \<open>What a layer may import.\<close>

definition permitted :: "string \<Rightarrow> string \<Rightarrow> string \<Rightarrow> bool" where
  "permitted layer package m \<longleftrightarrow>
    (\<forall>l \<in> set (the (dict_get forbidden_local layer)). \<not> depends_on m (package @ ''.'' @ l)) \<and>
    (\<forall>e \<in> set (the (dict_get forbidden_external layer)). \<not> depends_on m e)"

lemma rules_dotless:
  assumes "dict_has forbidden_local layer"
  shows "l \<in> set (the (dict_get forbidden_local layer)) \<Longrightarrow> dotless l"
    and "e \<in> set (the (dict_get forbidden_external layer)) \<Longrightarrow> dotless e \<and> e \<noteq> []"
proof -
  from assms have "layer = ''domain'' \<or> layer = ''application''"
    by (simp add: forbidden_local_def dict_has_def split: if_splits)
  then show "l \<in> set (the (dict_get forbidden_local layer)) \<Longrightarrow> dotless l"
    and "e \<in> set (the (dict_get forbidden_external layer)) \<Longrightarrow> dotless e \<and> e \<noteq> []"
    by (auto simp: forbidden_local_def forbidden_external_def infrastructure_def dotless_def)
qed

lemma layer_violation_Nil_iff:
  assumes "dict_has forbidden_local layer" and "dotless package"
  shows "layer_violation relative layer package (line, m) = [] \<longleftrightarrow> permitted layer package m"
proof -
  let ?parts = "if m = [] then [] else split_on CHR ''.'' m"
  have "1 < length ?parts \<and> ?parts ! 0 = package \<and> ?parts ! 1 = l \<longleftrightarrow>
      depends_on m (package @ ''.'' @ l)" if "l \<in> set (the (dict_get forbidden_local layer))" for l
    using second_module_iff [OF assms(2) rules_dotless(1) [OF assms(1) that], of m]
    by (cases "m = []") (simp_all add: depends_on_def)
  then have "1 < length ?parts \<and> ?parts ! 0 = package \<and>
      ?parts ! 1 \<in> set (the (dict_get forbidden_local layer)) \<longleftrightarrow>
      (\<exists>l \<in> set (the (dict_get forbidden_local layer)). depends_on m (package @ ''.'' @ l))"
    by blast
  moreover have "hd (split_on CHR ''.'' m) \<in> set (the (dict_get forbidden_external layer)) \<longleftrightarrow>
      (\<exists>e \<in> set (the (dict_get forbidden_external layer)). depends_on m e)"
    using top_module_iff [of _ m] rules_dotless(2) [OF assms(1)] by metis
  ultimately show ?thesis
    unfolding layer_violation_def permitted_def Let_def by (simp split: if_split)
qed

subsection \<open>What a statement imports\<close>

text \<open>
  The absolute name of what \<open>from ..module import name\<close> imports, by the language's rule: one
  leading dot is the current package, and each further dot one package up.
\<close>

definition absolute_name :: "path \<Rightarrow> string option \<Rightarrow> nat \<Rightarrow> string \<Rightarrow> string" where
  "absolute_name package modname level name =
    str_join ''.'' ((if level = 0 then [] else take (length package + 1 - level) package) @
      (case modname of None \<Rightarrow> [] | Some m \<Rightarrow> [m]) @ [name])"

fun names_imported :: "path \<Rightarrow> node \<Rightarrow> string list" where
  "names_imported package (Import line names) = names"
| "names_imported package (ImportFrom line modname level names) =
    map (absolute_name package modname level) names"
| "names_imported package _ = []"

text \<open>The parser yields dotted names without empty parts.\<close>

definition dotted_name :: "string \<Rightarrow> bool" where
  "dotted_name m \<longleftrightarrow> [] \<notin> set (split_on CHR ''.'' m)"

fun parsed_node :: "node \<Rightarrow> bool" where
  "parsed_node (ImportFrom line modname level names) \<longleftrightarrow>
     [] \<notin> set names \<and> (case modname of None \<Rightarrow> True | Some m \<Rightarrow> dotted_name m)"
| "parsed_node _ \<longleftrightarrow> True"

lemma str_join_append:
  "str_join sep (xs @ ys) =
    (if xs = [] then str_join sep ys else if ys = [] then str_join sep xs
     else str_join sep xs @ sep @ str_join sep ys)"
  by (induction sep xs rule: str_join.induct) (auto split: if_splits simp: neq_Nil_conv)

lemma str_join_split: "str_join [c] (split_on c m) = m"
proof (induction m)
  case (Cons x m)
  obtain p ps where "split_on c m = p # ps" by (cases "split_on c m") auto
  with Cons show ?case by (cases ps) auto
qed simp

lemma str_join_nonempty: "xs \<noteq> [] \<Longrightarrow> [] \<notin> set xs \<Longrightarrow> str_join sep xs \<noteq> []"
  by (induction sep xs rule: str_join.induct) auto

lemma nonempty_id: "[] \<notin> set xs \<Longrightarrow> nonempty xs = xs"
  by (auto simp: nonempty_def filter_id_conv)

lemma import_base_name:
  assumes "[] \<notin> set package" and "case modname of None \<Rightarrow> True | Some m \<Rightarrow> dotted_name m"
    and "name \<noteq> []"
  shows "str_join ''.'' (nonempty [import_base package modname level, name]) =
    absolute_name package modname level name"
proof -
  define up where "up = (if level = 0 then [] else take (length package - (level - 1)) package)"
  define parts where "parts = (case modname of
      None \<Rightarrow> [] | Some m \<Rightarrow> (if m = [] then [] else split_on CHR ''.'' m))"
  define ms where "ms = (case modname of None \<Rightarrow> [] | Some m \<Rightarrow> [m])"
  have up: "[] \<notin> set up" using assms(1) by (auto simp: up_def dest: in_set_takeD)
  have parts: "[] \<notin> set parts" using assms(2) by (auto simp: parts_def dotted_name_def split: option.splits)
  have same: "str_join ''.'' parts = str_join ''.'' ms \<and> (parts = [] \<longleftrightarrow> ms = [])"
    using assms(2) by (auto simp: parts_def ms_def dotted_name_def str_join_split split: option.splits)
  have base: "import_base package modname level = str_join ''.'' (up @ parts)"
    using up parts by (auto simp: import_base_def Let_def up_def parts_def nonempty_id)
  have level: "(if level = 0 then [] else take (length package + 1 - level) package) = up"
    by (cases level) (simp_all add: up_def)
  have name: "absolute_name package modname level name = str_join ''.'' (up @ ms @ [name])"
    unfolding absolute_name_def level ms_def by (cases modname) simp_all
  show ?thesis
  proof (cases "up @ parts = []")
    case True
    then show ?thesis using same assms(3) unfolding base name by (simp add: nonempty_def)
  next
    case False
    then have "str_join ''.'' (up @ parts) \<noteq> []" using up parts by (intro str_join_nonempty) auto
    then have "str_join ''.'' (nonempty [import_base package modname level, name]) =
        str_join ''.'' (up @ parts) @ ''.'' @ name"
      using assms(3) by (simp add: nonempty_def base)
    also have "\<dots> = str_join ''.'' (up @ ms @ [name])"
      using same False by (auto simp: str_join_append)
    finally show ?thesis unfolding name .
  qed
qed

lemma names_imported_collected:
  assumes "n \<in> set nodes" and "parsed_node n" and "[] \<notin> set (butlast current)"
    and "m \<in> set (names_imported (butlast current) n)"
  shows "\<exists>line. (line, m) \<in> set (imported_modules nodes current)"
proof -
  have "\<exists>line. (line, m) \<in> set (node_imports (butlast current) n)"
  proof (cases n)
    case (ImportFrom line modname level names)
    with assms(4) obtain x where x: "x \<in> set names"
      and m: "m = absolute_name (butlast current) modname level x" by auto
    have "str_join ''.'' (nonempty [import_base (butlast current) modname level, x]) = m"
      unfolding m using assms(2) x ImportFrom by (intro import_base_name [OF assms(3)]) auto
    then show ?thesis using x by (auto simp: ImportFrom)
  qed (use assms(4) in auto)
  then show ?thesis using assms(1) by (auto simp: imported_modules_def)
qed

subsection \<open>The gate\<close>

lemma hd_without_suffix: "2 \<le> length p \<Longrightarrow> hd (without_suffix p) = hd p"
  by (cases p) (auto simp: without_suffix_def)

lemma layered_length: "layer_for p = Some l \<Longrightarrow> 2 \<le> length p"
  by (simp add: layer_for_def split: if_splits)

lemma validate_file_Nil:
  assumes "validate_file parse src_root file = []" and "layer_for file = Some layer"
    and "dict_has forbidden_local layer" and "dotless (hd file)"
  shows "\<exists>nodes. parse (src_root @ file) = Inr nodes \<and>
    (\<forall>(line, m) \<in> set (imported_modules nodes (without_suffix file)). permitted layer (hd file) m)"
  using assms layer_violation_Nil_iff [OF assms(3,4)] layered_length [OF assms(2)]
  by (auto simp: validate_file_def Let_def hd_without_suffix split: sum.splits)

text \<open>A file in the proper place: inside a layer, or the package's own \<open>__init__.py\<close>.\<close>

definition placed :: "path \<Rightarrow> bool" where
  "placed file \<longleftrightarrow> length file < 2 \<or> layer_for file \<noteq> None \<or>
    length file = 2 \<and> file ! 1 = ''__init__.py''"

lemma placement_Nil:
  assumes "validate_layer_placement to_path modules allowlist = []"
  shows "\<forall>file \<in> set modules. placed file \<or> as_posix file \<in> set allowlist"
    and "\<forall>a \<in> set allowlist. \<exists>file \<in> set modules. \<not> placed file \<and> as_posix file = a"
proof -
  have unlayered: "file \<in> set (unlayered_modules modules) \<longleftrightarrow> file \<in> set modules \<and> \<not> placed file"
    for "file"
    by (auto simp: unlayered_modules_def placed_def layer_for_def unlayered_exempt_filenames_def)
  have "set (map as_posix (unlayered_modules modules)) \<subseteq> set allowlist"
    and "set allowlist \<subseteq> set (map as_posix (unlayered_modules modules))"
    using assms by (simp_all add: validate_layer_placement_def Let_def sorted_minus_Nil)
  then show "\<forall>file \<in> set modules. placed file \<or> as_posix file \<in> set allowlist"
    and "\<forall>a \<in> set allowlist. \<exists>file \<in> set modules. \<not> placed file \<and> as_posix file = a"
    using unlayered by (auto, blast)
qed

lemma passing_gate:
  assumes "architecture_main cb base (Inr cfg) = Status 0"
  shows "gate_violations cb base cfg = []" and "\<forall>b \<in> set (cfg_boundaries cfg). cb_is_dir cb (bo_path b)"
  using assms by (simp_all add: architecture_main_def split: if_splits)

lemma clean_root_Nil:
  assumes "gate_violations cb base cfg = []" and "cfg_clean cfg" and "src_root \<in> set (cfg_source_roots cfg)"
  shows "file \<in> set (cb_modules cb src_root) \<Longrightarrow> validate_file (cb_parse cb) src_root file = []"
    and "validate_layer_placement (cb_to_path cb) (cb_modules cb src_root) (cfg_allowlist cfg) = []"
proof -
  have "root_violations cb (cfg_allowlist cfg) src_root = []"
  proof -
    have "set (gate_violations cb base cfg) = {}" using assms(1) by simp
    then show ?thesis using assms(2,3) unfolding gate_violations_def set_sort by simp
  qed
  then show "file \<in> set (cb_modules cb src_root) \<Longrightarrow> validate_file (cb_parse cb) src_root file = []"
    and "validate_layer_placement (cb_to_path cb) (cb_modules cb src_root) (cfg_allowlist cfg) = []"
    by (auto simp: root_violations_def)
qed


definition sample_code :: code_base where
  "sample_code = \<lparr>cb_modules = \<lambda>_. [[''pkg'', ''domain'', ''model.py'']], cb_is_dir = \<lambda>_. True,
     cb_parse = \<lambda>_. Inr [Import 1 [''decimal''], ImportFrom 2 (Some ''errors'') 1 [''Denied'']],
     cb_to_path = \<lambda>m. [m], cb_stdlib_names = [''decimal'']\<rparr>"

definition sample_config :: architecture_config where
  "sample_config = \<lparr>cfg_source_roots = [[''src'']], cfg_clean = True, cfg_boundaries = [],
     cfg_allowlist = []\<rparr>"

definition sample_module :: path where
  "sample_module = [''pkg'', ''domain'', ''model.py'']"


end
