(* ===== verification/Vendor_Manifest.thy ===== *)
theory Vendor_Manifest
  imports Script_Tools
begin

text \<open>
  The integrity check of the vendored schema bundle (\<open>scripts/validate_loop_schema_vendor.py\<close>).

  \<^item> The vendor directory is an argument: what each name holds, if it is a file. A file has its
    SHA-256 digest and size, and its text unless its bytes are not UTF-8, where \<open>read_text\<close> raises
    an exception nobody catches.
  \<^item> Loading \<open>manifest.json\<close> is an argument that yields a decoded value or the message of the
    exception \<open>validate_manifest\<close> reports.
\<close>

section \<open>The bundle\<close>

record vendored =
  ve_sha256 :: string
  ve_size :: int
  ve_text :: "string option"

definition expected_repository :: string where
  "expected_repository = ''brunovicco/engineering-loop-schemas''"

definition expected_manifest_version :: string where
  "expected_manifest_version = ''2.0.0''"

definition required_files :: "string list" where
  "required_files =
    [''__init__.py'', ''_stdlib_jsonschema.py'', ''models.py'', ''schema_resources.py'',
     ''schemas/builder-result.schema.json'', ''schemas/contract.schema.json'',
     ''schemas/evidence.schema.json'', ''schemas/verdict.schema.json'', ''validate_contract.py'']"

text \<open>\<open>fullmatch\<close> of the three patterns; \<open>\d\<close> is a decimal digit, of which U+0000 to U+00FF has ten.\<close>

definition hex_text :: "nat \<Rightarrow> string \<Rightarrow> bool" where
  "hex_text n s \<longleftrightarrow> length s = n \<and> list_all is_hex s"

definition semver_text :: "string \<Rightarrow> bool" where
  "semver_text s \<longleftrightarrow> length (split_on CHR ''.'' s) = 3 \<and>
    list_all (\<lambda>p. p \<noteq> [] \<and> list_all is_digit p) (split_on CHR ''.'' s)"

datatype vendor_error =
    NotLoaded string
  | UnsupportedManifestVersion
  | SourceNotObject
  | UnexpectedRepository
  | InvalidVersion
  | InvalidCommit
  | FilesNotObject
  | FilesMismatch "string list" "string list"
  | MetadataNotObject string
  | InvalidSha string
  | InvalidSize string
  | FileMissing string
  | ShaMismatch string string string
  | SizeMismatch string int int
  | AdaptationsNotArray
  | AdaptationNotObject nat
  | AdaptationNotStrings nat
  | AdaptationTargetMissing string
  | VendoredImportMissing string string
  | SourceImportLeft string string
  | VersionHeaderMissing string
  | CommitHeaderMissing string

section \<open>The checks\<close>

definition load_manifest :: "string + pyval \<Rightarrow> string + pydict" where
  "load_manifest document = (case document of
      Inl e \<Rightarrow> Inl e
    | Inr (VDict d) \<Rightarrow> Inr d
    | Inr _ \<Rightarrow> Inl ''manifest.json must contain an object'')"

definition text_such :: "(string \<Rightarrow> bool) \<Rightarrow> pyval option \<Rightarrow> bool" where
  "text_such p v = (case v of Some (VStr s) \<Rightarrow> p s | _ \<Rightarrow> False)"

definition provenance_errors :: "pydict \<Rightarrow> vendor_error list" where
  "provenance_errors source =
    (if dict_get source ''repository'' \<noteq> Some (VStr expected_repository)
     then [UnexpectedRepository] else []) @
    (if \<not> text_such semver_text (dict_get source ''version'') then [InvalidVersion] else []) @
    (if \<not> text_such (hex_text 40) (dict_get source ''commit'') then [InvalidCommit] else [])"

definition file_errors :: "(string \<Rightarrow> vendored option) \<Rightarrow> pydict \<Rightarrow> string \<Rightarrow> vendor_error list" where
  "file_errors dir files name = (case dict_get files name of
      Some (VDict metadata) \<Rightarrow>
        (case dict_get metadata ''sha256'' of
           Some (VStr expected_hash) \<Rightarrow>
             (if \<not> hex_text 64 expected_hash then [InvalidSha name]
              else (case Option.bind (dict_get metadata ''size_bytes'') as_int of
                 Some expected_size \<Rightarrow>
                   (if expected_size < 0 then [InvalidSize name]
                    else (case dir name of
                        None \<Rightarrow> [FileMissing name]
                      | Some f \<Rightarrow>
                          (if ve_sha256 f \<noteq> expected_hash
                           then [ShaMismatch name expected_hash (ve_sha256 f)] else []) @
                          (if ve_size f \<noteq> expected_size
                           then [SizeMismatch name expected_size (ve_size f)] else [])))
               | None \<Rightarrow> [InvalidSize name]))
         | _ \<Rightarrow> [InvalidSha name])
    | _ \<Rightarrow> [MetadataNotObject name])"

text \<open>
  One adaptation: the vendored import is there and the upstream one is gone. \<open>read_text\<close> of a
  file that is not UTF-8 escapes (None).
\<close>

definition adaptation_errors ::
  "(string \<Rightarrow> vendored option) \<Rightarrow> nat \<Rightarrow> pyval \<Rightarrow> vendor_error list option" where
  "adaptation_errors dir i entry = (case entry of
      VDict d \<Rightarrow>
        (case (dict_get d ''file'', dict_get d ''from'', dict_get d ''to'') of
           (Some (VStr target), Some (VStr original), Some (VStr adapted)) \<Rightarrow>
             (case dir target of
                None \<Rightarrow> Some [AdaptationTargetMissing target]
              | Some f \<Rightarrow> map_option (\<lambda>t.
                  (if \<not> contains_text adapted t then [VendoredImportMissing target adapted] else []) @
                  (if contains_text original t then [SourceImportLeft target original] else []))
                  (ve_text f))
         | _ \<Rightarrow> Some [AdaptationNotStrings i])
    | _ \<Rightarrow> Some [AdaptationNotObject i])"

definition ends_with :: "string \<Rightarrow> string \<Rightarrow> bool" where
  "ends_with suffix s \<longleftrightarrow> starts_with (rev suffix) (rev s)"

definition header_errors ::
  "(string \<Rightarrow> vendored option) \<Rightarrow> string \<Rightarrow> string \<Rightarrow> string \<Rightarrow> vendor_error list option" where
  "header_errors dir version commit name =
    (if \<not> ends_with ''.py'' name then Some []
     else (case dir name of
         None \<Rightarrow> Some []
       | Some f \<Rightarrow> map_option (\<lambda>t.
           (if \<not> contains_text (''# Version: '' @ version) t then [VersionHeaderMissing name] else []) @
           (if \<not> contains_text (''# Commit: '' @ commit) t then [CommitHeaderMissing name] else []))
           (ve_text f)))"

fun concat_option :: "('a \<Rightarrow> 'b list option) \<Rightarrow> 'a list \<Rightarrow> 'b list option" where
  "concat_option f [] = Some []"
| "concat_option f (x # xs) =
    Option.bind (f x) (\<lambda>ys. map_option (\<lambda>zs. ys @ zs) (concat_option f xs))"

definition all_adaptation_errors ::
  "(string \<Rightarrow> vendored option) \<Rightarrow> pydict \<Rightarrow> vendor_error list option" where
  "all_adaptation_errors dir manifest = (case dict_get manifest ''adaptations'' of
      Some (VList entries) \<Rightarrow>
        concat_option (\<lambda>(i, entry). adaptation_errors dir i entry) (List.enumerate 0 entries)
    | _ \<Rightarrow> Some [AdaptationsNotArray])"

definition all_header_errors ::
  "(string \<Rightarrow> vendored option) \<Rightarrow> pydict \<Rightarrow> vendor_error list option" where
  "all_header_errors dir source = (case (dict_get source ''version'', dict_get source ''commit'') of
      (Some (VStr version), Some (VStr commit)) \<Rightarrow>
        concat_option (header_errors dir version commit) required_files
    | _ \<Rightarrow> Some [])"

definition manifest_source :: "pydict \<Rightarrow> vendor_error list \<times> pydict" where
  "manifest_source manifest = (case dict_get manifest ''source'' of
      Some (VDict d) \<Rightarrow> ([], d)
    | _ \<Rightarrow> ([SourceNotObject], []))"

definition validate_manifest ::
  "(string \<Rightarrow> vendored option) \<Rightarrow> string + pyval \<Rightarrow> vendor_error list option" where
  "validate_manifest dir document = (case load_manifest document of
      Inl e \<Rightarrow> Some [NotLoaded e]
    | Inr manifest \<Rightarrow>
        (let (not_object, source) = manifest_source manifest;
             errors =
               (if dict_get manifest ''manifest_version'' \<noteq> Some (VStr expected_manifest_version)
                then [UnsupportedManifestVersion] else []) @
               not_object @ provenance_errors source
         in case dict_get manifest ''files'' of
              Some (VDict files) \<Rightarrow>
                Option.bind (all_adaptation_errors dir manifest) (\<lambda>adaptations.
                map_option (\<lambda>headers.
                  errors @
                  (if set (dict_keys files) \<noteq> set required_files
                   then [FilesMismatch (sorted_minus required_files (dict_keys files))
                           (sorted_minus (dict_keys files) required_files)] else []) @
                  concat (map (file_errors dir files) required_files) @ adaptations @ headers)
                (all_header_errors dir source))
            | _ \<Rightarrow> Some (errors @ [FilesNotObject])))"

definition vendor_main :: "(string \<Rightarrow> vendored option) \<Rightarrow> string + pyval \<Rightarrow> ending" where
  "vendor_main dir document = (case validate_manifest dir document of
      None \<Rightarrow> Traceback
    | Some errors \<Rightarrow> Status (if errors \<noteq> [] then 1 else 0))"

section \<open>What a passing check shows\<close>

lemma concat_option_Nil_iff: "concat_option f xs = Some [] \<longleftrightarrow> (\<forall>x \<in> set xs. f x = Some [])"
  by (induction xs) (auto simp: bind_eq_Some_conv)

lemma file_errors_Nil:
  assumes "file_errors dir files name = []"
  shows "\<exists>f metadata. dir name = Some f \<and> dict_get files name = Some (VDict metadata) \<and>
    dict_get metadata ''sha256'' = Some (VStr (ve_sha256 f)) \<and>
    Option.bind (dict_get metadata ''size_bytes'') as_int = Some (ve_size f)"
  using assms
  by (auto simp: file_errors_def split: option.splits pyval.splits if_splits)

lemma header_errors_Nil:
  assumes "header_errors dir version commit name = Some []" and "ends_with ''.py'' name"
    and "dir name = Some f"
  shows "\<exists>t. ve_text f = Some t \<and> contains_text (''# Version: '' @ version) t \<and>
    contains_text (''# Commit: '' @ commit) t"
  using assms by (auto simp: header_errors_def split: if_splits)

text \<open>
  When the bundle check ends with status 0, the manifest comes from the expected repository at
  a well-formed version and commit and lists exactly the required files; each of them is there
  with the digest and size recorded, and each Python file carries that version and commit.
\<close>

theorem vendored_bundle_intact:
  assumes "vendor_main dir document = Status 0" and "name \<in> set required_files"
  shows "\<exists>manifest source files version commit metadata f.
    document = Inr (VDict manifest) \<and>
    dict_get manifest ''source'' = Some (VDict source) \<and>
    dict_get source ''repository'' = Some (VStr expected_repository) \<and>
    dict_get source ''version'' = Some (VStr version) \<and> semver_text version \<and>
    dict_get source ''commit'' = Some (VStr commit) \<and> hex_text 40 commit \<and>
    dict_get manifest ''files'' = Some (VDict files) \<and>
    set (dict_keys files) = set required_files \<and>
    dir name = Some f \<and> dict_get files name = Some (VDict metadata) \<and>
    dict_get metadata ''sha256'' = Some (VStr (ve_sha256 f)) \<and>
    Option.bind (dict_get metadata ''size_bytes'') as_int = Some (ve_size f) \<and>
    (ends_with ''.py'' name \<longrightarrow> (\<exists>t. ve_text f = Some t \<and>
       contains_text (''# Version: '' @ version) t \<and> contains_text (''# Commit: '' @ commit) t))"
proof -
  have run: "validate_manifest dir document = Some []"
    using assms(1) by (auto simp: vendor_main_def split: option.splits if_splits)
  obtain manifest where doc: "document = Inr (VDict manifest)"
    using run by (auto simp: validate_manifest_def load_manifest_def split: sum.splits pyval.splits)
  obtain source where source: "dict_get manifest ''source'' = Some (VDict source)"
    using run doc
    by (auto simp: validate_manifest_def load_manifest_def manifest_source_def bind_eq_Some_conv Let_def
        split: option.splits pyval.splits)
  have "manifest_source manifest = ([], source)" by (simp add: manifest_source_def source)
  note body = run [unfolded doc validate_manifest_def load_manifest_def, simplified,
      unfolded this Let_def, simplified]
  obtain files where files: "dict_get manifest ''files'' = Some (VDict files)"
    using body by (auto split: option.splits pyval.splits)
  from body [unfolded files] obtain adaptations headers where parts:
      "all_header_errors dir source = Some headers"
      "provenance_errors source = []" "headers = []"
      "set (dict_keys files) = set required_files"
      "concat (map (file_errors dir files) required_files) = []"
    by (auto simp: bind_eq_Some_conv split: if_splits)
  note keys = parts(4) and prov = parts(2) and each = parts(5)
  have headers: "all_header_errors dir source = Some []" using parts(1,3) by simp
  obtain version commit where vc: "dict_get source ''version'' = Some (VStr version)" "semver_text version"
      "dict_get source ''commit'' = Some (VStr commit)" "hex_text 40 commit"
      "dict_get source ''repository'' = Some (VStr expected_repository)"
    using prov by (auto simp: provenance_errors_def text_such_def split: option.splits pyval.splits if_splits)
  have "file_errors dir files name = []" using each assms(2) by simp
  then obtain f metadata where f: "dir name = Some f" "dict_get files name = Some (VDict metadata)"
      "dict_get metadata ''sha256'' = Some (VStr (ve_sha256 f))"
      "Option.bind (dict_get metadata ''size_bytes'') as_int = Some (ve_size f)"
    using file_errors_Nil by blast
  have "header_errors dir version commit name = Some []"
    using headers vc assms(2) by (simp add: all_header_errors_def concat_option_Nil_iff)
  then have "ends_with ''.py'' name \<longrightarrow> (\<exists>t. ve_text f = Some t \<and>
      contains_text (''# Version: '' @ version) t \<and> contains_text (''# Commit: '' @ commit) t)"
    using header_errors_Nil f(1) by blast
  with doc source files keys vc f show ?thesis
    by (intro exI [of _ manifest] exI [of _ source] exI [of _ files] exI [of _ version]
        exI [of _ commit] exI [of _ metadata] exI [of _ f] conjI)
qed

text \<open>The vendor directory of a bundle whose every file has the same digest, size and text.\<close>

definition sample_file :: vendored where
  "sample_file = \<lparr>ve_sha256 = replicate 64 (CHR ''a''), ve_size = 10,
     ve_text = Some ''# Version: 0.3.0 # Commit: 5340d491b46f4fabc967c81bb3e5204104b6b5d8''\<rparr>"

definition sample_manifest :: pydict where
  "sample_manifest =
    [(''manifest_version'', VStr ''2.0.0''),
     (''source'', VDict
        [(''repository'', VStr expected_repository), (''version'', VStr ''0.3.0''),
         (''commit'', VStr ''5340d491b46f4fabc967c81bb3e5204104b6b5d8'')]),
     (''files'', VDict (map (\<lambda>n. (n, VDict
        [(''sha256'', VStr (replicate 64 (CHR ''a''))), (''size_bytes'', VInt 10)])) required_files)),
     (''adaptations'', VList [])]"

theorem vendored_bundle_intact_witness:
  "\<exists>manifest source files version commit metadata f.
    (Inr (VDict sample_manifest) :: string + pyval) = Inr (VDict manifest) \<and>
    dict_get manifest ''source'' = Some (VDict source) \<and>
    dict_get source ''repository'' = Some (VStr expected_repository) \<and>
    dict_get source ''version'' = Some (VStr version) \<and> semver_text version \<and>
    dict_get source ''commit'' = Some (VStr commit) \<and> hex_text 40 commit \<and>
    dict_get manifest ''files'' = Some (VDict files) \<and>
    set (dict_keys files) = set required_files \<and>
    (\<lambda>_. Some sample_file) ''models.py'' = Some f \<and> dict_get files ''models.py'' = Some (VDict metadata) \<and>
    dict_get metadata ''sha256'' = Some (VStr (ve_sha256 f)) \<and>
    Option.bind (dict_get metadata ''size_bytes'') as_int = Some (ve_size f) \<and>
    (ends_with ''.py'' ''models.py'' \<longrightarrow> (\<exists>t. ve_text f = Some t \<and>
       contains_text (''# Version: '' @ version) t \<and> contains_text (''# Commit: '' @ commit) t))"
proof (rule vendored_bundle_intact)
  show "vendor_main (\<lambda>_. Some sample_file) (Inr (VDict sample_manifest)) = Status 0"
    by code_simp
  show "''models.py'' \<in> set required_files"
    by (simp add: required_files_def)
qed

end
