(* ===== verification/Quality_Gate.thy ===== *)
theory Quality_Gate
  imports Script_Tools
begin

text \<open>
  The quality gate (\<open>scripts/quality_gate.py\<close>): the commands it derives from \<open>pyproject.toml\<close>,
  and how it runs those selected. \<open>tomllib\<close>, \<open>glob.glob\<close>, the file system, the interpreter's path
  and \<open>subprocess.run\<close> (its return code) are arguments.
\<close>

section \<open>Settings\<close>

record check =
  ck_name :: string
  ck_command :: "string list"

text \<open>\<open>project.get(key)\<close> where only a table counts.\<close>

definition table_at :: "string \<Rightarrow> pydict \<Rightarrow> pydict option" where
  "table_at key d = (case dict_get d key of Some (VDict t) \<Rightarrow> Some t | _ \<Rightarrow> None)"

definition load_settings :: "pydict \<Rightarrow> pydict" where
  "load_settings project = (case table_at ''tool'' project of
      None \<Rightarrow> []
    | Some tool \<Rightarrow> (case table_at ''engineering-harness'' tool of
        None \<Rightarrow> []
      | Some harness \<Rightarrow> (case table_at ''quality'' harness of None \<Rightarrow> [] | Some q \<Rightarrow> q)))"

definition string_list :: "pyval option \<Rightarrow> string list \<Rightarrow> string list" where
  "string_list v default_texts = (case v of
      Some (VList xs) \<Rightarrow>
        (if \<forall>x \<in> set xs. as_str x \<noteq> None then map (the \<circ> as_str) xs else default_texts)
    | _ \<Rightarrow> default_texts)"

text \<open>\<open>matches\<close> yields the matches of a pattern below the project, as paths relative to it.\<close>

definition expand_roots ::
  "(string \<Rightarrow> string list) \<Rightarrow> (string \<Rightarrow> bool) \<Rightarrow> string list \<Rightarrow> string list" where
  "expand_roots matches exists patterns =
    sorted_set (filter exists (concat (map matches patterns)))"

definition configured_checks ::
  "(string \<Rightarrow> string list) \<Rightarrow> (string \<Rightarrow> bool) \<Rightarrow> string \<Rightarrow> pydict \<Rightarrow> check list" where
  "configured_checks matches exists python project =
    (let settings = load_settings project;
         source_roots = expand_roots matches exists
           (string_list (dict_get settings ''source-roots'') [''src'']);
         test_roots = expand_roots matches exists
           (string_list (dict_get settings ''test-roots'') [''tests'']);
         type_roots = source_roots @ test_roots
     in [\<lparr>ck_name = ''lock'', ck_command = [''uv'', ''lock'', ''--check'']\<rparr>,
         \<lparr>ck_name = ''lint'', ck_command = [''ruff'', ''check'', ''.'']\<rparr>,
         \<lparr>ck_name = ''format'', ck_command = [''ruff'', ''format'', ''--check'', ''.'']\<rparr>,
         \<lparr>ck_name = ''architecture'', ck_command = [python, ''scripts/validate_architecture.py'']\<rparr>,
         \<lparr>ck_name = ''loop-schema-vendor'',
          ck_command = [python, ''scripts/validate_loop_schema_vendor.py'']\<rparr>,
         \<lparr>ck_name = ''loop-contracts'', ck_command = [python, ''scripts/validate_loop_contracts.py'']\<rparr>,
         \<lparr>ck_name = ''typing'', ck_command = if type_roots \<noteq> [] then ''mypy'' # type_roots else []\<rparr>,
         \<lparr>ck_name = ''tests'', ck_command = if test_roots \<noteq> [] then [''pytest''] else []\<rparr>,
         \<lparr>ck_name = ''security'', ck_command = if source_roots \<noteq> []
            then [''bandit'', ''-c'', ''pyproject.toml'', ''-r''] @ source_roots else []\<rparr>,
         \<lparr>ck_name = ''dependencies'', ck_command = [''pip-audit'']\<rparr>,
         \<lparr>ck_name = ''packaging'', ck_command = [''uv'', ''build'', ''--wheel'']\<rparr>])"

section \<open>Running the gate\<close>

text \<open>
  Every selected command is run, in order, whatever the others return; the outcome also tells
  which commands ran. \<open>--check\<close> given no time or with no name selects every check.
\<close>

fun run_checks ::
  "(string list \<Rightarrow> int) \<Rightarrow> check list \<Rightarrow> string list list \<times> string list" where
  "run_checks run [] = ([], [])"
| "run_checks run (c # cs) = (let (executed, failures) = run_checks run cs in
     if ck_command c = [] then (executed, failures)
     else (ck_command c # executed, (if run (ck_command c) \<noteq> 0 then [ck_name c] else []) @ failures))"

definition requested_names :: "check list \<Rightarrow> string list option \<Rightarrow> string list" where
  "requested_names checks wanted =
    (if wanted = None \<or> wanted = Some [] then map ck_name checks else the wanted)"

definition quality_gate_main ::
  "(string list \<Rightarrow> int) \<Rightarrow> check list \<Rightarrow> string list option \<Rightarrow> bool \<Rightarrow> string list list \<times> ending" where
  "quality_gate_main run checks wanted listing =
    (let requested = requested_names checks wanted;
         unknown = sorted_minus requested (map ck_name checks);
         selected = filter (\<lambda>c. ck_name c \<in> set requested) checks
     in if unknown \<noteq> [] then ([], Status 2)
        else if listing then ([], Status 0)
        else let (executed, failures) = run_checks run selected
          in (executed, Status (if failures \<noteq> [] then 1 else 0)))"

section \<open>What the gate shows\<close>

lemma run_checks_ran:
  "fst (run_checks run cs) = map ck_command (filter (\<lambda>c. ck_command c \<noteq> []) cs)"
  by (induction cs) (auto simp: case_prod_beta Let_def)

lemma run_checks_failures:
  "snd (run_checks run cs) =
    map ck_name (filter (\<lambda>c. ck_command c \<noteq> [] \<and> run (ck_command c) \<noteq> 0) cs)"
  by (induction cs) (auto simp: case_prod_beta Let_def)

text \<open>
  When the quality gate ends with status 0 and does not only list, every requested name is a
  configured check, and the command of every requested check whose roots exist was run and
  returned 0.
\<close>

theorem quality_gate_complete:
  assumes "quality_gate_main run (configured_checks matches exists python project) wanted False =
      (executed, Status 0)"
    and "name \<in> set (requested_names (configured_checks matches exists python project) wanted)"
  shows "\<exists>c \<in> set (configured_checks matches exists python project). ck_name c = name \<and>
    (ck_command c = [] \<or> ck_command c \<in> set executed \<and> run (ck_command c) = 0)"
proof -
  let ?checks = "configured_checks matches exists python project"
  let ?selected = "filter (\<lambda>c. ck_name c \<in> set (requested_names ?checks wanted)) ?checks"
  have known: "set (requested_names ?checks wanted) \<subseteq> set (map ck_name ?checks)"
    and executed: "fst (run_checks run ?selected) = executed" and ok: "snd (run_checks run ?selected) = []"
    using assms(1)
    by (auto simp: quality_gate_main_def Let_def case_prod_beta sorted_minus_Nil split: if_splits)
  from known assms(2) obtain c where "c \<in> set ?checks" "ck_name c = name" by auto
  moreover from this assms(2) executed ok
  have "ck_command c = [] \<or> ck_command c \<in> set executed \<and> run (ck_command c) = 0"
    unfolding run_checks_ran run_checks_failures by (auto simp: filter_empty_conv)
  ultimately show ?thesis by blast
qed

theorem quality_gate_complete_witness:
  "\<exists>c \<in> set (configured_checks (\<lambda>p. [p]) (\<lambda>_. True) ''python3'' []). ck_name c = ''tests'' \<and>
    (ck_command c = [] \<or> ck_command c \<in> set [[''pytest'']] \<and> (\<lambda>_. 0 :: int) (ck_command c) = 0)"
proof (rule quality_gate_complete)
  show "quality_gate_main (\<lambda>_. 0) (configured_checks (\<lambda>p. [p]) (\<lambda>_. True) ''python3'' [])
      (Some [''tests'']) False = ([[''pytest'']], Status 0)"
    by code_simp
  show "''tests'' \<in> set (requested_names (configured_checks (\<lambda>p. [p]) (\<lambda>_. True) ''python3'' [])
      (Some [''tests'']))"
    by (simp add: requested_names_def)
qed

end
