(* ===== verification/Concurrent_Verification.thy ===== *)
theory Concurrent_Verification
  imports Verifier_Properties
begin

text \<open>
  Verifications that overlap. \<open>verify\<close> runs on one event loop and gives way at its awaits: the
  checks are made with the \<open>now\<close> the handler read, the control store may take its time, and the
  identifier is consumed when the store is reached, still with that \<open>now\<close>.

  \<^item> A verification is two steps, its arrival (the checks) and its consumption; the steps of any
    number of verifications interleave over one guard.
  \<^item> While consumptions happen before the expiry, single use holds for every interleaving.
  \<^item> A consumption that is delayed past the expiry, by a stalled store, is not checked against it:
    an authorization two requests presented in time is then accepted twice, with any clock skew.

  The time of a step is the wall clock when it happens. \<open>consume_at time\<close> is the guard reached at
  that time: the in-memory guard ignores it, a Redis server counts the life of its keys by it.
\<close>

section \<open>Steps\<close>

type_synonym 's consume_at = "instant \<Rightarrow> 's consume"

record ('k, 's) verifying =
  vg_guard :: 's
  vg_pending :: "(nat \<times> 'k verifier \<times> instant envelope \<times> datetime) list"
  vg_answers :: "(nat \<times> instant \<times> (auth_error, verified_authorization) result) list"
  vg_next :: nat

datatype 'k verify_event =
    Arrive "'k verifier" "instant envelope" route_request datetime
  | Consume nat instant

text \<open>What \<open>verify\<close> does after its checks: consume the identifier and report the outcome.\<close>

definition consume_verified ::
  "'s consume \<Rightarrow> 'k verifier \<Rightarrow> 's \<Rightarrow> instant envelope \<Rightarrow> datetime \<Rightarrow>
    's \<times> (auth_error, verified_authorization) result" where
  "consume_verified consume vf s e now =
    (let c = ev_claims e;
         (s, outcome) = consume s (cl_authorization_id c) (cl_expires_at c) (dt_wall now)
     in (s, rbind (consumed outcome) (\<lambda>_.
       Inr \<lparr>va_envelope = e, va_verified_at = dt_wall now,
            va_key_set_generation = ks_generation (vf_key_set vf)\<rparr>)))"

definition arrive ::
  "('k \<Rightarrow> bytes \<Rightarrow> bytes \<Rightarrow> bool) \<Rightarrow> (instant \<Rightarrow> string) \<Rightarrow> 'k verifier \<Rightarrow> instant envelope \<Rightarrow>
    route_request \<Rightarrow> datetime \<Rightarrow> ('k, 's) verifying \<Rightarrow> ('k, 's) verifying" where
  "arrive edv dump_time vf e r now st =
    (case verify_checks edv dump_time vf e r now of
       Inl err \<Rightarrow> st\<lparr>vg_answers := vg_answers st @ [(vg_next st, dt_wall now, Inl err)],
                    vg_next := Suc (vg_next st)\<rparr>
     | Inr _ \<Rightarrow> st\<lparr>vg_pending := vg_pending st @ [(vg_next st, vf, e, now)],
                   vg_next := Suc (vg_next st)\<rparr>)"

fun verify_step ::
  "'s consume_at \<Rightarrow> ('k \<Rightarrow> bytes \<Rightarrow> bytes \<Rightarrow> bool) \<Rightarrow> (instant \<Rightarrow> string) \<Rightarrow> 'k verify_event \<Rightarrow>
    ('k, 's) verifying \<Rightarrow> ('k, 's) verifying" where
  "verify_step consume_at edv dump_time (Arrive vf e r now) st = arrive edv dump_time vf e r now st"
| "verify_step consume_at edv dump_time (Consume i time) st =
    (case dict_get (vg_pending st) i of
       None \<Rightarrow> st
     | Some (vf, e, now) \<Rightarrow>
       (let (s, answer) = consume_verified (consume_at time) vf (vg_guard st) e now
        in st\<lparr>vg_guard := s, vg_answers := vg_answers st @ [(i, time, answer)],
              vg_pending := filter (\<lambda>(j, p). j \<noteq> i) (vg_pending st)\<rparr>))"

definition verify_run ::
  "'s consume_at \<Rightarrow> ('k \<Rightarrow> bytes \<Rightarrow> bytes \<Rightarrow> bool) \<Rightarrow> (instant \<Rightarrow> string) \<Rightarrow> 'k verify_event list \<Rightarrow>
    ('k, 's) verifying \<Rightarrow> ('k, 's) verifying" where
  "verify_run consume_at edv dump_time events st = fold (verify_step consume_at edv dump_time) events st"

definition idle :: "'s \<Rightarrow> ('k, 's) verifying" where
  "idle s = \<lparr>vg_guard = s, vg_pending = [], vg_answers = [], vg_next = 0\<rparr>"

fun event_time :: "'k verify_event \<Rightarrow> instant" where
  "event_time (Arrive vf e r now) = dt_wall now"
| "event_time (Consume i time) = time"

lemma verify_eq_steps:
  "verify consume edv dump_time vf s e r now =
    (case verify_checks edv dump_time vf e r now of
       Inl err \<Rightarrow> (s, Inl err) | Inr _ \<Rightarrow> consume_verified consume vf s e now)"
  by (simp add: verify_def consume_verified_def Let_def split: sum.splits)

text \<open>Without interleaving the two steps are \<open>verify\<close>.\<close>

lemma uninterrupted_verify:
  "verify_run consume_at edv dump_time [Arrive vf e r now, Consume 0 (dt_wall now)] (idle s) =
    \<lparr>vg_guard = fst (verify (consume_at (dt_wall now)) edv dump_time vf s e r now), vg_pending = [],
     vg_answers = [(0, dt_wall now, snd (verify (consume_at (dt_wall now)) edv dump_time vf s e r now))],
     vg_next = 1\<rparr>"
  by (simp add: verify_run_def arrive_def idle_def verify_eq_steps case_prod_unfold Let_def
      split: sum.splits)

lemma consume_verified_fst [simp]:
  "fst (consume_verified consume vf s e now) =
    fst (consume s (cl_authorization_id (ev_claims e)) (cl_expires_at (ev_claims e)) (dt_wall now))"
  by (simp add: consume_verified_def Let_def case_prod_unfold)

lemma consume_verified_Inr:
  "snd (consume_verified consume vf s e now) = Inr v \<longleftrightarrow>
    snd (consume s (cl_authorization_id (ev_claims e)) (cl_expires_at (ev_claims e)) (dt_wall now)) = Inr True
    \<and> v = \<lparr>va_envelope = e, va_verified_at = dt_wall now,
           va_key_set_generation = ks_generation (vf_key_set vf)\<rparr>"
  by (auto simp: consume_verified_def Let_def case_prod_unfold rbind_Inr_iff consumed_Inr)

section \<open>Single use of what was answered\<close>

text \<open>The authorizations a run accepted, with the time each was consumed, in order.\<close>

definition accepted :: "('k, 's) verifying \<Rightarrow> (verified_authorization \<times> instant) list" where
  "accepted st = List.map_filter (\<lambda>(i, time, answer).
    case answer of Inl err \<Rightarrow> None | Inr v \<Rightarrow> Some (v, time)) (vg_answers st)"

abbreviation expiry :: "verified_authorization \<Rightarrow> instant" where
  "expiry v \<equiv> cl_expires_at (ev_claims (va_envelope v))"

text \<open>Whoever is accepted with the identifier of an earlier request comes after its expiry.\<close>

definition used_once :: "(verified_authorization \<times> instant) list \<Rightarrow> bool" where
  "used_once served \<longleftrightarrow> sorted_wrt (\<lambda>(v, t) (v', t').
    authorization_id v = authorization_id v' \<longrightarrow> expiry v \<le> t') served"

lemma used_once_snoc:
  "used_once (served @ [(v', t')]) \<longleftrightarrow> used_once served
    \<and> (\<forall>(v, t) \<in> set served. authorization_id v = authorization_id v' \<longrightarrow> expiry v \<le> t')"
  by (simp add: used_once_def sorted_wrt_append case_prod_unfold)

lemma accepted_simps [simp]:
  "accepted (st\<lparr>vg_answers := served @ [(i, t, Inl err)]\<rparr>) = accepted (st\<lparr>vg_answers := served\<rparr>)"
  "accepted (st\<lparr>vg_answers := served @ [(i, t, Inr v)]\<rparr>) = accepted (st\<lparr>vg_answers := served\<rparr>) @ [(v, t)]"
  "accepted (st\<lparr>vg_guard := s\<rparr>) = accepted st" "accepted (st\<lparr>vg_pending := p\<rparr>) = accepted st"
  "accepted (st\<lparr>vg_next := n\<rparr>) = accepted st" "accepted (idle s) = []"
  by (simp_all add: accepted_def map_filter_def idle_def)

section \<open>A guard that is reached late\<close>

text \<open>
  \<open>held s i t\<close>: the guard refuses the identifier at the wall-clock time \<open>t\<close>. The contract of a
  guard whose calls carry a \<open>now\<close> that may be older than the time the call reaches it.
\<close>

locale concurrent_guard =
  fixes consume_at :: "instant \<Rightarrow> 's \<Rightarrow> uuid \<Rightarrow> instant \<Rightarrow> instant \<Rightarrow> 's \<times> (auth_error, bool) result"
    and inv :: "'s \<Rightarrow> bool"
    and held :: "'s \<Rightarrow> uuid \<Rightarrow> instant \<Rightarrow> bool"
  assumes late_inv: "inv s \<Longrightarrow> inv (fst (consume_at time s i e n))"
    and late_refused: "inv s \<Longrightarrow> held s i time \<Longrightarrow> n \<le> time \<Longrightarrow>
      snd (consume_at time s i e n) \<noteq> Inr True"
    and late_holds: "inv s \<Longrightarrow> snd (consume_at time s i e n) = Inr True \<Longrightarrow> n \<le> time \<Longrightarrow>
      time \<le> t \<Longrightarrow> t < e \<Longrightarrow> held (fst (consume_at time s i e n)) i t"
    and late_keeps: "inv s \<Longrightarrow> held s i t \<Longrightarrow> n \<le> time \<Longrightarrow> time \<le> t \<Longrightarrow>
      held (fst (consume_at time s j e n)) i t"

text \<open>A guard that keeps it keeps the contract of calls that are never late.\<close>

sublocale concurrent_guard \<subseteq> punctual: replay_guard "\<lambda>s i e n. consume_at n s i e n" inv held
  by unfold_locales (simp_all add: late_inv late_refused late_holds late_keeps)

context concurrent_guard
begin

text \<open>At the time \<open>t\<close> of the last step: who waits arrived by then, and who was accepted is held.\<close>

definition settled :: "instant \<Rightarrow> ('k, 's) verifying \<Rightarrow> bool" where
  "settled t st \<longleftrightarrow> inv (vg_guard st)
    \<and> (\<forall>(i, vf, e, now) \<in> set (vg_pending st). dt_wall now \<le> t)
    \<and> (\<forall>(v, t') \<in> set (accepted st). \<forall>t''. t \<le> t'' \<longrightarrow> t'' < expiry v \<longrightarrow>
          held (vg_guard st) (authorization_id v) t'')
    \<and> used_once (accepted st)"

lemma settled_idle: "inv s \<Longrightarrow> settled t (idle s)"
  by (simp add: settled_def) (simp add: idle_def used_once_def)

lemma settled_arrive:
  assumes "settled t st" "t \<le> dt_wall now"
  shows "settled (dt_wall now) (arrive edv dump_time vf e r now st)"
  using assms by (fastforce simp: settled_def arrive_def split: sum.splits)

lemma settled_consume:
  assumes "settled t st" "t \<le> time"
  shows "settled time (verify_step consume_at edv dump_time (Consume i time) st)"
proof (cases "dict_get (vg_pending st) i")
  case None
  with assms show ?thesis by (fastforce simp: settled_def)
next
  case (Some p)
  obtain vf e now where p: "p = (vf, e, now)" by (cases p)
  let ?i = "cl_authorization_id (ev_claims e)" and ?x = "cl_expires_at (ev_claims e)"
  let ?s = "fst (consume_at time (vg_guard st) ?i ?x (dt_wall now))"
  let ?st = "verify_step consume_at edv dump_time (Consume i time) st"
  have "(i, vf, e, now) \<in> set (vg_pending st)" using Some p by (auto dest: dict_get_in)
  then have now: "dt_wall now \<le> time" using assms by (fastforce simp: settled_def)
  have inv: "inv (vg_guard st)" using assms(1) by (simp add: settled_def)
  have guard: "vg_guard ?st = ?s" and pending: "set (vg_pending ?st) \<subseteq> set (vg_pending st)"
    using Some p by (auto simp: case_prod_unfold Let_def)
  have kept: "\<forall>(v, t') \<in> set (accepted st). \<forall>t''. time \<le> t'' \<longrightarrow> t'' < expiry v \<longrightarrow>
      held ?s (authorization_id v) t''"
    using assms late_keeps [OF inv _ now] by (fastforce simp: settled_def)
  show ?thesis
  proof (cases "snd (consume_verified (consume_at time) vf (vg_guard st) e now)")
    case (Inl err)
    have "accepted ?st = accepted st"
      using Some p Inl by (simp add: case_prod_unfold Let_def)
    then show ?thesis using assms kept pending guard late_inv [OF inv]
      by (fastforce simp: settled_def)
  next
    case (Inr v)
    then have new: "snd (consume_at time (vg_guard st) ?i ?x (dt_wall now)) = Inr True"
      and v: "authorization_id v = ?i" "expiry v = ?x"
      by (auto simp: consume_verified_Inr authorization_id_def)
    have acc: "accepted ?st = accepted st @ [(v, time)]"
      using Some p Inr by (simp add: case_prod_unfold Let_def)
    have "expiry v' \<le> time" if "(v', t') \<in> set (accepted st)" "authorization_id v' = authorization_id v"
      for v' t'
    proof (rule ccontr)
      assume "\<not> expiry v' \<le> time"
      with assms that have "held (vg_guard st) (authorization_id v') time"
        by (fastforce simp: settled_def)
      with late_refused [OF inv _ now] new v that show False by simp
    qed
    then have "used_once (accepted ?st)"
      using assms(1) unfolding acc used_once_snoc by (auto simp: settled_def)
    moreover have "held ?s ?i t''" if "time \<le> t''" "t'' < ?x" for t''
      using that by (rule late_holds [OF inv new now])
    ultimately show ?thesis
      using assms kept pending guard v late_inv [OF inv]
      unfolding settled_def acc by fastforce
  qed
qed

lemma settled_step:
  "settled t st \<Longrightarrow> t \<le> event_time ev \<Longrightarrow>
    settled (event_time ev) (verify_step consume_at edv dump_time ev st)"
  by (cases ev) (simp_all only: verify_step.simps(1) event_time.simps settled_arrive settled_consume)

lemma settled_run:
  "settled t st \<Longrightarrow> sorted (t # map event_time events) \<Longrightarrow>
    used_once (accepted (verify_run consume_at edv dump_time events st))"
proof (induction events arbitrary: t st)
  case Nil
  then show ?case by (simp add: verify_run_def settled_def)
next
  case (Cons ev events)
  from Cons.prems have "settled (event_time ev) (verify_step consume_at edv dump_time ev st)"
    by (auto intro: settled_step)
  with Cons.IH Cons.prems(2) show ?case by (simp add: verify_run_def)
qed

lemma single_use_interleaved:
  assumes "inv s" "sorted (map event_time events)"
  shows "used_once (accepted (verify_run consume_at edv dump_time events (idle s)))"
proof (cases events)
  case Nil
  then show ?thesis by (simp add: verify_run_def used_once_def)
next
  case (Cons ev rest)
  with assms show ?thesis
    by (intro settled_run [OF settled_idle, of s "event_time ev"]) simp_all
qed

end

section \<open>Both guards keep the contract\<close>

interpretation late_in_memory: concurrent_guard "\<lambda>_. im_consume" im_inv im_held
proof (unfold_locales, goal_cases)
  case (1 s time i e n)
  then show ?case by (rule im_consume_inv)
next
  case (2 s i time n e)
  then have "im_held s i n" by (auto simp: im_held_def split: option.splits)
  with 2 show ?case by (simp add: im_held_refused)
next
  case (3 s time i e n t)
  then show ?case by (intro in_memory_guard.holds) simp_all
next
  case (4 s i t n time j e)
  then show ?case by (intro im_consume_keeps) simp_all
qed

text \<open>A server whose clock is at the constant distance \<open>d\<close> from the replicas' clock.\<close>

interpretation late_redis: concurrent_guard
  "\<lambda>time. redis_consume set_nx pre (time + d)"
  "\<lambda>st. redis_laws set_nx alive"
  "\<lambda>st i t. alive st (t + d) (pre @ uuid_str i)"
  for set_nx pre d alive
proof (unfold_locales, goal_cases)
  case (1 s time i e n)
  then show ?case .
next
  case (2 s i time n e)
  then have "snd (set_nx s (time + d) (pre @ uuid_str i) (redis_ttl e n)) \<noteq> Some True"
    unfolding redis_laws_def by blast
  then show ?case by (auto simp: redis_consume_snd split: option.splits)
next
  case (3 s time i e n t)
  from 3(2) have "snd (set_nx s (time + d) (pre @ uuid_str i) (redis_ttl e n)) = Some True"
    by (simp add: redis_consume_snd split: option.splits)
  moreover have "t + d < time + d + seconds (redis_ttl e n)" using ttl_covers [of e n] 3(3,5) by simp
  ultimately show ?case
    using 3(1,4) unfolding redis_laws_def redis_consume_fst by simp
next
  case (4 s i t n time j e)
  then show ?case by (simp add: redis_laws_def redis_consume_fst)
qed

lemma interleaved_in_memory:
  "InMemoryGuard m = Inr g \<Longrightarrow> sorted (map event_time events) \<Longrightarrow>
    used_once (accepted (verify_run (\<lambda>_. im_consume) edv dump_time events (idle g)))"
  by (intro late_in_memory.single_use_interleaved fresh_guard_inv)

section \<open>Properties\<close>

text \<open>
  Single use under concurrency: however the checks and consumptions of any number of requests
  interleave, on any number of replicas sharing a documented Redis server, and however long each
  request waits between its checks and its consumption, a request that is accepted with the
  identifier of an earlier accepted one was consumed at or after the expiry of the earlier one.
\<close>

theorem interleaved_single_use:
  assumes "redis_laws set_nx alive" and "sorted (map event_time events)"
  shows "used_once (accepted
    (verify_run (\<lambda>time. redis_consume set_nx pre (time + d)) edv dump_time events (idle st)))"
  using assms by (rule late_redis.single_use_interleaved)

theorem interleaved_single_use_witness:
  "used_once (accepted (verify_run (\<lambda>time. redis_consume model_set ''p:'' (time + 0)) sample_edv sample_dump
    [Arrive (sample_verifier 0) sample_envelope readme_request (utc 1784721600000000),
     Arrive (sample_verifier 0) sample_envelope readme_request (utc 1784721600000001),
     Consume 1 1784721600000002, Consume 0 1784721600000003] (idle [])))"
  by (rule interleaved_single_use [OF model_laws]) (simp add: utc_def)

text \<open>A key that is set is gone when its seconds have passed: the other half of \<open>EX\<close>.\<close>

definition redis_expires :: "'r redis_set \<Rightarrow> ('r \<Rightarrow> instant \<Rightarrow> string \<Rightarrow> bool) \<Rightarrow> bool" where
  "redis_expires set_nx alive \<longleftrightarrow> (\<forall>st t k ex t'. snd (set_nx st t k ex) = Some True \<longrightarrow>
    t + seconds ex \<le> t' \<longrightarrow> \<not> alive (fst (set_nx st t k ex)) t' k)"

lemma model_expires: "redis_expires model_set model_alive"
  by (auto simp: redis_expires_def model_set_def model_alive_def dict_get_set split: option.splits if_splits)

lemma redis_consume_fresh:
  assumes "redis_laws set_nx alive" and "\<not> alive st t (pre @ uuid_str i)"
    and "snd (set_nx st t (pre @ uuid_str i) (redis_ttl x n)) \<noteq> None"
  shows "snd (set_nx st t (pre @ uuid_str i) (redis_ttl x n)) = Some True"
    and "snd (redis_consume set_nx pre t st i x n) = Inr True"
proof -
  show "snd (set_nx st t (pre @ uuid_str i) (redis_ttl x n)) = Some True"
    using assms unfolding redis_laws_def by fastforce
  then show "snd (redis_consume set_nx pre t st i x n) = Inr True" by (simp add: redis_consume_snd)
qed

text \<open>
  C19. The bound is reached, with or without clock skew: two requests present the same authorization
  in time; the first is consumed; the second waits, for instance for the control store, until the
  key the first one set has expired, and is then accepted as well, on the strength of the \<open>now\<close> it
  arrived with.
\<close>

theorem delayed_consumption_replays:
  assumes "redis_laws set_nx alive" and "redis_expires set_nx alive"
    and "verify_checks edv dump_time vf e r now = Inr ()"
    and "verify_checks edv dump_time vf e r now' = Inr ()"
    and "i = cl_authorization_id (ev_claims e)" and "x = cl_expires_at (ev_claims e)"
    and "\<not> alive st t (pre @ uuid_str i)"
    and "t + seconds (redis_ttl x (dt_wall now)) \<le> t'"
    and "\<And>st t k ex. snd (set_nx st t k ex) \<noteq> None"
  shows "map (authorization_id \<circ> fst) (accepted (verify_run (redis_consume set_nx pre) edv dump_time
    [Arrive vf e r now, Arrive vf e r now', Consume 0 t, Consume 1 t'] (idle st))) = [i, i]"
proof -
  note fresh = redis_consume_fresh [OF assms(1) _ assms(9)]
  let ?st = "fst (redis_consume set_nx pre t st i x (dt_wall now))"
  have first: "snd (redis_consume set_nx pre t st i x (dt_wall now)) = Inr True"
    using assms(7) by (rule fresh(2))
  have "\<not> alive ?st t' (pre @ uuid_str i)"
    using assms(2,8) fresh(1) [OF assms(7), of x "dt_wall now"]
    unfolding redis_expires_def redis_consume_fst by blast
  then have second: "snd (redis_consume set_nx pre t' ?st i x (dt_wall now')) = Inr True" by (rule fresh(2))
  obtain v where "snd (consume_verified (redis_consume set_nx pre t) vf st e now) = Inr v"
      "authorization_id v = i"
    using first assms(5,6) by (auto simp: consume_verified_Inr authorization_id_def)
  moreover obtain v' where "snd (consume_verified (redis_consume set_nx pre t') vf ?st e now') = Inr v'"
      "authorization_id v' = i"
    using second assms(5,6) by (auto simp: consume_verified_Inr authorization_id_def)
  ultimately show ?thesis
    using assms(3-6) by (simp add: verify_run_def arrive_def idle_def accepted_def case_prod_unfold Let_def)
qed

text \<open>The second request arrives a second before the expiry and is consumed two seconds after it.\<close>

theorem delayed_consumption_replays_witness:
  "map (authorization_id \<circ> fst) (accepted (verify_run (redis_consume model_set ''p:'') sample_edv sample_dump
    [Arrive (sample_verifier 0) sample_envelope readme_request (utc 1784721898000000),
     Arrive (sample_verifier 0) sample_envelope readme_request (utc 1784721899000000),
     Consume 0 1784721899500000, Consume 1 1784721902000000] (idle []))) =
   [cl_authorization_id sample_claims, cl_authorization_id sample_claims]"
proof -
  have checks: "verify_checks sample_edv sample_dump (sample_verifier 0) sample_envelope readme_request (utc t)
      = Inr ()" if "1784721600000000 \<le> t" "t < 1784721900000000" for t
    using sample_authorized [of t 0] that by (simp add: verify_checks_iff utc_def)
  have claims: "ev_claims sample_envelope = sample_claims" by (simp add: sample_envelope_def)
  have ttl: "redis_ttl 1784721900000000 1784721898000000 = 2" by code_simp
  have replies: "snd (model_set st t k ex) \<noteq> None" for st t k ex
    by (auto simp: model_set_def split: option.splits)
  show ?thesis
    by (rule delayed_consumption_replays [where i = "cl_authorization_id sample_claims"
          and x = 1784721900000000, OF model_laws model_expires checks checks _ _ _ _ replies])
      (simp_all add: claims utc_def model_alive_def ttl, simp_all add: sample_claims_def)
qed

end
