(* ===== verification/Concurrent_Service.thy ===== *)
theory Concurrent_Service
  imports Concurrent_Verification Http_Properties
begin

text \<open>
  The service with requests in flight. Between the checks of an authorization and its consumption
  the handler of \<open>POST /route\<close> gives way: other requests arrive, are answered, and the policy is
  reloaded before it resumes.

  \<^item> The handler is split at that await, and shown to be \<open>route_handler\<close> when nothing comes between.
  \<^item> Whatever comes between, an authorization earns one decision before its expiry, with any guard
    that keeps the contract of \<open>concurrent_guard\<close>; and a decision is made with the policy that was
    active when its request arrived, as FastAPI resolves the use case before it calls the handler.

  A request is given as the handler gets it: its body parsed, past the middleware.
\<close>

section \<open>The two halves of the handler\<close>

text \<open>\<open>authorize\<close> up to the consumption: the verifier and the envelope the handler waits with.\<close>

definition check_authorization ::
  "('k, 'l, 'g) ports \<Rightarrow> call_env \<Rightarrow> instant envelope option \<Rightarrow> route_request
    \<Rightarrow> ('k, 'l, 'g, ('k verifier \<times> instant envelope) option) action" where
  "check_authorization pt env authorization request = (\<lambda>(sv, rs).
    if sv_authorization_required sv then
      (case authorization of
         None \<Rightarrow> ((sv, rs), Inl (AuthorizationFailure (denied ''runtime_authorization_required''
           ''Signed Governance runtime authorization is required'')))
       | Some a \<Rightarrow>
         (case sv_verifier sv of
            None \<Rightarrow> ((sv, rs), Inl (AuthorizationFailure (denied ''runtime_authorization_unavailable''
              ''Runtime authorization verifier is unavailable'')))
          | Some vf \<Rightarrow>
            (case verify_checks (pt_edv pt) (pt_dump_time pt) vf a request (ce_now env) of
               Inl e \<Rightarrow> ((sv, rs), Inl (AuthorizationFailure e))
             | Inr _ \<Rightarrow> ((sv, rs), Inr (Some (vf, a))))))
    else if authorization \<noteq> None then
      ((sv, rs), Inl (AuthorizationFailure (denied ''runtime_authorization_not_configured''
        ''Runtime authorization is disabled for this deployment'')))
    else ((count [RuntimeAuthorizations ''legacy_dev''] sv, rs), Inr None))"

definition consume_authorization ::
  "'g consume \<Rightarrow> call_env \<Rightarrow> 'k verifier \<Rightarrow> instant envelope
    \<Rightarrow> ('k, 'l, 'g, verified_authorization) action" where
  "consume_authorization consume env vf a = (\<lambda>(sv, rs).
    (case consume_verified consume vf (sv_guard sv) a (ce_now env) of
       (g, Inl e) \<Rightarrow> ((sv\<lparr>sv_guard := g\<rparr>, rs), Inl (AuthorizationFailure e))
     | (g, Inr verified) \<Rightarrow>
         ((count [RuntimeAuthorizations ''verified''] (sv\<lparr>sv_guard := g\<rparr>),
           rs\<lparr>rs_authorization_verified := True\<rparr>), Inr verified)))"

definition admit_request ::
  "('k, 'l, 'g) ports \<Rightarrow> call_env \<Rightarrow> string \<Rightarrow> string option \<Rightarrow> instant route_envelope
    \<Rightarrow> ('k, 'l, 'g, ('k verifier \<times> instant envelope) option) action" where
  "admit_request pt env host x_api_key body = (\<lambda>(sv, rs).
    (let route_request = body_request body;
         authorization = body_authorization body;
         request = to_domain_request route_request
     in then_do (limit_agent pt env (host @ '':'' @ wq_agent_name route_request)) (\<lambda>_.
        then_do (\<lambda>(sv, rs). ((sv, rs), authenticate x_api_key (wq_agent_name route_request) (sv_api_keys sv))) (\<lambda>_.
        check_authorization pt env authorization request))
        (sv, remember request authorization rs)))"

definition conclude ::
  "('k, 'l, 'g) ports \<Rightarrow> call_env \<Rightarrow> route_use_case \<Rightarrow> instant route_envelope
    \<Rightarrow> verified_authorization option \<Rightarrow> ('k, 'l, 'g, wire_decision) action" where
  "conclude pt env use_case body verified =
    (let route_request = body_request body; request = to_domain_request route_request
     in then_do (decide pt env use_case request (wq_include_rejected_candidates route_request)) (\<lambda>decision.
        then_do (require_signed_scope verified decision) (\<lambda>_.
        answer use_case request decision)))"

section \<open>Requests in flight\<close>

record 'k handling =
  hd_request_state :: request_state
  hd_use_case :: route_use_case
  hd_body :: "instant route_envelope"
  hd_env :: call_env
  hd_verifier :: "'k verifier"
  hd_authorization :: "instant envelope"

text \<open>A reply, with the authorization that was verified and consumed for it, and when.\<close>

type_synonym replied = "nat \<times> instant \<times> verified_authorization option \<times> reply"

record ('k, 'l, 'g) busy =
  bz_service :: "('k, 'l, 'g) service"
  bz_waiting :: "(nat \<times> 'k handling) list"
  bz_replies :: "replied list"
  bz_next :: nat

datatype service_event =
    Begin call_env string "string option" "instant route_envelope" string
  | Resume nat instant
  | Reload "bytes option"

definition reply_of ::
  "('k, 'l, 'g) ports \<Rightarrow> call_env \<Rightarrow> ('k, 'l, 'g) handling_state \<times> (service_error, wire_decision) result
    \<Rightarrow> ('k, 'l, 'g) service \<times> reply" where
  "reply_of pt env outcome =
    (case outcome of (c, Inr d) \<Rightarrow> (fst c, DecisionReply d) | (c, Inl e) \<Rightarrow> handle_error pt env e c)"

definition begin_request ::
  "('k, 'l, 'g) ports \<Rightarrow> call_env \<Rightarrow> string \<Rightarrow> string option \<Rightarrow> instant route_envelope \<Rightarrow> string
    \<Rightarrow> ('k, 'l, 'g) busy \<Rightarrow> ('k, 'l, 'g) busy" where
  "begin_request pt env host x_api_key body correlation_id st =
    (let sv = bz_service st; use_case = sv_use_case sv; i = bz_next st; st = st\<lparr>bz_next := Suc i\<rparr>;
         respond_now = (\<lambda>(sv, reply). st\<lparr>bz_service := sv,
           bz_replies := bz_replies st @ [(i, dt_wall (ce_now env), None, reply)]\<rparr>)
     in case admit_request pt env host x_api_key body (sv, initial_request_state correlation_id) of
          (c, Inl e) \<Rightarrow> respond_now (handle_error pt env e c)
        | (c, Inr None) \<Rightarrow> respond_now (reply_of pt env (conclude pt env use_case body None c))
        | (c, Inr (Some (vf, a))) \<Rightarrow>
            st\<lparr>bz_service := fst c,
               bz_waiting := bz_waiting st @ [(i, \<lparr>hd_request_state = snd c, hd_use_case = use_case,
                 hd_body = body, hd_env = env, hd_verifier = vf, hd_authorization = a\<rparr>)]\<rparr>)"

definition resume_request ::
  "('k, 'l, 'g) ports \<Rightarrow> 'g consume \<Rightarrow> 'k handling \<Rightarrow> ('k, 'l, 'g) service
    \<Rightarrow> ('k, 'l, 'g) service \<times> verified_authorization option \<times> reply" where
  "resume_request pt consume h sv =
    (case consume_authorization consume (hd_env h) (hd_verifier h) (hd_authorization h)
        (sv, hd_request_state h) of
       (c, Inl e) \<Rightarrow> (let (sv', reply) = handle_error pt (hd_env h) e c in (sv', None, reply))
     | (c, Inr verified) \<Rightarrow>
         (let (sv', reply) = reply_of pt (hd_env h)
            (conclude pt (hd_env h) (hd_use_case h) (hd_body h) (Some verified) c)
          in (sv', Some verified, reply)))"

fun service_event_step ::
  "('k, 'l, 'g) ports \<Rightarrow> 'g consume_at \<Rightarrow> (string \<Rightarrow> (yaml_exc, 'o) result) \<Rightarrow>
    ('o \<Rightarrow> policy_config option) \<Rightarrow> service_event \<Rightarrow> ('k, 'l, 'g) busy \<Rightarrow> ('k, 'l, 'g) busy" where
  "service_event_step pt consume_at yaml_load coerce (Begin env host x_api_key body correlation_id) st =
    begin_request pt env host x_api_key body correlation_id st"
| "service_event_step pt consume_at yaml_load coerce (Resume i time) st =
    (case dict_get (bz_waiting st) i of
       None \<Rightarrow> st
     | Some h \<Rightarrow>
         (let (sv, verified, reply) = resume_request pt (consume_at time) h (bz_service st)
          in st\<lparr>bz_service := sv, bz_waiting := filter (\<lambda>(j, h). j \<noteq> i) (bz_waiting st),
                bz_replies := bz_replies st @ [(i, time, verified, reply)]\<rparr>))"
| "service_event_step pt consume_at yaml_load coerce (Reload content) st =
    st\<lparr>bz_service := fst (reload_routing_policy yaml_load coerce content (bz_service st))\<rparr>"

definition service_run ::
  "('k, 'l, 'g) ports \<Rightarrow> 'g consume_at \<Rightarrow> (string \<Rightarrow> (yaml_exc, 'o) result) \<Rightarrow>
    ('o \<Rightarrow> policy_config option) \<Rightarrow> service_event list \<Rightarrow> ('k, 'l, 'g) busy \<Rightarrow> ('k, 'l, 'g) busy" where
  "service_run pt consume_at yaml_load coerce events st =
    fold (service_event_step pt consume_at yaml_load coerce) events st"

definition unused :: "('k, 'l, 'g) service \<Rightarrow> ('k, 'l, 'g) busy" where
  "unused sv = \<lparr>bz_service = sv, bz_waiting = [], bz_replies = [], bz_next = 0\<rparr>"

text \<open>The wall clock at the steps that read it.\<close>

fun clock_times :: "service_event list \<Rightarrow> instant list" where
  "clock_times [] = []"
| "clock_times (Begin env host x_api_key body correlation_id # es) = dt_wall (ce_now env) # clock_times es"
| "clock_times (Resume i time # es) = time # clock_times es"
| "clock_times (Reload content # es) = clock_times es"

section \<open>Without interleaving\<close>

lemma then_do_assoc: "then_do (then_do m f) g = then_do m (\<lambda>x. then_do (f x) g)"
  by (simp add: then_do_def fun_eq_iff split: prod.splits sum.splits)

lemma authorize_halves:
  "authorize pt env authorization request =
    then_do (check_authorization pt env authorization request) (\<lambda>w. case w of
        None \<Rightarrow> (\<lambda>c. (c, Inr None))
      | Some (vf, a) \<Rightarrow> then_do (consume_authorization (pt_consume pt) env vf a) (\<lambda>v c. (c, Inr (Some v))))"
  by (auto simp: fun_eq_iff authorize_def check_authorization_def consume_authorization_def then_do_def
      verify_eq_steps split: option.splits sum.splits prod.splits)

lemma handler_halves:
  "route_handler pt env use_case host x_api_key body =
    then_do (admit_request pt env host x_api_key body) (\<lambda>w. case w of
        None \<Rightarrow> conclude pt env use_case body None
      | Some (vf, a) \<Rightarrow> then_do (consume_authorization (pt_consume pt) env vf a)
          (\<lambda>v. conclude pt env use_case body (Some v)))"
proof -
  have tail: "then_do (case w of
        None \<Rightarrow> (\<lambda>c. (c, Inr None))
      | Some (vf, a) \<Rightarrow> then_do (consume_authorization (pt_consume pt) env vf a) (\<lambda>v c. (c, Inr (Some v)))) f =
    (case w of None \<Rightarrow> f None
      | Some (vf, a) \<Rightarrow> then_do (consume_authorization (pt_consume pt) env vf a) (\<lambda>v. f (Some v)))"
    for w and f :: "verified_authorization option \<Rightarrow> ('a, 'b, 'c, wire_decision) action"
    by (cases w) (auto simp: then_do_def fun_eq_iff split: prod.splits sum.splits)
  have lift: "(\<lambda>(sv, rs). then_do m f (sv, g rs)) = then_do (\<lambda>(sv, rs). m (sv, g rs)) f"
    for m f and g :: "request_state \<Rightarrow> request_state"
    by (auto simp: then_do_def fun_eq_iff)
  show ?thesis
    unfolding route_handler_def admit_request_def Let_def authorize_halves then_do_assoc tail lift
      conclude_def ..
qed

section \<open>The guard's view of a busy service\<close>

definition consumed_for :: "replied list \<Rightarrow> (verified_authorization \<times> instant) list" where
  "consumed_for replies = List.map_filter (\<lambda>(i, time, verified, reply).
    map_option (\<lambda>v. (v, time)) verified) replies"

text \<open>The authorizations that earned a decision, with the time each was consumed.\<close>

definition decided :: "('k, 'l, 'g) busy \<Rightarrow> (verified_authorization \<times> instant) list" where
  "decided st = List.map_filter (\<lambda>(i, time, verified, reply).
    case reply of DecisionReply d \<Rightarrow> map_option (\<lambda>v. (v, time)) verified | _ \<Rightarrow> None) (bz_replies st)"

text \<open>The verifications among what the service does.\<close>

definition in_flight :: "('k, 'l, 'g) busy \<Rightarrow> ('k, 'g) verifying" where
  "in_flight st =
    \<lparr>vg_guard = sv_guard (bz_service st),
     vg_pending = map (\<lambda>(i, h). (i, hd_verifier h, hd_authorization h, ce_now (hd_env h))) (bz_waiting st),
     vg_answers = map (\<lambda>(v, time). (0, time, Inr v)) (consumed_for (bz_replies st)),
     vg_next = bz_next st\<rparr>"

definition alike :: "('k, 's) verifying \<Rightarrow> ('k, 's) verifying \<Rightarrow> bool" where
  "alike a b \<longleftrightarrow> vg_guard a = vg_guard b \<and> vg_pending a = vg_pending b \<and> accepted a = accepted b"

lemma map_filter_append [simp]: "List.map_filter f (xs @ ys) = List.map_filter f xs @ List.map_filter f ys"
  by (simp add: map_filter_def)

lemma accepted_in_flight [simp]: "accepted (in_flight st) = consumed_for (bz_replies st)"
  by (simp add: accepted_def in_flight_def map_filter_def comp_def case_prod_unfold)

abbreviation waiting_for :: "'k handling \<Rightarrow> 'k verifier \<times> instant envelope \<times> datetime" where
  "waiting_for h \<equiv> (hd_verifier h, hd_authorization h, ce_now (hd_env h))"

lemma in_flight_simps [simp]:
  "vg_guard (in_flight st) = sv_guard (bz_service st)"
  "vg_pending (in_flight st) = map (\<lambda>(i, h). (i, waiting_for h)) (bz_waiting st)"
  by (simp_all add: in_flight_def)

lemma consumed_for_simps [simp]:
  "consumed_for [] = []" "consumed_for (rs @ [(i, time, None, reply)]) = consumed_for rs"
  "consumed_for (rs @ [(i, time, Some v, reply)]) = consumed_for rs @ [(v, time)]"
  by (simp_all add: consumed_for_def)

lemma map_filter_sub:
  assumes "\<And>x y. f x = Some y \<Longrightarrow> g x = Some y"
  shows "set (List.map_filter f xs) \<subseteq> set (List.map_filter g xs)
    \<and> (sorted_wrt P (List.map_filter g xs) \<longrightarrow> sorted_wrt P (List.map_filter f xs))"
proof (induction xs)
  case (Cons x xs)
  then show ?case using assms [of x] by (cases "f x"; cases "g x") auto
qed simp

lemma used_once_decided:
  assumes "used_once (consumed_for (bz_replies st))"
  shows "used_once (decided st)"
  using assms unfolding used_once_def decided_def consumed_for_def
  by (rule mp [OF conjunct2 [OF map_filter_sub], rotated]) (auto split: reply.splits)

text \<open>Statements that leave the guard alone.\<close>

definition keeps_guard :: "('k, 'l, 'g, 'a) action \<Rightarrow> bool" where
  "keeps_guard m \<longleftrightarrow> (\<forall>c. sv_guard (fst (fst (m c))) = sv_guard (fst c))"

lemma keeps_guard_then: "keeps_guard m \<Longrightarrow> (\<And>x. keeps_guard (f x)) \<Longrightarrow> keeps_guard (then_do m f)"
  unfolding keeps_guard_def then_do_def
  by (simp add: case_prod_unfold del: split_paired_All split: sum.split)

lemma keeps_guard_steps:
  "keeps_guard (limit_agent pt env key)" "keeps_guard (check_authorization pt env a q)"
  "keeps_guard (\<lambda>(sv, rs). ((sv, rs), authenticate k agent (sv_api_keys sv)))"
  "keeps_guard (decide pt env uc q inc)" "keeps_guard (require_signed_scope v d)" "keeps_guard (answer uc q d)"
  by (auto simp: keeps_guard_def limit_agent_def check_authorization_def decide_def require_signed_scope_def
      answer_def Let_def case_prod_unfold split: option.splits sum.splits)

lemma conclude_guard: "keeps_guard (conclude pt env uc body v)"
  unfolding conclude_def Let_def by (intro keeps_guard_then keeps_guard_steps)

lemma admit_guard: "sv_guard (fst (fst (admit_request pt env host k body c))) = sv_guard (fst c)"
proof -
  have "keeps_guard (then_do (limit_agent pt env key) (\<lambda>_.
      then_do (\<lambda>(sv, rs). ((sv, rs), authenticate k agent (sv_api_keys sv))) (\<lambda>_.
      check_authorization pt env a q)))" for key agent a q
    by (intro keeps_guard_then keeps_guard_steps)
  then show ?thesis
    unfolding keeps_guard_def admit_request_def Let_def by (cases c) simp
qed

lemma handle_error_guard: "sv_guard (fst (handle_error pt env e c)) = sv_guard (fst c)"
  by (cases c) (auto simp: handle_error_def handle_runtime_authorization_error_def Let_def
      split: service_error.splits auth_error.splits route_error.splits sum.splits option.splits)

lemma reply_of_guard:
  "sv_guard (fst (reply_of pt env (conclude pt env uc body v c))) = sv_guard (fst c)"
proof -
  obtain c' r where m: "conclude pt env uc body v c = (c', r)" by fastforce
  then have "sv_guard (fst c') = sv_guard (fst c)"
    using conclude_guard [of pt env uc body v] by (metis fst_conv keeps_guard_def)
  with m handle_error_guard [of pt env _ c'] show ?thesis by (cases r) (simp_all add: reply_of_def)
qed

section \<open>Every step is a step of the verifications\<close>

lemma begin_alike:
  "alike (in_flight (begin_request pt env host k body cid st)) (in_flight st)
   \<or> (\<exists>vf a. alike (in_flight (begin_request pt env host k body cid st))
        ((in_flight st)\<lparr>vg_pending := vg_pending (in_flight st) @ [(bz_next st, vf, a, ce_now env)]\<rparr>))"
proof -
  obtain c r where m: "admit_request pt env host k body (bz_service st, initial_request_state cid) = (c, r)"
    by fastforce
  then have g: "sv_guard (fst c) = sv_guard (bz_service st)"
    using admit_guard [of pt env host k body "(bz_service st, initial_request_state cid)"] by simp
  show ?thesis
  proof (cases r)
    case (Inl e)
    then show ?thesis
      using m g handle_error_guard [of pt env e c]
      by (simp add: begin_request_def alike_def case_prod_unfold Let_def)
  next
    case (Inr w)
    then show ?thesis
      using m g reply_of_guard [of pt env "sv_use_case (bz_service st)" body None c]
      by (cases w)
        (auto simp: begin_request_def alike_def case_prod_unfold Let_def)
  qed
qed

lemma waiting_get:
  "dict_get (map (\<lambda>(i, h). (i, waiting_for h)) d) k = map_option waiting_for (dict_get d k)"
  by (induction d) auto

lemma waiting_filter:
  "filter (\<lambda>(j, p). j \<noteq> i) (map (\<lambda>(i, h). (i, waiting_for h)) d) =
    map (\<lambda>(i, h). (i, waiting_for h)) (filter (\<lambda>(j, h). j \<noteq> i) d)"
  by (induction d) auto

lemma resume_effect:
  "resume_request pt consume h sv = (sv', v, reply) \<Longrightarrow>
    sv_guard sv' = fst (consume_verified consume (hd_verifier h) (sv_guard sv) (hd_authorization h) (ce_now (hd_env h)))
    \<and> (case snd (consume_verified consume (hd_verifier h) (sv_guard sv) (hd_authorization h) (ce_now (hd_env h))) of
         Inl e \<Rightarrow> v = None | Inr x \<Rightarrow> v = Some x)"
  by (cases "consume_verified consume (hd_verifier h) (sv_guard sv) (hd_authorization h) (ce_now (hd_env h))")
    (auto simp: resume_request_def consume_authorization_def case_prod_unfold Let_def handle_error_guard
      reply_of_guard split: sum.splits)

lemma resume_alike:
  "alike (in_flight (service_event_step pt consume_at yaml_load coerce (Resume i time) st))
    (verify_step consume_at edv dump_time (Consume i time) (in_flight st))"
proof (cases "dict_get (bz_waiting st) i")
  case None
  then show ?thesis by (simp add: alike_def waiting_get)
next
  case (Some h)
  obtain sv' v reply where r: "resume_request pt (consume_at time) h (bz_service st) = (sv', v, reply)"
    by (metis prod.exhaust)
  obtain g a where c: "consume_verified (consume_at time) (hd_verifier h) (sv_guard (bz_service st))
      (hd_authorization h) (ce_now (hd_env h)) = (g, a)" by fastforce
  show ?thesis
    using Some resume_effect [OF r]
    by (cases a) (simp_all add: alike_def r waiting_get waiting_filter c del: consume_verified_fst)
qed

lemma reload_guard [simp]:
  "sv_guard (fst (reload_routing_policy yaml_load coerce content sv)) = sv_guard sv"
  by (simp add: reload_cases split: sum.splits)

context concurrent_guard
begin

lemma settled_alike: "alike a b \<Longrightarrow> settled t a \<longleftrightarrow> settled t b"
  by (simp add: alike_def settled_def)

lemma settled_wait:
  assumes "settled t st" "t \<le> dt_wall now"
  shows "settled (dt_wall now) st"
    and "settled (dt_wall now) (st\<lparr>vg_pending := vg_pending st @ [(i, vf, a, now)]\<rparr>)"
  using assms by (fastforce simp: settled_def)+

lemma settled_service_run:
  "settled t (in_flight st) \<Longrightarrow> sorted (t # clock_times events) \<Longrightarrow>
    used_once (decided (service_run pt consume_at yaml_load coerce events st))"
proof (induction events arbitrary: t st)
  case Nil
  then show ?case by (simp add: service_run_def settled_def used_once_decided)
next
  case (Cons ev events)
  let ?st = "service_event_step pt consume_at yaml_load coerce ev st"
  note run = service_run_def fold_Cons comp_apply
  show ?case
  proof (cases ev)
    case (Begin env host k body cid)
    with Cons.prems have "settled (dt_wall (ce_now env)) (in_flight ?st)"
      using begin_alike [of pt env host k body cid st] settled_wait [of t "in_flight st" "ce_now env"]
      by (auto simp: settled_alike)
    with Cons Begin show ?thesis by (auto simp: run)
  next
    case (Resume i time)
    with Cons.prems have
      "settled time (verify_step consume_at (pt_edv pt) (pt_dump_time pt) (Consume i time) (in_flight st))"
      by (intro settled_consume) auto
    then have "settled time (in_flight ?st)"
      unfolding Resume by (rule iffD2 [OF settled_alike [OF resume_alike]])
    with Cons Resume show ?thesis by (auto simp: run)
  next
    case (Reload content)
    then have "alike (in_flight ?st) (in_flight st)" by (simp add: alike_def)
    with Cons.prems(1) have "settled t (in_flight ?st)" by (simp add: settled_alike)
    with Cons Reload show ?thesis by (auto simp: run)
  qed
qed

lemma single_use_served:
  assumes "inv (sv_guard sv)" "sorted (clock_times events)"
  shows "used_once (decided (service_run pt consume_at yaml_load coerce events (unused sv)))"
proof -
  obtain t where t: "sorted (t # clock_times events)"
    using assms(2) by (cases "clock_times events") (auto intro: that [of 0] that)
  have "settled t (in_flight (unused sv))"
    using assms(1) by (simp add: settled_def) (simp add: unused_def used_once_def)
  from settled_service_run [OF this t] show ?thesis .
qed

end

section \<open>The policy of a decision\<close>

text \<open>The policy a decision names.\<close>

abbreviation names_policy :: "wire_decision \<Rightarrow> route_use_case \<Rightarrow> bool" where
  "names_policy d uc \<equiv> [wd_policy_id d, wd_policy_version d, wd_policy_digest d] =
    [rp_policy_id (uc_policy uc), rp_policy_version (uc_policy uc), rp_policy_digest (uc_policy uc)]"

lemma conclude_policy:
  assumes "conclude pt env uc body v c = (c', Inr d)"
  shows "names_policy d uc"
proof -
  obtain sv rs where c: "c = (sv, rs)" by (cases c)
  let ?q = "to_domain_request (body_request body)"
  from assms obtain dd where dd: "route uc (pt_resolve pt) (ce_decision_id env) (ce_decided_at env) ?q
        (wq_include_rejected_candidates (body_request body)) = Inr dd"
    and d: "from_domain_decision dd = Inr d"
    by (auto simp: conclude_def Let_def then_do_Inr c decide_def answer_def split: sum.splits)
  from d have "wd_policy_id d = rd_policy_id dd \<and> wd_policy_version d = rd_policy_version dd
      \<and> wd_policy_digest d = rd_policy_digest dd"
    by (auto simp: from_domain_decision_def result_iffs)
  with dd route_provenance [of uc ?q "ce_decision_id env" "ce_decided_at env" "pt_resolve pt"
      "wq_include_rejected_candidates (body_request body)"]
  show ?thesis by (simp add: carries_provenance_def)
qed

text \<open>The request numbered \<open>i\<close> was resolved to the use case \<open>uc\<close>.\<close>

definition resolved :: "nat \<Rightarrow> route_use_case \<Rightarrow> ('k, 'l, 'g) busy \<Rightarrow> bool" where
  "resolved i uc st \<longleftrightarrow> i < bz_next st \<and> (\<forall>h. (i, h) \<in> set (bz_waiting st) \<longrightarrow> hd_use_case h = uc)
    \<and> (\<forall>t v d. (i, t, v, DecisionReply d) \<in> set (bz_replies st) \<longrightarrow>
        names_policy d uc)"

definition numbered :: "('k, 'l, 'g) busy \<Rightarrow> bool" where
  "numbered st \<longleftrightarrow> (\<forall>(i, h) \<in> set (bz_waiting st). i < bz_next st)
    \<and> (\<forall>(i, r) \<in> set (bz_replies st). i < bz_next st)"

lemma reply_of_decides:
  "reply_of pt env (conclude pt env uc body v c) = (sv, DecisionReply d) \<Longrightarrow>
    names_policy d uc"
proof -
  assume r: "reply_of pt env (conclude pt env uc body v c) = (sv, DecisionReply d)"
  obtain c' o' where m: "conclude pt env uc body v c = (c', o')" by fastforce
  with r have "o' = Inr d"
    using handle_error_decides [of pt env _ c' d] by (cases o') (auto simp: reply_of_def, metis snd_conv)
  with m show ?thesis by (intro conclude_policy) simp
qed

lemma begin_effect:
  fixes st :: "('k, 'l, 'g) busy"
  defines "uc \<equiv> sv_use_case (bz_service st)"
  obtains (Replied) t reply where
    "bz_waiting (begin_request pt env host k body cid st) = bz_waiting st"
    "bz_replies (begin_request pt env host k body cid st) = bz_replies st @ [(bz_next st, t, None, reply)]"
    "bz_next (begin_request pt env host k body cid st) = Suc (bz_next st)"
    "\<And>d. reply = DecisionReply d \<Longrightarrow> names_policy d uc"
  | (Waits) h where
    "bz_waiting (begin_request pt env host k body cid st) = bz_waiting st @ [(bz_next st, h)]"
    "bz_replies (begin_request pt env host k body cid st) = bz_replies st"
    "bz_next (begin_request pt env host k body cid st) = Suc (bz_next st)" "hd_use_case h = uc"
proof -
  obtain c r where m: "admit_request pt env host k body (bz_service st, initial_request_state cid) = (c, r)"
    by fastforce
  show ?thesis
  proof (cases r)
    case (Inl e)
    obtain sv reply where h: "handle_error pt env e c = (sv, reply)" by fastforce
    have "\<forall>d. reply \<noteq> DecisionReply d" using handle_error_decides [of pt env e c] h by simp
    then show ?thesis
      by (intro Replied [of "dt_wall (ce_now env)" reply])
        (use m Inl h in \<open>auto simp: begin_request_def Let_def\<close>)
  next
    case (Inr w)
    show ?thesis
    proof (cases w)
      case None
      obtain sv reply where h: "reply_of pt env (conclude pt env uc body None c) = (sv, reply)" by fastforce
      show ?thesis
        by (rule Replied [of "dt_wall (ce_now env)" reply])
          (use m Inr None h reply_of_decides [of pt env uc body None c sv] in
            \<open>simp_all add: begin_request_def Let_def uc_def\<close>)
    next
      case (Some p)
      show ?thesis
        by (rule Waits)
          (use m Inr Some in \<open>simp_all add: begin_request_def Let_def case_prod_unfold uc_def\<close>, simp)
    qed
  qed
qed

lemma resume_decides:
  "resume_request pt consume h sv = (sv', v, DecisionReply d) \<Longrightarrow> names_policy d (hd_use_case h)"
proof -
  assume r: "resume_request pt consume h sv = (sv', v, DecisionReply d)"
  obtain c o' where m: "consume_authorization consume (hd_env h) (hd_verifier h) (hd_authorization h)
      (sv, hd_request_state h) = (c, o')" by fastforce
  show ?thesis
  proof (cases o')
    case (Inl e)
    with m r handle_error_decides [of pt "hd_env h" e c d] show ?thesis
      by (auto simp: resume_request_def split: prod.splits)
  next
    case (Inr x)
    with m r have "reply_of pt (hd_env h) (conclude pt (hd_env h) (hd_use_case h) (hd_body h) (Some x) c) =
        (sv', DecisionReply d)"
      by (auto simp: resume_request_def split: prod.splits)
    then show ?thesis by (rule reply_of_decides)
  qed
qed

lemma resolved_step:
  assumes "resolved i uc st"
  shows "resolved i uc (service_event_step pt consume_at yaml_load coerce ev st)"
proof (cases ev)
  case (Begin env host k body cid)
  show ?thesis
    using assms unfolding Begin service_event_step.simps
    by (cases rule: begin_effect [of pt env host k body cid st]) (auto simp: resolved_def)
next
  case (Resume j time)
  show ?thesis
  proof (cases "dict_get (bz_waiting st) j")
    case (Some h)
    obtain sv v reply where r: "resume_request pt (consume_at time) h (bz_service st) = (sv, v, reply)"
      by (metis prod.exhaust)
    have "hd_use_case h = uc" if "j = i" using that Some assms by (auto simp: resolved_def dest: dict_get_in)
    then have "names_policy d uc" if "j = i" "reply = DecisionReply d" for d
      using that resume_decides [of pt "consume_at time" h "bz_service st" sv v d] r by simp
    with assms Some r show ?thesis by (auto simp: Resume resolved_def)
  qed (use assms in \<open>simp add: Resume\<close>)
qed (use assms in \<open>simp add: resolved_def\<close>)

lemma numbered_step:
  assumes "numbered st"
  shows "numbered (service_event_step pt consume_at yaml_load coerce ev st)"
proof (cases ev)
  case (Begin env host k body cid)
  show ?thesis
    using assms unfolding Begin service_event_step.simps
    by (cases rule: begin_effect [of pt env host k body cid st]) (fastforce simp: numbered_def)+
next
  case (Resume j time)
  then show ?thesis
    using assms by (fastforce simp: numbered_def dest: dict_get_in split: option.splits prod.splits)
qed (use assms in \<open>simp add: numbered_def\<close>)

lemma begin_resolved:
  assumes "numbered st"
  shows "resolved (bz_next st) (sv_use_case (bz_service st)) (begin_request pt env host k body cid st)"
  using assms
  by (cases rule: begin_effect [of pt env host k body cid st]) (auto simp: numbered_def resolved_def)

lemma run_resolved:
  "resolved i uc st \<Longrightarrow> resolved i uc (service_run pt consume_at yaml_load coerce events st)"
  by (induction events arbitrary: st) (simp_all add: service_run_def resolved_step)

lemma run_numbered: "numbered st \<Longrightarrow> numbered (service_run pt consume_at yaml_load coerce events st)"
  by (induction events arbitrary: st) (simp_all add: service_run_def numbered_step)

section \<open>An example\<close>

text \<open>A production-like service on a model Redis server, and the request of the README.\<close>

definition readme_wire :: wire_request where
  "readme_wire =
    \<lparr>wq_schema_version = ''1.0'', wq_requested_at = utc 1784721600000000,
     wq_workflow_id = ''credit-review-42'', wq_task_id = ''correlate-findings-7'',
     wq_agent_name = ''credit-analysis-agent'', wq_workload = ''findings_correlation'',
     wq_risk_level = HIGH, wq_data_classification = RESTRICTED, wq_context_tokens_estimated = 100000,
     wq_max_output_tokens_estimated = 2000, wq_structured_output_required = False,
     wq_max_latency_ms = 60000, wq_max_cost_usd = Price (Dec 100 (-2)),
     wq_include_rejected_candidates = False\<rparr>"

definition signed_service :: "(unit, unit, (string, instant) dict) service" where
  "signed_service =
    \<lparr>sv_use_case = shipped_use_case, sv_api_keys = [(''credit-analysis-agent'', ''secret'')],
     sv_max_request_body_bytes = 16384, sv_service_version = ''0.5.0'', sv_environment = ''production'',
     sv_authorization_required = True, sv_verifier = Some (sample_verifier 0), sv_guard = [],
     sv_rate_limiter = (), sv_ip_rate_limiter = (), sv_metrics = []\<rparr>"

definition signed_ports :: "(unit, unit, (string, instant) dict) ports" where
  "signed_ports =
    \<lparr>pt_allow = (\<lambda>_ s _. (s, True)), pt_consume = redis_consume model_set ''p:'' 0, pt_edv = sample_edv,
     pt_dump_time = sample_dump, pt_resolve = StaticAvailabilityProvider_resolve\<rparr>"

definition at_time :: "instant \<Rightarrow> call_env" where
  "at_time t = sample_env\<lparr>ce_now := utc t, ce_decision_id := ''id''\<rparr>"

lemma at_time_now [simp]: "ce_now (at_time t) = utc t"
  by (simp add: at_time_def)

abbreviation signed_body :: "instant route_envelope" where
  "signed_body \<equiv> AuthorizedRequest readme_wire sample_envelope"

lemma readme_wire_domain: "to_domain_request readme_wire = readme_request"
  by (simp add: to_domain_request_def readme_wire_def readme_request_def utc_def)

lemma readme_admitted:
  assumes "1784721600000000 \<le> t" "t < 1784721900000000" "sv_api_keys sv = sv_api_keys signed_service"
    and "sv_verifier sv = Some (sample_verifier 0)" "sv_authorization_required sv"
  shows "\<exists>c. admit_request signed_ports (at_time t) host (Some ''secret'') signed_body (sv, rs) =
    (c, Inr (Some (sample_verifier 0, sample_envelope)))"
proof -
  have checks: "verify_checks sample_edv sample_dump (sample_verifier 0) sample_envelope readme_request (utc t)
      = Inr ()"
    using sample_authorized [of t 0] assms by (simp add: verify_checks_iff utc_def)
  have "ascii_str ''secret''" by code_simp
  then have "authenticate (Some ''secret'') ''credit-analysis-agent'' (sv_api_keys signed_service) = Inr ()"
    by (simp add: authenticate_iff authentic_key_def signed_service_def)
  moreover have "wq_agent_name readme_wire = ''credit-analysis-agent''" by (simp add: readme_wire_def)
  ultimately show ?thesis
    using checks assms(3-5)
    by (simp add: admit_request_def Let_def then_do_def limit_agent_def signed_ports_def readme_wire_domain
        check_authorization_def at_time_def case_prod_unfold raise_if_def)
qed

lemma shipped_fit: "policy_fit (uc_policy shipped_use_case)"
proof -
  have "valid_model_group ''fast-small''" "valid_model_group ''reasoning-medium''"
    "valid_model_group ''reasoning-strong''" "valid_model_group ''fast-structured-output''" by code_simp+
  then show ?thesis
    using shipped_closed by (simp add: policy_fit_def shipped_defs fit_profile_def)
qed

lemma readme_wire_ok: "request_ok readme_wire"
proof -
  have "valid_workload ''findings_correlation''" by code_simp
  then show ?thesis by (simp add: request_ok_def readme_wire_def utc_def)
qed

lemma readme_decided:
  "\<exists>dd. route shipped_use_case StaticAvailabilityProvider_resolve ''id'' 0 readme_request False = Inr dd
    \<and> rd_selected_model_group dd = ''reasoning-strong'' \<and> from_domain_decision dd = Inr (wire_decision_of dd)"
proof -
  obtain dd where dd: "route shipped_use_case StaticAvailabilityProvider_resolve ''id'' 0 readme_request False = Inr dd"
    using readme_routes by blast
  have "rd_selected_model_group dd = ''reasoning-strong''"
    by (rule route_Inr_cases [OF dd shipped_closed]) (use shipped_findings(1) in \<open>auto simp: readme_request_def simple_rule_def\<close>)
  moreover have "decision_ok dd"
    using dd route_outcome_ok [OF shipped_fit _ readme_wire_ok, of "''id''" StaticAvailabilityProvider_resolve 0 False]
    by (simp add: deployed_def shipped_use_case_def readme_wire_domain)
  ultimately show ?thesis using dd by (simp add: from_domain_decision_Inr)
qed

lemma readme_concluded:
  assumes "va_envelope v = sample_envelope"
  shows "\<exists>d. \<forall>c. \<exists>c'. conclude signed_ports (at_time t) shipped_use_case signed_body (Some v) c = (c', Inr d)"
proof -
  obtain dd where dd: "route shipped_use_case StaticAvailabilityProvider_resolve ''id'' 0 readme_request False = Inr dd"
    "rd_selected_model_group dd = ''reasoning-strong''" "from_domain_decision dd = Inr (wire_decision_of dd)"
    using readme_decided by blast
  have "signed_for (Some sample_envelope) ''reasoning-strong''"
    by (simp add: signed_for_def sample_envelope_def sample_claims_def sample_scope_def sample_model_def)
  then have "\<exists>c'. conclude signed_ports (at_time t) shipped_use_case signed_body (Some v) c =
      (c', Inr (wire_decision_of dd))" for c
    unfolding conclude_def Let_def tail_iff using dd assms
    by (simp add: readme_wire_domain signed_ports_def at_time_def sample_env_def)
      (simp add: readme_wire_def)
  then show ?thesis by blast
qed

lemma begin_waits:
  "admit_request pt env host k body (bz_service st, initial_request_state cid) = (c, Inr (Some (vf, a))) \<Longrightarrow>
    begin_request pt env host k body cid st =
      st\<lparr>bz_next := Suc (bz_next st), bz_service := fst c,
         bz_waiting := bz_waiting st @ [(bz_next st, \<lparr>hd_request_state = snd c,
           hd_use_case = sv_use_case (bz_service st), hd_body = body, hd_env = env, hd_verifier = vf,
           hd_authorization = a\<rparr>)]\<rparr>"
  by (simp add: begin_request_def Let_def)

lemma resume_concludes:
  assumes "consume_verified consume (hd_verifier h) (sv_guard sv) (hd_authorization h) (ce_now (hd_env h)) = (g, Inr v)"
    and "\<And>c. \<exists>c'. conclude pt (hd_env h) (hd_use_case h) (hd_body h) (Some v) c = (c', Inr d)"
  shows "\<exists>sv'. resume_request pt consume h sv = (sv', Some v, DecisionReply d)"
proof -
  obtain c' where "conclude pt (hd_env h) (hd_use_case h) (hd_body h) (Some v)
      (count [RuntimeAuthorizations ''verified''] (sv\<lparr>sv_guard := g\<rparr>),
       (hd_request_state h)\<lparr>rs_authorization_verified := True\<rparr>) = (c', Inr d)" using assms(2) by blast
  then show ?thesis using assms(1) by (simp add: resume_request_def consume_authorization_def reply_of_def)
qed

text \<open>A request that arrives, waits while the policy is reloaded, and resumes.\<close>

abbreviation interrupted :: "service_event list" where
  "interrupted \<equiv> [Begin (at_time 1784721600000000) ''10.0.0.1'' (Some ''secret'') signed_body ''c-1'',
    Reload (Some (utf8_encode ''policy'')), Resume 0 1784721600500000]"

abbreviation signed_run :: "service_event list \<Rightarrow> (unit, unit, (string, instant) dict) busy" where
  "signed_run events \<equiv> service_run signed_ports (\<lambda>time. redis_consume model_set ''p:'' (time + 0)) Inr
    sample_coerce events (unused signed_service)"

definition readme_verified :: "instant \<Rightarrow> verified_authorization" where
  "readme_verified t = \<lparr>va_envelope = sample_envelope, va_verified_at = t,
     va_key_set_generation = ks_generation (vf_key_set (sample_verifier 0))\<rparr>"

lemma interrupted_decides:
  "\<exists>t v d. (0, t, v, DecisionReply d) \<in> set (bz_replies (signed_run interrupted))"
proof -
  let ?st = "unused signed_service"
  obtain c where c: "admit_request signed_ports (at_time 1784721600000000) ''10.0.0.1'' (Some ''secret'') signed_body
      (signed_service, initial_request_state ''c-1'') = (c, Inr (Some (sample_verifier 0, sample_envelope)))"
    using readme_admitted [of 1784721600000000 signed_service] by (fastforce simp: signed_service_def)
  have uc: "sv_use_case signed_service = shipped_use_case" and "sv_guard signed_service = []"
    by (simp_all add: signed_service_def)
  then have g: "sv_guard (fst c) = []"
    using c admit_guard [of signed_ports "at_time 1784721600000000" "''10.0.0.1''" "Some ''secret''" signed_body
      "(signed_service, initial_request_state ''c-1'')"] by simp
  have "snd (consume_verified (redis_consume model_set ''p:'' 1784721600500000) (sample_verifier 0) []
      sample_envelope (utc 1784721600000000)) = Inr (readme_verified 1784721600000000)"
    by (simp add: consume_verified_Inr redis_consume_snd model_set_def readme_verified_def utc_def)
  then obtain g' where v: "consume_verified (redis_consume model_set ''p:'' 1784721600500000) (sample_verifier 0) []
      sample_envelope (utc 1784721600000000) = (g', Inr (readme_verified 1784721600000000))"
    by (metis prod.collapse)
  have "\<exists>d. \<forall>c. \<exists>c'. conclude signed_ports (at_time 1784721600000000) shipped_use_case signed_body
      (Some (readme_verified 1784721600000000)) c = (c', Inr d)"
    by (rule readme_concluded) (simp add: readme_verified_def)
  then obtain d where d: "\<And>c. \<exists>c'. conclude signed_ports (at_time 1784721600000000) shipped_use_case signed_body
      (Some (readme_verified 1784721600000000)) c = (c', Inr d)" by blast
  let ?h = "\<lparr>hd_request_state = snd c, hd_use_case = shipped_use_case, hd_body = signed_body,
      hd_env = at_time 1784721600000000, hd_verifier = sample_verifier 0, hd_authorization = sample_envelope\<rparr>"
  let ?sv = "fst (reload_routing_policy Inr sample_coerce (Some (utf8_encode ''policy'')) (fst c))"
  obtain sv' where "resume_request signed_ports (redis_consume model_set ''p:'' 1784721600500000) ?h ?sv =
      (sv', Some (readme_verified 1784721600000000), DecisionReply d)"
    using resume_concludes [of "redis_consume model_set ''p:'' 1784721600500000" ?h ?sv g'
        "readme_verified 1784721600000000" signed_ports d] v d g by auto
  then show ?thesis
    using c uc by (auto simp: service_run_def unused_def begin_waits)
qed

section \<open>Properties\<close>

text \<open>
  C7. Every decision is made with one policy, the one active when its request arrived: whatever
  happened before, and whatever requests and reloads come between its arrival and its reply, a
  decision names the identifier, version and digest of that policy.
\<close>

theorem decision_names_policy_of_arrival:
  assumes "st = service_run pt consume_at yaml_load coerce earlier (unused sv)"
    and "(bz_next st, t, v, DecisionReply d) \<in> set (bz_replies (service_run pt consume_at yaml_load coerce
      (Begin env host x_api_key body correlation_id # later) st))"
  shows "[wd_policy_id d, wd_policy_version d, wd_policy_digest d] =
    (let policy = uc_policy (sv_use_case (bz_service st))
     in [rp_policy_id policy, rp_policy_version policy, rp_policy_digest policy])"
proof -
  have "numbered st"
    unfolding assms(1) by (rule run_numbered) (simp add: numbered_def unused_def)
  from run_resolved [OF begin_resolved [OF this], of pt consume_at yaml_load coerce later pt env host x_api_key
      body correlation_id]
  show ?thesis using assms(2) by (auto simp: resolved_def service_run_def Let_def)
qed

text \<open>A decision that waited for a reload names the policy from before, not the active one.\<close>

theorem decision_names_policy_of_arrival_witness:
  "\<exists>t v d. (0, t, v, DecisionReply d) \<in> set (bz_replies (signed_run interrupted))
    \<and> [wd_policy_id d, wd_policy_version d] = [''credit-desk-routing'', ''1.0.0'']"
proof -
  obtain t v d where d: "(0, t, v, DecisionReply d) \<in> set (bz_replies (signed_run interrupted))"
    using interrupted_decides by blast
  let ?st = "signed_run []"
  have st: "?st = unused signed_service" by (simp add: service_run_def)
  have "[wd_policy_id d, wd_policy_version d, wd_policy_digest d] =
    (let policy = uc_policy (sv_use_case (bz_service ?st))
     in [rp_policy_id policy, rp_policy_version policy, rp_policy_digest policy])"
  proof (rule decision_names_policy_of_arrival)
    show "?st = signed_run []" ..
    show "(bz_next ?st, t, v, DecisionReply d) \<in> set (bz_replies (service_run signed_ports
        (\<lambda>time. redis_consume model_set ''p:'' (time + 0)) Inr sample_coerce interrupted ?st))"
      using d unfolding st by (simp add: unused_def)
  qed
  moreover have "uc_policy (sv_use_case (bz_service ?st)) = shipped_policy"
    unfolding st by (simp add: unused_def signed_service_def shipped_use_case_def)
  ultimately have "[wd_policy_id d, wd_policy_version d] = [''credit-desk-routing'', ''1.0.0'']"
    by (simp only: Let_def) (simp add: shipped_policy_def)
  with d show ?thesis by blast
qed

end
