(* ===== verification/Concurrent_Deployment.thy ===== *)
theory Concurrent_Deployment
  imports Concurrent_Service Startup_Properties
begin

text \<open>
  A service that started, with requests in flight: its guard is the one the startup built, in
  memory or on Redis, and keeps the contract of \<open>concurrent_guard\<close>.
\<close>

section \<open>The guard of a started service\<close>

text \<open>
  \<open>consume\<close> of whichever guard the startup built; without one the verifier is the disabled one, and
  the handler never gets to it. The Redis server's clock is at the distance \<open>d\<close> from the service's.
\<close>

definition replay_consume :: "'w redis_set \<Rightarrow> int \<Rightarrow> 'w replay_state option consume_at" where
  "replay_consume set_nx d time guard i expires_at now =
    (case guard of
       None \<Rightarrow> (None, Inl store_unavailable)
     | Some (MemoryReplay g) \<Rightarrow>
         (let (g, fresh) = im_consume g i expires_at now in (Some (MemoryReplay g), fresh))
     | Some (RedisReplay prefix w) \<Rightarrow>
         (let (w, fresh) = redis_consume set_nx prefix (time + d) w i expires_at now
          in (Some (RedisReplay prefix w), fresh)))"

definition replay_inv :: "'w redis_set \<Rightarrow> ('w \<Rightarrow> instant \<Rightarrow> string \<Rightarrow> bool) \<Rightarrow> 'w replay_state option \<Rightarrow> bool" where
  "replay_inv set_nx alive guard \<longleftrightarrow> redis_laws set_nx alive
    \<and> (case guard of Some (MemoryReplay g) \<Rightarrow> im_inv g | _ \<Rightarrow> True)"

definition replay_held ::
  "('w \<Rightarrow> instant \<Rightarrow> string \<Rightarrow> bool) \<Rightarrow> int \<Rightarrow> 'w replay_state option \<Rightarrow> uuid \<Rightarrow> instant \<Rightarrow> bool" where
  "replay_held alive d guard i t \<longleftrightarrow>
    (case guard of
       None \<Rightarrow> False
     | Some (MemoryReplay g) \<Rightarrow> im_held g i t
     | Some (RedisReplay prefix w) \<Rightarrow> alive w (t + d) (prefix @ uuid_str i))"

lemma replay_consume_simps [simp]:
  "fst (replay_consume set_nx d time None i x n) = None"
  "snd (replay_consume set_nx d time None i x n) = Inl store_unavailable"
  "fst (replay_consume set_nx d time (Some (MemoryReplay g)) i x n) = Some (MemoryReplay (fst (im_consume g i x n)))"
  "snd (replay_consume set_nx d time (Some (MemoryReplay g)) i x n) = snd (im_consume g i x n)"
  "fst (replay_consume set_nx d time (Some (RedisReplay p w)) i x n) =
    Some (RedisReplay p (fst (redis_consume set_nx p (time + d) w i x n)))"
  "snd (replay_consume set_nx d time (Some (RedisReplay p w)) i x n) =
    snd (redis_consume set_nx p (time + d) w i x n)"
  by (simp_all add: replay_consume_def case_prod_unfold Let_def)

lemma replay_cases:
  obtains "guard = None" | g where "guard = Some (MemoryReplay g)" | p w where "guard = Some (RedisReplay p w)"
  by (cases guard) (use replay_state.exhaust in blast)+

interpretation started_guard: concurrent_guard "replay_consume set_nx d" "replay_inv set_nx alive" "replay_held alive d"
  for set_nx d alive
proof (unfold_locales, goal_cases)
  case (1 s time i e n)
  then show ?case by (cases s rule: replay_cases) (simp_all add: replay_inv_def im_consume_inv)
next
  case (2 s i time n e)
  then show ?case
    using late_in_memory.late_refused [of _ i time n e] late_redis.late_refused [of set_nx alive _ time d _ i n e]
    by (cases s rule: replay_cases) (auto simp: replay_inv_def replay_held_def)
next
  case (3 s time i e n t)
  then show ?case
    using late_in_memory.late_holds [of _ i e n time t] late_redis.late_holds [of set_nx alive _ time d _ i e n t]
    by (cases s rule: replay_cases) (auto simp: replay_inv_def replay_held_def)
next
  case (4 s i t n time j e)
  then show ?case
    using late_in_memory.late_keeps [of _ i t n time j e] late_redis.late_keeps [of set_nx alive _ t d _ i n time j e]
    by (cases s rule: replay_cases) (auto simp: replay_inv_def replay_held_def)
qed

lemma built_guard:
  assumes "build_runtime_authorization_verifier pf w settings control app_env redis_url = Inr built"
    and "redis_laws set_nx alive"
  shows "replay_inv set_nx alive (map_option snd built)"
  using assms
  by (auto simp: build_runtime_authorization_verifier_def build_replay_guard_def replay_inv_def rbind_Inr_iff
      fresh_guard_inv split: if_splits)

definition empty_server :: "(string, instant) dict" where
  "empty_server = []"

section \<open>Properties\<close>

text \<open>
  C5. One authorization, one decision: however a service starts, in development with the guard in
  memory or deployed with the documented Redis server, and whatever requests, reloads and delays
  interleave from then on, two decisions are earned by the same authorization identifier only when
  the second was consumed at or after the expiry of the first.
\<close>

theorem one_decision_per_authorization:
  assumes "lifespan pf w ev = Inr sv" and "redis_laws set_nx alive" and "sorted (clock_times events)"
  shows "used_once (decided (service_run pt (replay_consume set_nx d) (pf_yaml_load pf) (pf_coerce pf)
    events (unused sv)))"
proof (rule lifespan_Inr [OF assms(1)])
  fix settings authorization control built
  assume "build_runtime_authorization_verifier pf w authorization control (st_app_env settings)
      (st_redis_url settings) = Inr built" and "sv_guard sv = map_option snd built"
  then have "replay_inv set_nx alive (sv_guard sv)" using built_guard assms(2) by metis
  then show ?thesis using assms(3) by (rule started_guard.single_use_served)
qed

text \<open>A production start on a server that keeps every key; two requests that wait at the same time.\<close>

theorem one_decision_per_authorization_witness:
  "\<exists>sv. lifespan sample_platform empty_server production = Inr sv \<and>
    used_once (decided (service_run production_ports (replay_consume model_set 0) Inr sample_coerce
      [Begin (at_time 1784721600000000) ''10.0.0.1'' (Some ''secret'') signed_body ''c-1'',
       Begin (at_time 1784721600100000) ''10.0.0.2'' (Some ''secret'') signed_body ''c-2'',
       Resume 1 1784721600400000, Resume 0 1784721600500000] (unused sv)))"
proof -
  obtain sv where sv: "lifespan sample_platform empty_server production = Inr sv" using production_starts [of empty_server] by blast
  show ?thesis
    using sv one_decision_per_authorization [OF sv model_laws, of "[Begin (at_time 1784721600000000) ''10.0.0.1'' (Some ''secret'') signed_body ''c-1'',
       Begin (at_time 1784721600100000) ''10.0.0.2'' (Some ''secret'') signed_body ''c-2'',
       Resume 1 1784721600400000, Resume 0 1784721600500000]" production_ports 0]
    by (simp add: utc_def sample_platform_def)
qed

end
