(* ===== verification/Shutdown.thy ===== *)
theory Shutdown
  imports Startup_Properties
begin

text \<open>
  The shutdown half of \<open>_lifespan\<close>: which Redis clients the service holds, and which of them it
  asks to close. \<open>closes c\<close> is whether the client \<open>c\<close> closes without an exception; a \<open>close\<close> returns
  the clients it asked, in order, and whether it returned.
\<close>

section \<open>Closing\<close>

datatype client = AgentLimiterClient | AddressLimiterClient | ReplayClient | ControlClient

type_synonym closing = "client list \<times> bool"

definition limiter_close :: "(client \<Rightarrow> bool) \<Rightarrow> client \<Rightarrow> 'w limiter \<Rightarrow> closing" where
  "limiter_close closes c l =
    (case l of LocalLimiter _ \<Rightarrow> ([], True) | SharedLimiter _ _ \<Rightarrow> ([c], closes c))"

definition guard_close :: "(client \<Rightarrow> bool) \<Rightarrow> 'w replay_state \<Rightarrow> closing" where
  "guard_close closes g =
    (case g of MemoryReplay _ \<Rightarrow> ([], True) | RedisReplay _ _ \<Rightarrow> ([ReplayClient], closes ReplayClient))"

text \<open>The enforcer closes its store, and the factory gives it the Redis store.\<close>

definition enforcer_close :: "(client \<Rightarrow> bool) \<Rightarrow> closing" where
  "enforcer_close closes = ([ControlClient], closes ControlClient)"

definition verifier_close :: "(client \<Rightarrow> bool) \<Rightarrow> 'k verifier \<Rightarrow> 'w replay_state \<Rightarrow> closing" where
  "verifier_close closes vf g =
    (let (asked, returned) = guard_close closes g
     in if \<not> returned then (asked, False)
        else if vf_runtime_control vf = None then (asked, True)
        else (let (more, returned) = enforcer_close closes in (asked @ more, returned)))"

text \<open>\<open>asyncio.gather\<close> with \<open>return_exceptions\<close>: each close runs to its end, whatever the others do.\<close>

definition shutdown ::
  "(client \<Rightarrow> bool) \<Rightarrow> ('k, 'w limiter, 'w replay_state option) service \<Rightarrow> client list" where
  "shutdown closes sv =
    fst (limiter_close closes AgentLimiterClient (sv_rate_limiter sv)) @
    fst (limiter_close closes AddressLimiterClient (sv_ip_rate_limiter sv)) @
    (case (sv_verifier sv, sv_guard sv) of
       (Some vf, Some g) \<Rightarrow> fst (verifier_close closes vf g)
     | _ \<Rightarrow> [])"

section \<open>What is closed\<close>

text \<open>The clients a service holds: it asks all of them when every one closes.\<close>

definition clients :: "('k, 'w limiter, 'w replay_state option) service \<Rightarrow> client set" where
  "clients sv = set (shutdown (\<lambda>_. True) sv)"

lemma shutdown_asks:
  "set (shutdown closes sv) =
    (if closes ReplayClient \<or> ReplayClient \<notin> clients sv then clients sv else clients sv - {ControlClient})"
  by (cases "sv_verifier sv"; cases "sv_guard sv"; cases "the (sv_guard sv)"; cases "sv_rate_limiter sv";
      cases "sv_ip_rate_limiter sv")
    (auto simp: clients_def shutdown_def limiter_close_def verifier_close_def guard_close_def enforcer_close_def)

text \<open>A limiter's client is asked to close whatever any other client does.\<close>

lemma limiters_always_closed:
  "c \<in> clients sv \<Longrightarrow> c = AgentLimiterClient \<or> c = AddressLimiterClient \<Longrightarrow> c \<in> set (shutdown closes sv)"
  by (auto simp: shutdown_asks)

text \<open>
  The kill switch's client is not: in a deployment a replay client that fails to close leaves it
  open.
\<close>

lemma control_client_left_open:
  assumes "lifespan pf w ev = Inr sv" "deployed_env (sv_environment sv)" "\<not> closes ReplayClient"
  shows "ControlClient \<in> clients sv - set (shutdown closes sv)"
proof (rule lifespan_Inr [OF assms(1)])
  fix settings authorization control built
  assume b: "build_runtime_authorization_verifier pf w authorization control (st_app_env settings)
      (st_redis_url settings) = Inr built" and "sv_environment sv = st_app_env settings"
    and "sv_verifier sv = map_option fst built" "sv_guard sv = map_option snd built"
  moreover from this build_verifier_deployed [OF b] assms(2) obtain vf p where
    "built = Some (vf, RedisReplay p w)" "hardened pf vf" by auto
  ultimately show ?thesis
    using assms(3)
    by (auto simp: clients_def shutdown_def verifier_close_def guard_close_def enforcer_close_def
        limiter_close_def hardened_def split: limiter.splits)
qed

end
