(* ===== verification/Spec2Isabelle.thy ===== *)
theory Spec2Isabelle
  imports Routing_Properties Redis_Rate_Limiter Startup_Properties Loop_Contract_Properties Reload_Tasks
    Architecture Vendor_Manifest Quality_Gate Concurrent_Deployment Shutdown
begin

text \<open>
  Verification of the policy model router, the service agents ask which model group may serve a
  request (\<open>src/src/policy_model_router\<close>, to which paths below are relative), and of the scripts that
  guard its repository (\<open>src/scripts\<close>).

  \<^bold>\<open>The program.\<close> \<open>POST /route\<close> passes a byte-bounding ASGI middleware with a per-address rate
  limit, is parsed into the wire contract, limited per address and agent, authenticated by the
  agent's key, checked against a signed, single-use Governance authorization and the kill switch,
  decided by the routing use case against the active policy, held against the signed scope, and
  answered. Every denial by the authorization boundary is answered with digest-bound evidence.
  The policy is a YAML file, read at startup and again on a signal. The quality gate runs a script
  for the architecture rules, one for the integrity of the vendored schema bundle and one that
  validates loop contracts with that bundle's JSON Schema evaluator.

  \<^bold>\<open>Theories, in the order of the program's layers.\<close>
    \<^item> \<open>Prelude\<close>: results that may raise (\<open>rbind\<close>, \<open>raise_if\<close>), dictionaries, strings.
      \<open>Py_Decimal\<close>: decimal arithmetic in the default 28-digit context. \<open>Uuid\<close>, \<open>Bytes\<close>, \<open>Json\<close>:
      the parts of the standard library the program's guarantees rest on, from canonical JSON
      down to UTF-8, with their round trips and injectivity.
    \<^item> \<open>Domain\<close>, \<open>Constraints\<close>, \<open>Route_Model\<close>: \<open>domain/enums.py\<close>, \<open>identifiers.py\<close>, \<open>catalog.py\<close>,
      \<open>routing.py\<close>, \<open>constraints.py\<close> and \<open>application/route_model.py\<close>. \<open>Routing_Properties\<close> states when a
      decision is made, which group it selects and what every rejection explains.
    \<^item> \<open>Policy_Loader\<close>: \<open>adapters/routing_policy_loader.py\<close>; what a policy that loads guarantees.
    \<^item> \<open>Rate_Limiter\<close>, \<open>Redis_Rate_Limiter\<close>: both limiters, related through the locale
      \<open>fixed_window\<close>, which is interpreted on each.
    \<^item> \<open>Replay_Guard\<close>: both guards of \<open>adapters/runtime_authorization.py\<close>, through the locale
      \<open>replay_guard\<close>. \<open>Runtime_Control\<close>: projection, stores and enforcer of the kill switch, through
      the locale \<open>control_store_port\<close>.
    \<^item> \<open>Authorization_Domain\<close>, \<open>Key_Set\<close>: keys, base64url, the key set document and agent bindings.
      \<open>Authorization_Contract\<close>, \<open>Contract_Properties\<close>: the signed claims, their validators and the
      bytes that are signed. \<open>Authorization_Verifier\<close>, \<open>Verifier_Properties\<close>:
      \<open>application/runtime_authorization.py\<close> and its refinement of the abstract \<open>authorized\<close>.
      \<open>Concurrent_Verification\<close>: the verifications of many requests, interleaved at their awaits.
    \<^item> \<open>Wire_Contract\<close>: \<open>entrypoints/contracts.py\<close>. \<open>Violation\<close>: the evidence contract and builder.
      \<open>Body_Admission\<close>, \<open>Http_Service\<close>, \<open>Http_Properties\<close>: \<open>entrypoints/http.py\<close>, from the middleware
      to the reply, with the service's reachable states. \<open>Reload_Tasks\<close>: the tasks that signals
      schedule, interleaved with the operator's edits of the policy file.
    \<^item> \<open>Startup_Settings\<close>, \<open>Deployment\<close>, \<open>Startup_Properties\<close>: the three settings classes,
      \<open>entrypoints/runtime_authorization_factory.py\<close> and the lifespan: what a service that starts is
      made of, and that it stays so while it serves and reloads. \<open>Shutdown\<close>: which Redis clients it
      closes when it ends.
    \<^item> \<open>Concurrent_Service\<close>, \<open>Concurrent_Deployment\<close>: the handler split at the await of the replay
      guard, requests in flight and reloads between its halves; one decision per authorization from
      any startup on, and the policy a decision names. The locale \<open>concurrent_guard\<close> of
      \<open>Concurrent_Verification\<close> is the contract of a guard reached late; both guards and the one a
      startup builds are interpretations of it.
    \<^item> \<open>Script_Tools\<close>: paths, strings and tables the scripts share. \<open>Loop_Schema\<close>,
      \<open>Loop_Schema_Properties\<close>: \<open>_vendor_loop_schemas/_stdlib_jsonschema.py\<close> against a reference
      reading of every keyword. \<open>Loop_Contract\<close>, \<open>Loop_Contract_Properties\<close>: \<open>models.py\<close>,
      \<open>validate_contract.py\<close>, \<open>schema_resources.py\<close>, the canonical contract schema and
      \<open>validate_loop_contracts.py\<close>. \<open>Architecture\<close>, \<open>Vendor_Manifest\<close>, \<open>Quality_Gate\<close>: the other
      three scripts, with what a passing run shows.

  \<^bold>\<open>Correspondence.\<close> A class is a record or a datatype with the source's fields; an enumeration a
  datatype with its values; a raise is an \<open>Inl\<close>; a dictionary an association list in insertion
  order; a state that is mutated is passed and returned. Integers are unbounded as in Python, and
  a duration or an instant is its number of microseconds.

  \<^bold>\<open>Parameters.\<close> Code outside the repository is an argument of the definitions that use it:
  Ed25519, the Redis client and server (with the documented semantics of \<open>SET NX EX\<close>, \<open>INCR\<close>,
  \<open>EXPIRE\<close> and \<open>TTL\<close> as named hypotheses, instantiated by a model store in the witnesses), PyYAML,
  pydantic's coercion and its text of an instant, the framework's parsing of a body, clocks and
  identifier generators; for the scripts, the file system, \<open>subprocess.run\<close>, \<open>tomllib\<close>, \<open>ast.parse\<close>,
  regular expressions and \<open>datetime.fromisoformat\<close>.

  \<^bold>\<open>Termination and fuel.\<close> Every loop is structural or has a termination proof; the JSON reader
  runs on fuel, the length of its text, and is proved never to run out of it.

  \<^bold>\<open>Not modelled.\<close> \<open>adapters/clock.py\<close> and \<open>id_generator.py\<close> (they return what the model takes as
  an argument), \<open>entrypoints/logging.py\<close>, tracing spans and log lines (no result depends on them),
  the documentation routes of the framework, the dataclasses of \<open>models.py\<close> that nothing constructs
  (evidence, verdict, builder result), and interleavings at the
  other awaits of a handler: each of its two halves, and each step of a reload task, is one step.\<close>

end
